(* ===== verification/Prelude.thy ===== *)
theory Prelude
  imports Complex_Main "HOL-Library.Word" "HOL-Library.AList" "HOL-Library.Multiset" "HOL-Library.Code_Target_Nat"
begin

text \<open>
  Shared vocabulary of the development: Go's fixed-width integers, Go maps and the loops that
  fill them, and the results of calls that may fail or panic.

  A Go map is an association list under \<open>option\<close>: \<open>None\<close> is the \<open>nil\<close> map (reading it is
  reading the empty map; the code allocates before it writes), \<open>Some xs\<close> an allocated one.
  The order of \<open>xs\<close> stands for one order in which \<open>range\<close> may visit the entries; Go leaves
  that order open, so a property of a loop over a map is stated so that it does not depend
  on it.
\<close>

section \<open>Integers\<close>

type_synonym uint8 = "8 word"
type_synonym uint16 = "16 word"
type_synonym uint32 = "32 word"
type_synonym uint64 = "64 word"

text \<open>
  The signed Go integers \<open>int\<close> and \<open>int32\<close> are only copied, compared, printed and converted
  by the code modelled here; they are HOL integers, and a conversion to an unsigned type
  (\<open>uint16(x)\<close>) is \<^term>\<open>word_of_int\<close>, which wraps as Go's does.
\<close>

section \<open>Outcomes\<close>

text \<open>A call that may panic (a nil dereference in the source) ends in one of two ways.\<close>

datatype 'a outcome = Returns 'a | Panics

fun outcome_bind :: "'a outcome \<Rightarrow> ('a \<Rightarrow> 'b outcome) \<Rightarrow> 'b outcome" where
  "outcome_bind (Returns a) f = f a"
| "outcome_bind Panics f = Panics"

lemma outcome_bind_Returns:
  "outcome_bind m f = Returns b \<longleftrightarrow> (\<exists>a. m = Returns a \<and> f a = Returns b)"
  by (cases m) auto

lemma outcome_bind_cong [fundef_cong]:
  "m = m' \<Longrightarrow> (\<And>a. m' = Returns a \<Longrightarrow> f a = g a) \<Longrightarrow> outcome_bind m f = outcome_bind m' g"
  by (cases m') auto

text \<open>A loop whose body may panic.\<close>

fun outcome_fold :: "('x \<Rightarrow> 's \<Rightarrow> 's outcome) \<Rightarrow> 'x list \<Rightarrow> 's \<Rightarrow> 's outcome" where
  "outcome_fold f [] s = Returns s"
| "outcome_fold f (x # xs) s = outcome_bind (f x s) (outcome_fold f xs)"

lemma outcome_fold_invariant:
  assumes "outcome_fold body xs s = Returns t" and "P s"
    and "\<And>x s t. x \<in> set xs \<Longrightarrow> P s \<Longrightarrow> body x s = Returns t \<Longrightarrow> P t"
  shows "P t"
  using assms
proof (induction xs arbitrary: s)
  case (Cons x xs)
  then obtain u where "body x s = Returns u" "outcome_fold body xs u = Returns t" by (auto simp: outcome_bind_Returns)
  with Cons show ?case by (meson list.set_intros)
qed simp

section \<open>Go maps\<close>

type_synonym ('k, 'v) gomap = "('k \<times> 'v) list option"

definition entries :: "('k, 'v) gomap \<Rightarrow> ('k \<times> 'v) list" where
  "entries m = (case m of None \<Rightarrow> [] | Some xs \<Rightarrow> xs)"

definition gmap_get :: "('k, 'v) gomap \<Rightarrow> 'k \<Rightarrow> 'v option" where
  "gmap_get m k = map_of (entries m) k"

text \<open>The idiom \<open>if m == nil { m = make(..) }; m[k] = v\<close>.\<close>

definition gmap_put :: "('k, 'v) gomap \<Rightarrow> 'k \<Rightarrow> 'v \<Rightarrow> ('k, 'v) gomap" where
  "gmap_put m k v = Some (AList.update k v (entries m))"

definition gmap_delete :: "('k, 'v) gomap \<Rightarrow> 'k \<Rightarrow> ('k, 'v) gomap" where
  "gmap_delete m k = map_option (AList.delete k) m"

definition gmap_wf :: "('k, 'v) gomap \<Rightarrow> bool" where
  "gmap_wf m \<longleftrightarrow> distinct (map fst (entries m))"

abbreviation gmap_empty :: "('k, 'v) gomap" where
  "gmap_empty \<equiv> Some []"

text \<open>\<open>reflect.DeepEqual\<close> on maps: both nil or both allocated, and the same bindings.\<close>

definition gmap_deep_equal :: "('k, 'v) gomap \<Rightarrow> ('k, 'v) gomap \<Rightarrow> bool" where
  "gmap_deep_equal m n \<longleftrightarrow>
     (m = None \<longleftrightarrow> n = None) \<and> length (entries m) = length (entries n) \<and>
     list_all (\<lambda>(k, v). gmap_get n k = Some v) (entries m)"

subsection \<open>The interface the map loops rely on\<close>

locale go_map =
  fixes get :: "'m \<Rightarrow> 'k \<Rightarrow> 'v option"
    and put :: "'m \<Rightarrow> 'k \<Rightarrow> 'v \<Rightarrow> 'm"
    and del :: "'m \<Rightarrow> 'k \<Rightarrow> 'm"
    and wf :: "'m \<Rightarrow> bool"
  assumes get_put: "get (put m k v) k' = (if k' = k then Some v else get m k')"
    and get_del: "get (del m k) k' = (if k' = k then None else get m k')"
    and wf_put: "wf m \<Longrightarrow> wf (put m k v)"
    and wf_del: "wf m \<Longrightarrow> wf (del m k)"
begin

text \<open>The loop \<open>for _, x := range xs { m[key x] = val x }\<close>.\<close>

definition put_all :: "('x \<Rightarrow> 'k) \<Rightarrow> ('x \<Rightarrow> 'v) \<Rightarrow> 'x list \<Rightarrow> 'm \<Rightarrow> 'm" where
  "put_all key val xs m = fold (\<lambda>x m. put m (key x) (val x)) xs m"

lemma put_all_simps [simp]:
  "put_all key val [] m = m"
  "put_all key val (x # xs) m = put_all key val xs (put m (key x) (val x))"
  by (simp_all add: put_all_def)

lemma get_put_all:
  "get (put_all key val xs m) k =
     (case map_of (rev (map (\<lambda>x. (key x, val x)) xs)) k of
        None \<Rightarrow> get m k | Some v \<Rightarrow> Some v)"
  by (induction xs arbitrary: m) (auto simp: get_put map_add_def split: option.split)

lemma get_put_all_notin:
  "k \<notin> key ` set xs \<Longrightarrow> get (put_all key val xs m) k = get m k"
  by (induction xs arbitrary: m) (auto simp: get_put)

lemma get_put_all_in:
  "k \<in> key ` set xs \<Longrightarrow> \<exists>x \<in> set xs. key x = k \<and> get (put_all key val xs m) k = Some (val x)"
proof (induction xs arbitrary: m)
  case Nil
  then show ?case by simp
next
  case (Cons x xs)
  show ?case
  proof (cases "k \<in> key ` set xs")
    case True
    then show ?thesis using Cons.IH [of "put m (key x) (val x)"] by auto
  next
    case False
    with Cons.prems have "key x = k" by auto
    with False show ?thesis by (auto simp: get_put_all_notin get_put)
  qed
qed

lemma wf_put_all: "wf m \<Longrightarrow> wf (put_all key val xs m)"
  by (induction xs arbitrary: m) (auto intro: wf_put)

text \<open>The loop \<open>for _, k := range ks { delete(m, k) }\<close>.\<close>

definition del_all :: "'k list \<Rightarrow> 'm \<Rightarrow> 'm" where
  "del_all ks m = fold (\<lambda>k m. del m k) ks m"

lemma del_all_simps [simp]:
  "del_all [] m = m"
  "del_all (k # ks) m = del_all ks (del m k)"
  by (simp_all add: del_all_def)

lemma get_del_all: "get (del_all ks m) k = (if k \<in> set ks then None else get m k)"
  by (induction ks arbitrary: m) (auto simp: get_del)

lemma wf_del_all: "wf m \<Longrightarrow> wf (del_all ks m)"
  by (induction ks arbitrary: m) (auto intro: wf_del)

end

lemma entries_simps [simp]: "entries None = []" "entries (Some xs) = xs"
  by (simp_all add: entries_def)

lemma gmap_get_nil [simp]: "gmap_get None k = None" "gmap_get (Some []) k = None"
  by (simp_all add: gmap_get_def)

lemma gmap_get_put [simp]: "gmap_get (gmap_put m k v) k' = (if k' = k then Some v else gmap_get m k')"
  by (simp add: gmap_get_def gmap_put_def update_conv)

lemma gmap_get_delete [simp]: "gmap_get (gmap_delete m k) k' = (if k' = k then None else gmap_get m k')"
  by (cases m) (auto simp: gmap_get_def gmap_delete_def delete_conv')

lemma gmap_wf_nil [simp]: "gmap_wf None" "gmap_wf (Some [])"
  by (simp_all add: gmap_wf_def)

lemma gmap_wf_put [intro, simp]: "gmap_wf m \<Longrightarrow> gmap_wf (gmap_put m k v)"
  by (simp add: gmap_wf_def gmap_put_def distinct_update)

lemma gmap_wf_delete [intro, simp]: "gmap_wf m \<Longrightarrow> gmap_wf (gmap_delete m k)"
  by (cases m) (auto simp: gmap_wf_def gmap_delete_def distinct_delete)

interpretation gm: go_map gmap_get gmap_put gmap_delete gmap_wf
  by unfold_locales auto

subsection \<open>Entries and bindings\<close>

lemma gmap_get_in: "gmap_get m k = Some v \<Longrightarrow> (k, v) \<in> set (entries m)"
  by (auto simp: gmap_get_def dest: map_of_SomeD)

lemma gmap_in_get: "gmap_wf m \<Longrightarrow> (k, v) \<in> set (entries m) \<Longrightarrow> gmap_get m k = Some v"
  by (simp add: gmap_wf_def gmap_get_def)

lemma gmap_in_iff: "gmap_wf m \<Longrightarrow> (k, v) \<in> set (entries m) \<longleftrightarrow> gmap_get m k = Some v"
  using gmap_get_in gmap_in_get by fastforce

lemma gmap_get_None: "gmap_get m k = None \<longleftrightarrow> k \<notin> fst ` set (entries m)"
  by (simp add: gmap_get_def map_of_eq_None_iff)

lemma gmap_get_Some_key: "(\<exists>v. gmap_get m k = Some v) \<longleftrightarrow> k \<in> fst ` set (entries m)"
  using gmap_get_None [of m k] by (cases "gmap_get m k") auto

lemma gmap_keys_put: "fst ` set (entries (gmap_put m k v)) = insert k (fst ` set (entries m))"
  by (simp add: gmap_put_def dom_update)

lemma gmap_put_neq_nil [simp]: "gmap_put m k v \<noteq> None"
  by (simp add: gmap_put_def)

lemma gmap_put_nonempty [simp]: "entries (gmap_put m k v) \<noteq> []"
  by (simp add: gmap_put_def)

lemma set_entries_put:
  "set (entries (gmap_put m k v)) \<subseteq> insert (k, v) (set (entries m))"
proof -
  have "set (AList.update k v xs) \<subseteq> insert (k, v) (set xs)" for xs :: "('a \<times> 'b) list"
    by (induction xs) auto
  then show ?thesis by (simp add: gmap_put_def)
qed

text \<open>A loop that rewrites every value in place (\<open>for _, p := range m { *p = f(*p) }\<close>).\<close>

definition gmap_map_values :: "('v \<Rightarrow> 'v) \<Rightarrow> ('k, 'v) gomap \<Rightarrow> ('k, 'v) gomap" where
  "gmap_map_values f m = map_option (map (\<lambda>(k, v). (k, f v))) m"

lemma entries_map_values [simp]:
  "entries (gmap_map_values f m) = map (\<lambda>(k, v). (k, f v)) (entries m)"
  by (cases m) (auto simp: gmap_map_values_def)

lemma gmap_get_map_values [simp]: "gmap_get (gmap_map_values f m) k = map_option f (gmap_get m k)"
  by (simp add: gmap_get_def map_of_map)

lemma gmap_wf_map_values [simp]: "gmap_wf (gmap_map_values f m) \<longleftrightarrow> gmap_wf m"
  by (simp add: gmap_wf_def comp_def case_prod_beta)

section \<open>Lists\<close>

text \<open>\<open>xs = append(xs, x)\<close> when \<open>x\<close> is not there yet: the element order of a set built by
  successive additions.\<close>

definition add_new :: "'a \<Rightarrow> 'a list \<Rightarrow> 'a list" where
  "add_new x xs = (if x \<in> set xs then xs else xs @ [x])"

lemma set_add_new [simp]: "set (add_new x xs) = insert x (set xs)"
  by (auto simp: add_new_def)

lemma distinct_add_new [simp]: "distinct (add_new x xs) \<longleftrightarrow> distinct xs"
  by (auto simp: add_new_def)

lemma set_fold_add_new [simp]: "set (fold add_new xs ys) = set xs \<union> set ys"
  by (induction xs arbitrary: ys) auto

lemma distinct_fold_add_new [simp]: "distinct (fold add_new xs ys) \<longleftrightarrow> distinct ys"
  by (induction xs arbitrary: ys) auto

lemma fold_invariant_list:
  "P s \<Longrightarrow> (\<And>x s. x \<in> set xs \<Longrightarrow> P s \<Longrightarrow> P (f x s)) \<Longrightarrow> P (fold f xs s)"
  by (induction xs arbitrary: s) auto

lemma find_SomeD: "find P xs = Some x \<Longrightarrow> x \<in> set xs \<and> P x"
  by (induction xs) (auto split: if_splits)

lemma find_NoneD: "find P xs = None \<Longrightarrow> x \<in> set xs \<Longrightarrow> \<not> P x"
  by (induction xs) (auto split: if_splits)

lemma fold_append_concat: "fold (\<lambda>x acc. acc @ f x) xs acc = acc @ concat (map f xs)"
  by (induction xs arbitrary: acc) simp_all

section \<open>Step relations\<close>

text \<open>A property that every step keeps holds in every state that is reached from a state with it.\<close>

locale step_invariant =
  fixes step :: "'s \<Rightarrow> 's \<Rightarrow> bool" and inv :: "'s \<Rightarrow> bool"
  assumes step_keeps: "step s t \<Longrightarrow> inv s \<Longrightarrow> inv t"
begin

lemma reachable_inv: "step\<^sup>*\<^sup>* s t \<Longrightarrow> inv s \<Longrightarrow> inv t"
  by (induction rule: rtranclp_induct) (auto intro: step_keeps)

lemma reachable_induct:
  assumes "step\<^sup>*\<^sup>* s t" and "inv s" and "P s" and "\<And>u v. inv u \<Longrightarrow> step u v \<Longrightarrow> P u \<Longrightarrow> P v"
  shows "P t"
  using assms(1)
proof (induction rule: rtranclp_induct)
  case base
  show ?case by fact
next
  case (step u v)
  then show ?case using assms(2,4) reachable_inv by blast
qed

end

end
