(* ===== verification/GoStrings.thy ===== *)
theory GoStrings
  imports Prelude
begin

text \<open>
  The parts of Go's \<open>strings\<close>, \<open>strconv\<close> and \<open>fmt\<close> packages that the program uses. A Go string
  is a sequence of bytes, as is a HOL \<^typ>\<open>string\<close>. All separators the code splits at are ASCII,
  so the byte-wise functions below agree with Go's rune-wise ones; case mapping is the ASCII
  one, and bytes from 128 on (no Kubernetes name or protocol has them) are left alone.
\<close>

section \<open>Bytes\<close>

definition byte :: "char \<Rightarrow> nat" where
  "byte c = of_char c"

definition is_digit :: "char \<Rightarrow> bool" where
  "is_digit c \<longleftrightarrow> 48 \<le> byte c \<and> byte c \<le> 57"

definition digit_val :: "char \<Rightarrow> nat" where
  "digit_val c = byte c - 48"

definition digit_char :: "nat \<Rightarrow> char" where
  "digit_char d = char_of (48 + d)"

lemma byte_digit_char [simp]: "d < 10 \<Longrightarrow> byte (digit_char d) = 48 + d"
  by (simp add: byte_def digit_char_def of_char_of)

lemma is_digit_digit_char [simp]: "d < 10 \<Longrightarrow> is_digit (digit_char d)"
  by (simp add: is_digit_def)

lemma digit_val_digit_char [simp]: "d < 10 \<Longrightarrow> digit_val (digit_char d) = d"
  by (simp add: digit_val_def)

definition lower_byte :: "char \<Rightarrow> char" where
  "lower_byte c = (if 65 \<le> byte c \<and> byte c \<le> 90 then char_of (byte c + 32) else c)"

lemma byte_lower_byte:
  "byte (lower_byte c) = (if 65 \<le> byte c \<and> byte c \<le> 90 then byte c + 32 else byte c)"
  by (auto simp: lower_byte_def byte_def of_char_of)

lemma lower_byte_idem [simp]: "lower_byte (lower_byte c) = lower_byte c"
  by (subst lower_byte_def) (auto simp: byte_lower_byte)

section \<open>strings.ToLower, EqualFold, HasPrefix, HasSuffix, TrimPrefix, TrimSuffix, Contains\<close>

definition to_lower :: "string \<Rightarrow> string" where
  "to_lower s = map lower_byte s"

definition equal_fold :: "string \<Rightarrow> string \<Rightarrow> bool" where
  "equal_fold s t \<longleftrightarrow> to_lower s = to_lower t"

lemma to_lower_idem [simp]: "to_lower (to_lower s) = to_lower s"
  by (simp add: to_lower_def)

lemma equal_fold_refl [simp]: "equal_fold s s"
  by (simp add: equal_fold_def)

definition has_prefix :: "string \<Rightarrow> string \<Rightarrow> bool" where
  "has_prefix s p \<longleftrightarrow> take (length p) s = p"

definition has_suffix :: "string \<Rightarrow> string \<Rightarrow> bool" where
  "has_suffix s p \<longleftrightarrow> length p \<le> length s \<and> drop (length s - length p) s = p"

definition trim_prefix :: "string \<Rightarrow> string \<Rightarrow> string" where
  "trim_prefix s p = (if has_prefix s p then drop (length p) s else s)"

definition trim_suffix :: "string \<Rightarrow> string \<Rightarrow> string" where
  "trim_suffix s p = (if has_suffix s p then take (length s - length p) s else s)"

definition contains_char :: "string \<Rightarrow> char \<Rightarrow> bool" where
  "contains_char s c \<longleftrightarrow> c \<in> set s"

section \<open>strings.Split at a one-byte separator\<close>

fun split_on :: "char \<Rightarrow> string \<Rightarrow> string list" where
  "split_on c [] = [[]]"
| "split_on c (x # xs) =
     (if x = c then [] # split_on c xs
      else (case split_on c xs of [] \<Rightarrow> [[x]] | y # ys \<Rightarrow> (x # y) # ys))"

lemma split_on_nonempty [simp]: "split_on c s \<noteq> []"
  by (induction s) (auto split: list.splits)

lemma split_on_notin: "c \<notin> set s \<Longrightarrow> split_on c s = [s]"
  by (induction s) auto

lemma split_on_append: "c \<notin> set a \<Longrightarrow> split_on c (a @ c # s) = a # split_on c s"
  by (induction a) auto

lemma split_on_pieces: "\<forall>p \<in> set (split_on c s). c \<notin> set p"
proof (induction s)
  case Nil
  then show ?case by simp
next
  case (Cons x s)
  then show ?case by (cases "split_on c s") auto
qed

section \<open>strings.FieldsFunc\<close>

function fields_func :: "(char \<Rightarrow> bool) \<Rightarrow> string \<Rightarrow> string list" where
  "fields_func p [] = []"
| "fields_func p (x # xs) =
     (if p x then fields_func p xs
      else (x # takeWhile (\<lambda>c. \<not> p c) xs) # fields_func p (dropWhile (\<lambda>c. \<not> p c) xs))"
  by pat_completeness auto
termination
  by (relation "measure (\<lambda>(p, s). length s)") (auto simp: le_imp_less_Suc length_dropWhile_le)

lemma fields_func_field:
  "a \<noteq> [] \<Longrightarrow> \<forall>c \<in> set a. \<not> p c \<Longrightarrow> p x \<Longrightarrow> fields_func p (a @ x # s) = a # fields_func p s"
proof (cases a)
  case (Cons y ys)
  assume "\<forall>c \<in> set a. \<not> p c" and "p x"
  with Cons have "takeWhile (\<lambda>c. \<not> p c) (ys @ x # s) = ys"
    and "dropWhile (\<lambda>c. \<not> p c) (ys @ x # s) = x # s" and "\<not> p y"
    by (simp_all add: takeWhile_append2 dropWhile_append2)
  with Cons \<open>p x\<close> show ?thesis by simp
qed simp

lemma fields_func_last:
  "a \<noteq> [] \<Longrightarrow> \<forall>c \<in> set a. \<not> p c \<Longrightarrow> fields_func p a = [a]"
proof (cases a)
  case (Cons y ys)
  assume "\<forall>c \<in> set a. \<not> p c"
  with Cons have tw: "takeWhile (\<lambda>c. \<not> p c) ys = ys" and dw: "dropWhile (\<lambda>c. \<not> p c) ys = []"
    and "\<not> p y"
    by (simp_all add: takeWhile_eq_all_conv)
  then show ?thesis by (simp add: Cons tw dw)
qed simp

lemma fields_func_pieces:
  "f \<in> set (fields_func p s) \<Longrightarrow> f \<noteq> [] \<and> (\<forall>c \<in> set f. \<not> p c)"
proof (induction p s rule: fields_func.induct)
  case (1 p)
  then show ?case by simp
next
  case (2 p x xs)
  show ?case
  proof (cases "p x")
    case True
    with 2 show ?thesis by simp
  next
    case False
    with "2.prems" consider "f = x # takeWhile (\<lambda>c. \<not> p c) xs"
      | "f \<in> set (fields_func p (dropWhile (\<lambda>c. \<not> p c) xs))" by auto
    then show ?thesis
    proof cases
      case 1
      with False show ?thesis by (auto dest: set_takeWhileD)
    next
      case 2
      with False "2.IH"(2) show ?thesis by simp
    qed
  qed
qed

section \<open>Printing and parsing decimal numbers\<close>

fun itoa :: "nat \<Rightarrow> string" where
  "itoa n = (if n < 10 then [digit_char n] else itoa (n div 10) @ [digit_char (n mod 10)])"

declare itoa.simps [simp del]

text \<open>\<open>%d\<close> of a signed integer and of an unsigned word.\<close>

definition fmt_int :: "int \<Rightarrow> string" where
  "fmt_int i = (if i < 0 then CHR ''-'' # itoa (nat (- i)) else itoa (nat i))"

definition fmt_word :: "'a::len word \<Rightarrow> string" where
  "fmt_word w = itoa (unat w)"

lemma itoa_nonempty [simp]: "itoa n \<noteq> []"
  by (subst itoa.simps) simp

lemma itoa_digits: "\<forall>c \<in> set (itoa n). is_digit c"
proof (induction n rule: itoa.induct)
  case (1 n)
  then show ?case by (cases "n < 10") (auto simp: itoa.simps [of n])
qed

lemma itoa_no: "\<not> is_digit c \<Longrightarrow> c \<notin> set (itoa n)"
  using itoa_digits by blast

text \<open>
  \<open>strconv.ParseUint(s, 10, bits)\<close>: the value and the error. A digit string that passes the
  maximum stops there with the maximum and \<open>ErrRange\<close>; anything else that is no digit, and the
  empty string, is \<open>ErrSyntax\<close> with value 0.
\<close>

datatype num_error = ErrSyntax | ErrRange

fun parse_digits :: "nat \<Rightarrow> nat \<Rightarrow> string \<Rightarrow> nat \<times> num_error option" where
  "parse_digits mx n [] = (n, None)"
| "parse_digits mx n (c # cs) =
     (if \<not> is_digit c then (0, Some ErrSyntax)
      else let n1 = n * 10 + digit_val c
           in if mx < n1 then (mx, Some ErrRange) else parse_digits mx n1 cs)"

definition parse_uint :: "nat \<Rightarrow> string \<Rightarrow> nat \<times> num_error option" where
  "parse_uint bits s = (if s = [] then (0, Some ErrSyntax) else parse_digits (2 ^ bits - 1) 0 s)"

text \<open>The number a string of digits denotes, most significant first.\<close>

definition dec_value :: "nat \<Rightarrow> string \<Rightarrow> nat" where
  "dec_value n s = foldl (\<lambda>n c. n * 10 + digit_val c) n s"

lemma dec_value_simps [simp]:
  "dec_value n [] = n"
  "dec_value n (c # s) = dec_value (n * 10 + digit_val c) s"
  "dec_value n (s @ t) = dec_value (dec_value n s) t"
  by (simp_all add: dec_value_def)

lemma dec_value_mono: "n \<le> dec_value n s"
proof (induction s arbitrary: n)
  case (Cons c s)
  have "n \<le> n * 10 + digit_val c" by simp
  also have "\<dots> \<le> dec_value (n * 10 + digit_val c) s" by (rule Cons.IH)
  finally show ?case by simp
qed simp

lemma dec_value_itoa [simp]: "dec_value 0 (itoa n) = n"
proof (induction n rule: itoa.induct)
  case (1 n)
  then show ?case by (cases "n < 10") (simp_all add: itoa.simps [of n])
qed

lemma itoa_inj: "itoa m = itoa n \<Longrightarrow> m = n"
  using dec_value_itoa by metis

lemma itoa_eq_iff [simp]: "itoa m = itoa n \<longleftrightarrow> m = n"
  using itoa_inj by blast

lemma parse_digits_value:
  "\<forall>c \<in> set s. is_digit c \<Longrightarrow> dec_value n s \<le> mx \<Longrightarrow> parse_digits mx n s = (dec_value n s, None)"
proof (induction s arbitrary: n)
  case (Cons c s)
  have "n * 10 + digit_val c \<le> mx"
    using dec_value_mono [of "n * 10 + digit_val c" s] Cons.prems(2) by simp
  with Cons show ?case by simp
qed simp

lemma parse_digits_Some:
  "n \<le> mx \<Longrightarrow> parse_digits mx n s = (v, None) \<Longrightarrow>
     (\<forall>c \<in> set s. is_digit c) \<and> v = dec_value n s \<and> v \<le> mx"
  by (induction s arbitrary: n) (auto simp: Let_def not_less split: if_splits)

lemma parse_digits_range:
  "n \<le> mx \<Longrightarrow> \<forall>c \<in> set s. is_digit c \<Longrightarrow> mx < dec_value n s \<Longrightarrow>
     parse_digits mx n s = (mx, Some ErrRange)"
  by (induction s arbitrary: n) (auto simp: Let_def not_less)

lemma parse_uint_itoa: "n < 2 ^ bits \<Longrightarrow> parse_uint bits (itoa n) = (n, None)"
  using parse_digits_value [OF itoa_digits, of 0 n "2 ^ bits - 1"]
  by (simp add: parse_uint_def)

lemma parse_uint_itoa_range: "2 ^ bits \<le> n \<Longrightarrow> parse_uint bits (itoa n) = (2 ^ bits - 1, Some ErrRange)"
  using parse_digits_range [OF _ itoa_digits, of 0 "2 ^ bits - 1" n]
  by (simp add: parse_uint_def less_eq_Suc_le)

lemma parse_uint_minus: "parse_uint bits (CHR ''-'' # s) = (0, Some ErrSyntax)"
  by (simp add: parse_uint_def is_digit_def byte_def)

lemma parse_uint_bound: "fst (parse_uint bits s) < 2 ^ bits"
proof -
  have "n \<le> mx \<Longrightarrow> fst (parse_digits mx n s) \<le> mx" for n mx
    by (induction s arbitrary: n) (auto simp: Let_def not_less)
  from this [of 0 "2 ^ bits - 1"] have "fst (parse_digits (2 ^ bits - 1) 0 s) \<le> 2 ^ bits - 1"
    by simp
  then show ?thesis
    by (simp add: parse_uint_def le_diff_conv2 less_eq_Suc_le)
qed

lemma parse_uint_Some:
  "parse_uint bits s = (v, None) \<longleftrightarrow>
     s \<noteq> [] \<and> (\<forall>c \<in> set s. is_digit c) \<and> v = dec_value 0 s \<and> v < 2 ^ bits"
proof
  assume h: "parse_uint bits s = (v, None)"
  then have "s \<noteq> []" and "parse_digits (2 ^ bits - 1) 0 s = (v, None)"
    by (auto simp: parse_uint_def split: if_splits)
  with parse_digits_Some [of 0 "2 ^ bits - 1" s v] parse_uint_bound [of bits s] h
  show "s \<noteq> [] \<and> (\<forall>c \<in> set s. is_digit c) \<and> v = dec_value 0 s \<and> v < 2 ^ bits"
    by simp
next
  assume "s \<noteq> [] \<and> (\<forall>c \<in> set s. is_digit c) \<and> v = dec_value 0 s \<and> v < 2 ^ bits"
  then show "parse_uint bits s = (v, None)"
    using parse_digits_value [of s 0 "2 ^ bits - 1"] by (auto simp: parse_uint_def)
qed

text \<open>Concrete evaluation of the byte predicates and of printed numbers.\<close>

lemmas byte_defs = byte_def is_digit_def digit_val_def digit_char_def lower_byte_def

end
