(* ===== verification/GoTime.thy ===== *)
theory GoTime
  imports GoStrings "HOL-Library.Log_Nat"
begin

text \<open>
  What the code uses of Go's package \<open>time\<close>: timers and tickers, whose channels hold at most one value, and
  durations in nanoseconds with \<open>time.ParseDuration\<close>.
\<close>

section \<open>Timers\<close>

text \<open>
  A timer is armed for a time, or has put its value into its channel, or is spent: fired, its value read. A timer
  that was reset without draining its channel is armed while an old value is still there (\<open>Rearmed\<close>).
\<close>

datatype timer = Armed nat | Fired | Spent | Rearmed nat

fun timer_reset :: "nat \<Rightarrow> timer \<Rightarrow> timer" where
  "timer_reset d (Armed _) = Armed d"
| "timer_reset d Fired = Rearmed d"
| "timer_reset d Spent = Armed d"
| "timer_reset d (Rearmed _) = Rearmed d"

text \<open>\<open>if !t.Stop() { <-t.C }; t.Reset(d)\<close>: reading the channel of a spent timer would block for ever.\<close>

fun stop_drain_reset :: "nat \<Rightarrow> timer \<Rightarrow> timer option" where
  "stop_drain_reset d (Armed _) = Some (Armed d)"
| "stop_drain_reset d Fired = Some (Armed d)"
| "stop_drain_reset d Spent = None"
| "stop_drain_reset d (Rearmed _) = Some (Rearmed d)"

text \<open>Firing at its time: the value is dropped when the channel already holds one.\<close>

fun timer_due :: "timer \<Rightarrow> nat option" where
  "timer_due (Armed d) = Some d"
| "timer_due (Rearmed d) = Some d"
| "timer_due _ = None"

text \<open>Receiving the value of the channel.\<close>

fun timer_receive :: "timer \<Rightarrow> timer option" where
  "timer_receive Fired = Some Spent"
| "timer_receive (Rearmed d) = Some (Armed d)"
| "timer_receive _ = None"

text \<open>Whether a loop that waits for the timer may still be waiting at a given time.\<close>

fun may_wait_until :: "nat \<Rightarrow> timer \<Rightarrow> bool" where
  "may_wait_until t (Armed due) \<longleftrightarrow> t \<le> due"
| "may_wait_until t Spent \<longleftrightarrow> True"
| "may_wait_until t _ \<longleftrightarrow> False"

section \<open>Durations\<close>

definition second :: nat where "second = 1000000000"

text \<open>Rounding to the nearest number with a mantissa of 53 bits, ties to even: a result of float64 arithmetic.\<close>

definition float_exponent :: "rat \<Rightarrow> int" where
  "float_exponent x =
     (let (a, b) = quotient_of x; k = int (floorlog 2 (nat a)) - int (floorlog 2 (nat b))
      in (if 2 powi k \<le> x then k else k - 1) - 52)"

definition round_even :: "rat \<Rightarrow> int" where
  "round_even x =
     (let n = \<lfloor>x\<rfloor>; r = x - of_int n
      in if r < 1 / 2 \<or> r = 1 / 2 \<and> even n then n else n + 1)"

definition float64 :: "rat \<Rightarrow> rat" where
  "float64 x = (if x \<le> 0 then 0 else let e = float_exponent x in of_int (round_even (x / 2 powi e)) * 2 powi e)"

text \<open>\<open>leadingInt\<close>: \<open>None\<close> when the number is too large.\<close>

fun leadingInt :: "nat \<Rightarrow> string \<Rightarrow> (nat \<times> string) option" where
  "leadingInt x [] = Some (x, [])"
| "leadingInt x (c # s) =
     (if \<not> is_digit c then Some (x, c # s)
      else if x > 2 ^ 63 div 10 then None
      else let x1 = x * 10 + digit_val c in if x1 > 2 ^ 63 then None else leadingInt x1 s)"

fun leadingFraction :: "nat \<Rightarrow> rat \<Rightarrow> bool \<Rightarrow> string \<Rightarrow> nat \<times> rat \<times> string" where
  "leadingFraction x scale overflow [] = (x, scale, [])"
| "leadingFraction x scale overflow (c # s) =
     (if \<not> is_digit c then (x, scale, c # s)
      else if overflow then leadingFraction x scale True s
      else if x > (2 ^ 63 - 1) div 10 then leadingFraction x scale True s
      else let y = x * 10 + digit_val c
           in if y > 2 ^ 63 then leadingFraction x scale True s
              else leadingFraction y (float64 (scale * 10)) False s)"

definition number_char :: "char \<Rightarrow> bool" where
  "number_char c \<longleftrightarrow> c = CHR ''.'' \<or> is_digit c"

definition unitMap :: "string \<Rightarrow> nat option" where
  "unitMap u =
     (if u = ''ns'' then Some 1
      else if u = ''us'' \<or> u = [char_of (194 :: nat), char_of (181 :: nat), CHR ''s''] \<or>
              u = [char_of (206 :: nat), char_of (188 :: nat), CHR ''s''] then Some 1000
      else if u = ''ms'' then Some 1000000
      else if u = ''s'' then Some 1000000000
      else if u = ''m'' then Some (60 * 1000000000)
      else if u = ''h'' then Some (3600 * 1000000000)
      else None)"

text \<open>One number with its unit: its value and the rest of the string.\<close>

definition parse_component :: "string \<Rightarrow> (nat \<times> string) option" where
  "parse_component s =
     (if s = [] \<or> \<not> number_char (hd s) then None
      else case leadingInt 0 s of
        None \<Rightarrow> None
      | Some (v, s1) \<Rightarrow>
          let pre = length s1 \<noteq> length s;
              (f, scale, s2, post) =
                (if s1 \<noteq> [] \<and> hd s1 = CHR ''.''
                 then case leadingFraction 0 1 False (tl s1) of (f, scale, s2) \<Rightarrow> (f, scale, s2, length s2 \<noteq> length (tl s1))
                 else (0, 1, s1, False));
              u = takeWhile (\<lambda>c. \<not> number_char c) s2; s3 = dropWhile (\<lambda>c. \<not> number_char c) s2
          in if \<not> pre \<and> \<not> post \<or> u = [] then None
             else case unitMap u of
               None \<Rightarrow> None
             | Some unit \<Rightarrow>
                 if v > 2 ^ 63 div unit then None
                 else let v1 = v * unit;
                          v2 = (if f > 0 then v1 + nat \<lfloor>float64 (float64 (of_nat f) * float64 (of_nat unit / scale))\<rfloor> else v1)
                      in if v2 > 2 ^ 63 then None else Some (v2, s3))"

lemma leadingInt_length: "leadingInt x s = Some (y, t) \<Longrightarrow> length t \<le> length s"
  by (induction x s rule: leadingInt.induct) (auto split: if_splits simp: Let_def)

lemma leadingFraction_length: "leadingFraction x sc ov s = (y, sc', t) \<Longrightarrow> length t \<le> length s"
  by (induction x sc ov s rule: leadingFraction.induct) (auto split: if_splits simp: Let_def)

lemma dropWhile_shorter: "takeWhile P s \<noteq> [] \<Longrightarrow> length (dropWhile P s) < length s"
  by (cases s) (auto simp: less_Suc_eq_le length_dropWhile_le split: if_splits)

lemma parse_component_length:
  assumes "parse_component s = Some (v, t)"
  shows "length t < length s"
proof -
  obtain w s1 where 1: "leadingInt 0 s = Some (w, s1)" using assms by (auto simp: parse_component_def split: if_splits option.splits)
  obtain f scale s2 where 2: "leadingFraction 0 1 False (tl s1) = (f, scale, s2)" by (cases "leadingFraction 0 1 False (tl s1)")
  define r where "r = (if s1 \<noteq> [] \<and> hd s1 = CHR ''.'' then s2 else s1)"
  have "length r \<le> length s"
    using leadingInt_length [OF 1] leadingFraction_length [OF 2] by (auto simp: r_def)
  moreover have "t = dropWhile (\<lambda>c. \<not> number_char c) r" "takeWhile (\<lambda>c. \<not> number_char c) r \<noteq> []"
    using assms 1 2 by (auto simp: parse_component_def r_def Let_def split: if_splits option.splits)
  ultimately show ?thesis using dropWhile_shorter [of "\<lambda>c. \<not> number_char c" r] by simp
qed

function parse_components :: "nat \<Rightarrow> string \<Rightarrow> nat option" where
  "parse_components d s =
     (if s = [] then Some d
      else case parse_component s of
        None \<Rightarrow> None
      | Some (v, t) \<Rightarrow> let d1 = (d + v) mod 2 ^ 64 in if d1 > 2 ^ 63 then None else parse_components d1 t)"
  by auto
termination
  by (relation "measure (length \<circ> snd)") (auto dest: parse_component_length)

declare parse_components.simps [simp del]

text \<open>The result in nanoseconds, or \<open>None\<close> for an error.\<close>

definition ParseDuration :: "string \<Rightarrow> int option" where
  "ParseDuration orig =
     (let (neg, s) = (case orig of c # s \<Rightarrow> if c = CHR ''-'' \<or> c = CHR ''+'' then (c = CHR ''-'', s) else (False, orig) | [] \<Rightarrow> (False, orig)) in
      if s = ''0'' then Some 0
      else if s = [] then None
      else case parse_components 0 s of
        None \<Rightarrow> None
      | Some d \<Rightarrow> if neg then Some (- int d) else if d > 2 ^ 63 - 1 then None else Some (int d))"

section \<open>Whole numbers of a unit\<close>

lemma leadingInt_digits:
  "\<forall>c \<in> set ds. is_digit c \<Longrightarrow> dec_value x ds < 2 ^ 63 \<Longrightarrow> t = [] \<or> \<not> is_digit (hd t) \<Longrightarrow>
   leadingInt x (ds @ t) = Some (dec_value x ds, t)"
proof (induction ds arbitrary: x)
  case Nil
  then show ?case by (cases t) auto
next
  case (Cons c ds)
  have 1: "x * 10 + digit_val c < 2 ^ 63" using Cons.prems(2) dec_value_mono [of "x * 10 + digit_val c" ds] by simp
  then have 2: "\<not> x > 2 ^ 63 div 10" by linarith
  have 3: "leadingInt (x * 10 + digit_val c) (ds @ t) = Some (dec_value (x * 10 + digit_val c) ds, t)"
    using Cons.IH [of "x * 10 + digit_val c"] Cons.prems by simp
  have "\<not> x * 10 + digit_val c > 2 ^ 63" "is_digit c" using 1 Cons.prems(1) by simp_all
  then show ?case unfolding append_Cons leadingInt.simps Let_def using 2 3 by (simp del: power_numeral)
qed

lemma parse_whole:
  assumes "unitMap u = Some unit" and "\<forall>c \<in> set u. \<not> number_char c" and "u \<noteq> []" and "n * unit < 2 ^ 63" and "0 < unit"
  shows "ParseDuration (itoa n @ u) = Some (int (n * unit))"
proof -
  have "n \<le> n * unit" using assms(5) by simp
  then have n: "n < 2 ^ 63" using assms(4) by linarith
  have hd: "is_digit (hd (itoa n))" using itoa_digits [of n] by (cases "itoa n") auto
  then have num: "number_char (hd (itoa n))" by (simp add: number_char_def)
  have 1: "leadingInt 0 (itoa n @ u) = Some (n, u)"
    using leadingInt_digits [of "itoa n" 0 u] n assms(2,3) itoa_digits by (cases u) (auto simp: number_char_def)
  have 2: "takeWhile (\<lambda>c. \<not> number_char c) u = u" "dropWhile (\<lambda>c. \<not> number_char c) u = []" using assms(2) by auto
  have 3: "\<not> n > 2 ^ 63 div unit" "\<not> n * unit > 2 ^ 63" using assms(4,5) by (simp_all add: less_eq_div_iff_mult_less_eq not_less)
  have "hd u \<noteq> CHR ''.''" using assms(2,3) by (cases u) (auto simp: number_char_def)
  then have "parse_component (itoa n @ u) = Some (n * unit, [])"
    using num assms(1,3) 3 by (simp add: parse_component_def Let_def 1 2)
  moreover have "n * unit mod 2 ^ 64 = n * unit" using assms(4) by simp
  ultimately have p: "parse_components 0 (itoa n @ u) = Some (n * unit)"
    using assms(4) by (simp add: parse_components.simps)
  obtain c s where s: "itoa n = c # s" by (cases "itoa n") auto
  have "c \<noteq> CHR ''-''" "c \<noteq> CHR ''+''" using hd s by (auto simp: is_digit_def byte_def)
  then show ?thesis using p assms(3,4) s by (simp add: ParseDuration_def)
qed

end
