(* ===== verification/Constants.thy ===== *)
theory Constants
  imports GoStrings
begin

text \<open>
  The constants of \<open>pkg/ecnet/constants\<close> and the announcement kinds of
  \<open>pkg/ecnet/announcements\<close> that the modelled code reads. A kind is a string in the source;
  here it is a constructor, with \<open>kind_string\<close> giving the string used as a topic.
\<close>

section \<open>constants.go\<close>

definition DefaultSidecarLogLevel :: string where "DefaultSidecarLogLevel = ''error''"

definition ECNETControllerName :: string where "ECNETControllerName = ''ecnet-ctrlplane''"

definition RegexMatchAll :: string where "RegexMatchAll = ''.*''"

definition WildcardHTTPMethod :: string where "WildcardHTTPMethod = ''*''"

definition ECNETKubeResourceMonitorAnnotation :: string where
  "ECNETKubeResourceMonitorAnnotation = ''flomesh.io/monitored-by''"

definition ClusterWeightAcceptAll :: int where "ClusterWeightAcceptAll = 100"

definition ClusterWeightFailOver :: int where "ClusterWeightFailOver = 0"

definition SidecarInjectionAnnotation :: string where
  "SidecarInjectionAnnotation = ''flomesh.io/sidecar-injection''"

definition MetricsAnnotation :: string where "MetricsAnnotation = ''flomesh.io/metrics''"

definition IgnoreLabel :: string where "IgnoreLabel = ''flomesh.io/ignore''"

definition AppLabel :: string where "AppLabel = ''app''"

definition ECNETAppInstanceLabelKey :: string where "ECNETAppInstanceLabelKey = ''app.kubernetes.io/instance''"

definition ECNETAppVersionLabelKey :: string where "ECNETAppVersionLabelKey = ''app.kubernetes.io/version''"

definition ECNETHTTPServerPort :: nat where "ECNETHTTPServerPort = 9091"

definition ECNETControllerReadinessPath :: string where "ECNETControllerReadinessPath = ''/health/ready''"

definition ECNETControllerLivenessPath :: string where "ECNETControllerLivenessPath = ''/health/alive''"

definition VersionPath :: string where "VersionPath = ''/version''"

definition WebhookHealthPath :: string where "WebhookHealthPath = ''/healthz''"

definition ServiceReadyResponse :: string where "ServiceReadyResponse = ''Service is ready''"

definition ServiceAliveResponse :: string where "ServiceAliveResponse = ''Service is alive''"

definition PrometheusScrapeAnnotation :: string where
  "PrometheusScrapeAnnotation = ''prometheus.io/scrape''"

definition ProtocolHTTP :: string where "ProtocolHTTP = ''http''"
definition ProtocolHTTPS :: string where "ProtocolHTTPS = ''https''"
definition ProtocolTCP :: string where "ProtocolTCP = ''tcp''"
definition ProtocolGRPC :: string where "ProtocolGRPC = ''grpc''"
definition ProtocolTCPServerFirst :: string where "ProtocolTCPServerFirst = ''tcp-server-first''"

definition SupportedProtocolsInMesh :: "string list" where
  "SupportedProtocolsInMesh = [ProtocolTCPServerFirst, ProtocolHTTP, ProtocolTCP, ProtocolGRPC]"

lemmas protocol_defs = ProtocolHTTP_def ProtocolHTTPS_def ProtocolTCP_def ProtocolGRPC_def
  ProtocolTCPServerFirst_def

lemma protocols_distinct [simp]:
  "ProtocolHTTP \<noteq> ProtocolTCP" "ProtocolTCP \<noteq> ProtocolHTTP"
  "ProtocolHTTP \<noteq> ProtocolTCPServerFirst" "ProtocolTCPServerFirst \<noteq> ProtocolHTTP"
  "ProtocolHTTP \<noteq> ProtocolHTTPS" "ProtocolHTTPS \<noteq> ProtocolHTTP"
  "ProtocolHTTP \<noteq> ProtocolGRPC" "ProtocolGRPC \<noteq> ProtocolHTTP"
  "ProtocolGRPC \<noteq> ProtocolTCP" "ProtocolTCP \<noteq> ProtocolGRPC"
  "ProtocolGRPC \<noteq> ProtocolTCPServerFirst" "ProtocolTCPServerFirst \<noteq> ProtocolGRPC"
  "ProtocolGRPC \<noteq> ProtocolHTTPS" "ProtocolHTTPS \<noteq> ProtocolGRPC"
  "ProtocolHTTPS \<noteq> ProtocolTCP" "ProtocolTCP \<noteq> ProtocolHTTPS"
  "ProtocolHTTPS \<noteq> ProtocolTCPServerFirst" "ProtocolTCPServerFirst \<noteq> ProtocolHTTPS"
  "ProtocolTCP \<noteq> ProtocolTCPServerFirst" "ProtocolTCPServerFirst \<noteq> ProtocolTCP"
  by (simp_all add: protocol_defs)

section \<open>announcements/types.go\<close>

datatype Kind =
    ProxyUpdate
  | PodAdded | PodDeleted | PodUpdated
  | EndpointAdded | EndpointDeleted | EndpointUpdated
  | NamespaceAdded | NamespaceDeleted | NamespaceUpdated
  | ServiceAdded | ServiceDeleted | ServiceUpdated
  | ServiceAccountAdded | ServiceAccountDeleted | ServiceAccountUpdated
  | EcnetConfigAdded | EcnetConfigDeleted | EcnetConfigUpdated
  | ServiceImportAdded | ServiceImportDeleted | ServiceImportUpdated
  | GlobalTrafficPolicyAdded | GlobalTrafficPolicyDeleted | GlobalTrafficPolicyUpdated

fun kind_string :: "Kind \<Rightarrow> string" where
  "kind_string ProxyUpdate = ''proxy-update''"
| "kind_string PodAdded = ''pod-added''"
| "kind_string PodDeleted = ''pod-deleted''"
| "kind_string PodUpdated = ''pod-updated''"
| "kind_string EndpointAdded = ''endpoint-added''"
| "kind_string EndpointDeleted = ''endpoint-deleted''"
| "kind_string EndpointUpdated = ''endpoint-updated''"
| "kind_string NamespaceAdded = ''namespace-added''"
| "kind_string NamespaceDeleted = ''namespace-deleted''"
| "kind_string NamespaceUpdated = ''namespace-updated''"
| "kind_string ServiceAdded = ''service-added''"
| "kind_string ServiceDeleted = ''service-deleted''"
| "kind_string ServiceUpdated = ''service-updated''"
| "kind_string ServiceAccountAdded = ''serviceaccount-added''"
| "kind_string ServiceAccountDeleted = ''serviceaccount-deleted''"
| "kind_string ServiceAccountUpdated = ''serviceaccount-updated''"
| "kind_string EcnetConfigAdded = ''ecnetconfig-added''"
| "kind_string EcnetConfigDeleted = ''ecnetconfig-deleted''"
| "kind_string EcnetConfigUpdated = ''ecnetconfig-updated''"
| "kind_string ServiceImportAdded = ''serviceimport-added''"
| "kind_string ServiceImportDeleted = ''serviceimport-deleted''"
| "kind_string ServiceImportUpdated = ''serviceimport-updated''"
| "kind_string GlobalTrafficPolicyAdded = ''globaltrafficpolicy-added''"
| "kind_string GlobalTrafficPolicyDeleted = ''globaltrafficpolicy-deleted''"
| "kind_string GlobalTrafficPolicyUpdated = ''globaltrafficpolicy-updated''"

lemma kind_string_inj: "kind_string a = kind_string b \<longleftrightarrow> a = b"
  by (cases a; cases b) simp_all

end
