(* ===== verification/Service.thy ===== *)
theory Service
  imports Constants
begin

text \<open>
  \<open>pkg/ecnet/service\<close>: the mesh service, its names (lookup key, cluster name, FQDN, traffic match
  name) and weighted clusters; and \<open>k8s.NamespacedNameFrom\<close>, which parses one of those names.
\<close>

section \<open>MeshService\<close>

record MeshService =
  ms_Namespace :: string
  ms_Name :: string
  ms_Port :: uint16
  ms_TargetPort :: uint16
  ms_Protocol :: string
  ms_ServiceImportUID :: string

text \<open>The zero value of the struct, which composite literals start from.\<close>

definition MeshService_zero :: MeshService where
  "MeshService_zero = \<lparr>ms_Namespace = [], ms_Name = [], ms_Port = 0, ms_TargetPort = 0,
     ms_Protocol = [], ms_ServiceImportUID = []\<rparr>"

record WeightedCluster =
  wc_ClusterName :: string
  wc_Weight :: int

record K8sServiceAccount =
  sa_Namespace :: string
  sa_Name :: string

definition K8sServiceAccount_String :: "K8sServiceAccount \<Rightarrow> string" where
  "K8sServiceAccount_String sa = sa_Namespace sa @ ''/'' @ sa_Name sa"

definition Subdomain :: "MeshService \<Rightarrow> string" where
  "Subdomain ms = (let nameComponents = split_on (CHR ''.'') (ms_Name ms)
                   in if length nameComponents = 1 then [] else hd nameComponents)"

definition ProviderKey :: "MeshService \<Rightarrow> string" where
  "ProviderKey ms = last (split_on (CHR ''.'') (ms_Name ms))"

definition NamespacedKey :: "MeshService \<Rightarrow> string" where
  "NamespacedKey ms = ms_Namespace ms @ ''/'' @ ProviderKey ms"

definition IsMultiClusterService :: "MeshService \<Rightarrow> bool" where
  "IsMultiClusterService ms \<longleftrightarrow> 0 < length (ms_ServiceImportUID ms)"

definition SiblingTo :: "MeshService \<Rightarrow> MeshService \<Rightarrow> bool" where
  "SiblingTo ms svc \<longleftrightarrow> NamespacedKey ms = NamespacedKey svc"

definition MeshService_String :: "MeshService \<Rightarrow> string" where
  "MeshService_String ms = ms_Namespace ms @ ''/'' @ ms_Name ms"

definition ClusterName :: "MeshService \<Rightarrow> string" where
  "ClusterName ms = ms_Namespace ms @ ''/'' @ ms_Name ms @ ''|'' @ fmt_word (ms_TargetPort ms)"

definition FQDN :: "MeshService \<Rightarrow> string" where
  "FQDN ms = ms_Name ms @ ''.'' @ ms_Namespace ms @ ''.svc.cluster.local''"

definition ServerName :: "MeshService \<Rightarrow> string" where
  "ServerName ms = FQDN ms"

definition OutboundTrafficMatchName :: "MeshService \<Rightarrow> string" where
  "OutboundTrafficMatchName ms =
     ''outbound_'' @ MeshService_String ms @ ''_'' @ fmt_word (ms_Port ms) @ ''_'' @ ms_Protocol ms"

section \<open>NamespacedNameFrom\<close>

definition NamespacedNameFrom :: "string \<Rightarrow> (string \<times> string) option" where
  "NamespacedNameFrom name =
     (case split_on (CHR ''/'') name of [ns, n] \<Rightarrow> Some (ns, n) | _ \<Rightarrow> None)"

lemma NamespacedNameFrom_String:
  assumes "CHR ''/'' \<notin> set (ms_Namespace ms)" and "CHR ''/'' \<notin> set (ms_Name ms)"
  shows "NamespacedNameFrom (MeshService_String ms) = Some (ms_Namespace ms, ms_Name ms)"
  using assms by (simp add: NamespacedNameFrom_def MeshService_String_def split_on_append split_on_notin)

section \<open>Well-formed names\<close>

text \<open>
  What Kubernetes guarantees of a namespace or service name, as far as the name formats rely on
  it: it is not empty and has none of the separators. (The subdomain dot of a headless
  service's mesh name is allowed.)
\<close>

definition name_char :: "char \<Rightarrow> bool" where
  "name_char c \<longleftrightarrow> c \<noteq> CHR ''/'' \<and> c \<noteq> CHR ''|'' \<and> c \<noteq> CHR ''_'' \<and> c \<noteq> CHR '':''"

definition k8s_name :: "string \<Rightarrow> bool" where
  "k8s_name s \<longleftrightarrow> s \<noteq> [] \<and> list_all name_char s"

lemma k8s_name_no:
  "k8s_name s \<Longrightarrow> CHR ''/'' \<notin> set s \<and> CHR ''|'' \<notin> set s \<and> CHR ''_'' \<notin> set s \<and> CHR '':'' \<notin> set s \<and> s \<noteq> []"
  by (auto simp: k8s_name_def name_char_def list_all_iff)

lemma itoa_name_char: "list_all name_char (itoa n)"
  using itoa_digits [of n] by (auto simp: list_all_iff name_char_def is_digit_def byte_def)

lemma k8s_name_itoa [simp]: "k8s_name (itoa n)" "k8s_name (fmt_word w)"
  by (simp_all add: k8s_name_def itoa_name_char fmt_word_def)

text \<open>A subdomain is what stands before the provider key; a plain name has none.\<close>

lemma Subdomain_plain: "CHR ''.'' \<notin> set (ms_Name ms) \<Longrightarrow> Subdomain ms = []"
  by (simp add: Subdomain_def split_on_notin)

lemma ProviderKey_plain: "CHR ''.'' \<notin> set (ms_Name ms) \<Longrightarrow> ProviderKey ms = ms_Name ms"
  by (simp add: ProviderKey_def split_on_notin)

lemma Subdomain_sub:
  "ms_Name ms = sub @ ''.'' @ key \<Longrightarrow> CHR ''.'' \<notin> set sub \<Longrightarrow> Subdomain ms = sub"
  by (simp add: Subdomain_def split_on_append Let_def)

lemma ProviderKey_sub:
  "ms_Name ms = sub @ ''.'' @ key \<Longrightarrow> CHR ''.'' \<notin> set sub \<Longrightarrow> CHR ''.'' \<notin> set key \<Longrightarrow>
     ProviderKey ms = key"
  by (simp add: ProviderKey_def split_on_append split_on_notin)

end
