(* ===== verification/GoNet.thy ===== *)
theory GoNet
  imports GoStrings
begin

text \<open>
  \<open>net.ParseIP\<close> and \<open>IP.String\<close> of Go's standard library, which the endpoint providers use to
  reject addresses and the control plane uses to print them. A parsed address is the 16-byte
  form \<open>ParseIP\<close> returns (an IPv4 address in its IPv4-mapped form); \<open>nil\<close> is \<open>None\<close>.
\<close>

type_synonym ip = "nat list"

section \<open>IPv4\<close>

text \<open>\<open>dtoi\<close>: the leading decimal digits, their value and their number; it fails without a
  digit and from \<open>0xFFFFFF\<close> on.\<close>

definition dtoi :: "string \<Rightarrow> (nat \<times> nat) option" where
  "dtoi s = (let ds = takeWhile is_digit s; n = dec_value 0 ds
             in if ds = [] \<or> 16777215 \<le> n then None else Some (n, length ds))"

fun parse_ipv4_octets :: "nat \<Rightarrow> bool \<Rightarrow> string \<Rightarrow> nat list option" where
  "parse_ipv4_octets 0 first s = (if s = [] then Some [] else None)"
| "parse_ipv4_octets (Suc k) first s =
     (if s = [] \<or> (\<not> first \<and> hd s \<noteq> CHR ''.'') then None
      else let s = (if first then s else tl s)
           in case dtoi s of
                None \<Rightarrow> None
              | Some (n, c) \<Rightarrow>
                  if 255 < n \<or> (1 < c \<and> hd s = CHR ''0'') then None
                  else map_option (\<lambda>ns. n # ns) (parse_ipv4_octets k False (drop c s)))"

definition ipv4_mapped :: "nat list \<Rightarrow> ip" where
  "ipv4_mapped bs = replicate 10 0 @ [255, 255] @ bs"

definition parse_ipv4 :: "string \<Rightarrow> ip option" where
  "parse_ipv4 s = map_option ipv4_mapped (parse_ipv4_octets 4 True s)"

section \<open>IPv6\<close>

definition hex_val :: "char \<Rightarrow> nat option" where
  "hex_val c = (if is_digit c then Some (digit_val c)
                else if 97 \<le> byte c \<and> byte c \<le> 102 then Some (byte c - 87)
                else if 65 \<le> byte c \<and> byte c \<le> 70 then Some (byte c - 55)
                else None)"

definition xtoi :: "string \<Rightarrow> (nat \<times> nat) option" where
  "xtoi s = (let hs = takeWhile (\<lambda>c. hex_val c \<noteq> None) s;
                 n = foldl (\<lambda>n c. n * 16 + the (hex_val c)) 0 hs
             in if hs = [] \<or> 16777215 \<le> n then None else Some (n, length hs))"

text \<open>The main loop of \<open>parseIPv6\<close>: the bytes read so far, where the \<open>::\<close> was, and the rest.\<close>

function parse_ipv6_loop ::
  "string \<Rightarrow> nat list \<Rightarrow> nat option \<Rightarrow> (nat list \<times> nat option \<times> string) option" where
  "parse_ipv6_loop s acc ell =
     (if 16 \<le> length acc then Some (acc, ell, s)
      else case xtoi s of
        None \<Rightarrow> None
      | Some (n, c) \<Rightarrow>
          if 65535 < n then None
          else if c < length s \<and> s ! c = CHR ''.'' then
            (if (ell = None \<and> length acc \<noteq> 12) \<or> 16 < length acc + 4 then None
             else case parse_ipv4_octets 4 True s of
                    None \<Rightarrow> None
                  | Some bs \<Rightarrow> Some (acc @ bs, ell, []))
          else let acc' = acc @ [n div 256, n mod 256]; s1 = drop c s
               in if s1 = [] then Some (acc', ell, [])
                  else if hd s1 \<noteq> CHR '':'' \<or> length s1 = 1 then None
                  else let s2 = tl s1
                       in if hd s2 = CHR '':'' then
                            (if ell \<noteq> None then None
                             else if tl s2 = [] then Some (acc', Some (length acc'), [])
                             else parse_ipv6_loop (tl s2) acc' (Some (length acc')))
                          else parse_ipv6_loop s2 acc' ell)"
  by pat_completeness auto
termination
  by (relation "measure (\<lambda>(s, acc, ell). 16 - length acc)") auto

declare parse_ipv6_loop.simps [simp del]

definition parse_ipv6 :: "string \<Rightarrow> ip option" where
  "parse_ipv6 s =
     (let lead = (take 2 s = ''::''); s1 = (if lead then drop 2 s else s)
      in if lead \<and> s1 = [] then Some (replicate 16 0)
         else case parse_ipv6_loop s1 [] (if lead then Some 0 else None) of
                None \<Rightarrow> None
              | Some (acc, ell, rest) \<Rightarrow>
                  if rest \<noteq> [] then None
                  else if length acc < 16 then
                    (case ell of
                       None \<Rightarrow> None
                     | Some e \<Rightarrow> Some (take e acc @ replicate (16 - length acc) 0 @ drop e acc))
                  else if ell \<noteq> None then None
                  else Some acc)"

text \<open>\<open>ParseIP\<close> looks for the first dot or colon to tell the two notations apart.\<close>

datatype notation_kind = Dotted | Colons | Neither

fun ip_notation :: "string \<Rightarrow> notation_kind" where
  "ip_notation [] = Neither"
| "ip_notation (c # cs) =
     (if c = CHR ''.'' then Dotted else if c = CHR '':'' then Colons else ip_notation cs)"

definition parse_ip :: "string \<Rightarrow> ip option" where
  "parse_ip s = (case ip_notation s of
                   Dotted \<Rightarrow> parse_ipv4 s | Colons \<Rightarrow> parse_ipv6 s | Neither \<Rightarrow> None)"

section \<open>IP.String\<close>

definition to4 :: "ip \<Rightarrow> nat list option" where
  "to4 p = (if length p = 4 then Some p
            else if length p = 16 \<and> take 12 p = replicate 10 0 @ [255, 255] then Some (drop 12 p)
            else None)"

fun join :: "char \<Rightarrow> string list \<Rightarrow> string" where
  "join c [] = []"
| "join c [s] = s"
| "join c (s # t # ts) = s @ c # join c (t # ts)"

definition ipv4_string :: "nat list \<Rightarrow> string" where
  "ipv4_string bs = join (CHR ''.'') (map itoa bs)"

definition hex_char :: "nat \<Rightarrow> char" where
  "hex_char d = (if d < 10 then digit_char d else char_of (87 + d))"

fun hex_string :: "nat \<Rightarrow> string" where
  "hex_string n = (if n < 16 then [hex_char n] else hex_string (n div 16) @ [hex_char (n mod 16)])"

declare hex_string.simps [simp del]

fun ip_groups :: "ip \<Rightarrow> nat list" where
  "ip_groups (a # b # bs) = (a * 256 + b) # ip_groups bs"
| "ip_groups _ = []"

text \<open>The longest run of zero groups, the first of the longest ones.\<close>

function zero_run :: "nat list \<Rightarrow> nat \<Rightarrow> nat \<times> nat \<Rightarrow> nat \<times> nat" where
  "zero_run gs i best =
     (if length gs \<le> i then best
      else let z = length (takeWhile (\<lambda>g. g = 0) (drop i gs))
           in if snd best - fst best < z then zero_run gs (i + z + 1) (i, i + z)
              else zero_run gs (Suc i) best)"
  by pat_completeness auto
termination
  by (relation "measure (\<lambda>(gs, i, best). length gs - i)") auto

declare zero_run.simps [simp del]

definition ipv6_string :: "nat list \<Rightarrow> string" where
  "ipv6_string gs =
     (let (e0, e1) = zero_run gs 0 (0, 0); hs = map hex_string gs
      in if e1 - e0 \<le> 1 then join (CHR '':'') hs
         else join (CHR '':'') (take e0 hs) @ ''::'' @ join (CHR '':'') (drop e1 hs))"

text \<open>Addresses that are neither 4 nor 16 bytes long are not built by \<open>ParseIP\<close>; they print as
  \<open><nil>\<close> when empty, and as \<open>?\<close> and their bytes in hexadecimal otherwise.\<close>

definition byte_hex :: "nat \<Rightarrow> string" where
  "byte_hex b = [hex_char (b div 16), hex_char (b mod 16)]"

definition ip_string :: "ip \<Rightarrow> string" where
  "ip_string p =
     (if p = [] then ''<nil>''
      else case to4 p of
             Some bs \<Rightarrow> ipv4_string bs
           | None \<Rightarrow> if length p = 16 then ipv6_string (ip_groups p)
                     else CHR ''?'' # concat (map byte_hex p))"

section \<open>IPv4 round trip\<close>

definition ipv4_octets :: "nat list \<Rightarrow> bool" where
  "ipv4_octets bs \<longleftrightarrow> length bs = 4 \<and> (\<forall>b \<in> set bs. b \<le> 255)"

lemma to4_mapped [simp]: "length bs = 4 \<Longrightarrow> to4 (ipv4_mapped bs) = Some bs"
  by (simp add: to4_def ipv4_mapped_def)

lemma ip_string_mapped: "length bs = 4 \<Longrightarrow> ip_string (ipv4_mapped bs) = ipv4_string bs"
  by (simp add: ip_string_def) (simp add: ipv4_mapped_def)

lemma takeWhile_itoa: "s = [] \<or> \<not> is_digit (hd s) \<Longrightarrow> takeWhile is_digit (itoa n @ s) = itoa n"
  by (cases s) (simp_all add: takeWhile_append2 itoa_digits takeWhile_eq_all_conv)

lemma dtoi_itoa:
  assumes "n \<le> 255" and "s = [] \<or> \<not> is_digit (hd s)"
  shows "dtoi (itoa n @ s) = Some (n, length (itoa n))"
  using assms by (simp add: dtoi_def takeWhile_itoa Let_def)

lemma hd_itoa_zero: "hd (itoa n) = CHR ''0'' \<Longrightarrow> n = 0"
proof (induction n rule: itoa.induct)
  case (1 n)
  show ?case
  proof (cases "n < 10")
    case True
    then have "hd (itoa n) = digit_char n" by (simp add: itoa.simps [of n])
    with "1.prems" have "n = digit_val (CHR ''0'')"
      using digit_val_digit_char [OF True] by simp
    then show ?thesis by (simp add: digit_val_def byte_def)
  next
    case False
    then have "hd (itoa n) = hd (itoa (n div 10))" by (simp add: itoa.simps [of n])
    with 1 False have "n div 10 = 0" by simp
    with False show ?thesis by simp
  qed
qed

lemma length_itoa_zero: "length (itoa 0) = 1"
  by (simp add: itoa.simps)

lemma dot_not_digit [simp]: "\<not> is_digit (CHR ''.'')"
  by (simp add: is_digit_def byte_def)

lemma colon_not_digit [simp]: "\<not> is_digit (CHR '':'')"
  by (simp add: is_digit_def byte_def)

text \<open>The octets after the first, each with its dot.\<close>

definition dotted :: "nat list \<Rightarrow> string" where
  "dotted bs = concat (map (\<lambda>b. CHR ''.'' # itoa b) bs)"

lemma dotted_simps [simp]: "dotted [] = []" "dotted (b # bs) = CHR ''.'' # itoa b @ dotted bs"
  by (simp_all add: dotted_def)

lemma join_dotted: "join (CHR ''.'') (map itoa (b # bs)) = itoa b @ dotted bs"
  by (induction bs arbitrary: b) auto

lemma dotted_head: "dotted bs = [] \<or> \<not> is_digit (hd (dotted bs))"
  by (cases bs) auto

lemma octet_step:
  assumes "b \<le> 255"
  shows "dtoi (itoa b @ dotted bs) = Some (b, length (itoa b))"
    and "\<not> (1 < length (itoa b) \<and> hd (itoa b @ dotted bs) = CHR ''0'')"
proof -
  show "dtoi (itoa b @ dotted bs) = Some (b, length (itoa b))"
    using assms dotted_head by (rule dtoi_itoa)
  show "\<not> (1 < length (itoa b) \<and> hd (itoa b @ dotted bs) = CHR ''0'')"
    using hd_itoa_zero [of b] length_itoa_zero by (auto simp: hd_append)
qed

lemma parse_octets_dotted:
  "\<forall>b \<in> set bs. b \<le> 255 \<Longrightarrow> parse_ipv4_octets (length bs) False (dotted bs) = Some bs"
proof (induction bs)
  case (Cons b bs)
  then have b: "b \<le> 255" by simp
  with Cons octet_step [OF b, of bs] show ?case by (simp add: Let_def)
qed simp

lemma parse_ipv4_string:
  assumes "ipv4_octets bs"
  shows "parse_ipv4 (ipv4_string bs) = Some (ipv4_mapped bs)"
proof -
  from assms obtain b bs' where bs: "bs = b # bs'" and len: "length bs' = 3"
    by (cases bs) (auto simp: ipv4_octets_def)
  with assms have b: "b \<le> 255" and bs': "\<forall>b \<in> set bs'. b \<le> 255"
    by (auto simp: ipv4_octets_def)
  have four: "4 = Suc 3" by simp
  have "parse_ipv4_octets 4 True (itoa b @ dotted bs') = Some (b # bs')"
    unfolding four using octet_step [OF b, of bs'] parse_octets_dotted [OF bs'] b len
    by (subst parse_ipv4_octets.simps) (simp add: Let_def)
  moreover have "ipv4_string bs = itoa b @ dotted bs'"
    unfolding ipv4_string_def bs by (rule join_dotted)
  ultimately show ?thesis by (simp add: parse_ipv4_def bs)
qed

lemma ip_notation_dot:
  "CHR ''.'' \<notin> set a \<Longrightarrow> CHR '':'' \<notin> set a \<Longrightarrow> ip_notation (a @ CHR ''.'' # s) = Dotted"
  by (induction a) auto

lemma parse_ip_ipv4_string:
  assumes "ipv4_octets bs"
  shows "parse_ip (ipv4_string bs) = Some (ipv4_mapped bs)"
proof -
  from assms have "length bs = Suc (Suc 2)" by (simp add: ipv4_octets_def)
  then obtain b c bs' where bs: "bs = b # c # bs'"
    by (metis Suc_length_conv)
  have "ipv4_string bs = itoa b @ CHR ''.'' # (itoa c @ dotted bs')"
    unfolding ipv4_string_def bs join_dotted by simp
  then have "ip_notation (ipv4_string bs) = Dotted"
    using ip_notation_dot itoa_no [OF dot_not_digit] itoa_no [OF colon_not_digit] by metis
  then show ?thesis using parse_ipv4_string [OF assms] by (simp add: parse_ip_def)
qed

lemma parse_ip_string_mapped:
  "ipv4_octets bs \<Longrightarrow> parse_ip (ip_string (ipv4_mapped bs)) = Some (ipv4_mapped bs)"
  by (simp add: ip_string_mapped parse_ip_ipv4_string ipv4_octets_def)

lemma ipv4_string_inj:
  assumes "ipv4_octets bs" and "ipv4_octets cs" and "ipv4_string bs = ipv4_string cs"
  shows "bs = cs"
proof -
  have "ipv4_mapped bs = ipv4_mapped cs"
    using parse_ip_ipv4_string assms by (metis option.inject)
  then show ?thesis by (simp add: ipv4_mapped_def)
qed

end
