(* ===== verification/Policy.thy ===== *)
theory Policy
  imports Service GoNet
begin

text \<open>
  \<open>pkg/ecnet/service/policy\<close> and \<open>pkg/ecnet/service/endpoint\<close>: route matches, routes, outbound
  traffic policies and endpoints, with \<open>AddRoute\<close>. A \<open>mapset.Set\<close> of weighted clusters is the
  list of its elements without repetition, in the order one iteration yields them; \<open>Add\<close> is
  \<^const>\<open>add_new\<close> and \<open>Equal\<close> compares the elements. Struct fields that no code of the program
  sets or reads (\<open>ServerNames\<close> and \<open>Cluster\<close> of a traffic match, \<open>Address\<close> and \<open>Port\<close> of a cluster
  config, \<open>Priority\<close> and \<open>Zone\<close> of an endpoint) are left out.
\<close>

section \<open>Route matches and routes\<close>

datatype PathMatchType = PathMatchRegex | PathMatchExact | PathMatchPrefix

record HTTPRouteMatch =
  hrm_Path :: string
  hrm_PathMatchType :: PathMatchType
  hrm_Methods :: "string list option"
  hrm_Headers :: "(string, string) gomap"

definition HTTPRouteMatch_deep_equal :: "HTTPRouteMatch \<Rightarrow> HTTPRouteMatch \<Rightarrow> bool" where
  "HTTPRouteMatch_deep_equal a b \<longleftrightarrow>
     hrm_Path a = hrm_Path b \<and> hrm_PathMatchType a = hrm_PathMatchType b \<and>
     hrm_Methods a = hrm_Methods b \<and> gmap_deep_equal (hrm_Headers a) (hrm_Headers b)"

definition WildCardRouteMatch :: HTTPRouteMatch where
  "WildCardRouteMatch = \<lparr>hrm_Path = RegexMatchAll, hrm_PathMatchType = PathMatchRegex,
     hrm_Methods = Some [WildcardHTTPMethod], hrm_Headers = None\<rparr>"

record HTTPRouteMatchWithWeightedClusters =
  hrmw_UpstreamClusters :: "WeightedCluster list"
  hrmw_RouteMatches :: "HTTPRouteMatch list"
  hrmw_HasSplitMatches :: bool

record RouteWeightedClusters =
  rwc_HTTPRouteMatch :: HTTPRouteMatch
  rwc_WeightedClusters :: "WeightedCluster list"

text \<open>Go's \<open>int\<close> is 64 bits wide: a sum of weights wraps.\<close>

definition go_int :: "int \<Rightarrow> int" where
  "go_int i = sint (word_of_int i :: 64 word)"

definition TotalClustersWeight :: "RouteWeightedClusters \<Rightarrow> int" where
  "TotalClustersWeight rwc = fold (\<lambda>c total. go_int (total + wc_Weight c)) (rwc_WeightedClusters rwc) 0"

record OutboundTrafficPolicy =
  otp_Name :: string
  otp_Hostnames :: "string list"
  otp_Routes :: "RouteWeightedClusters list"

definition NewOutboundTrafficPolicy :: "string \<Rightarrow> string list \<Rightarrow> OutboundTrafficPolicy" where
  "NewOutboundTrafficPolicy name hostnames =
     \<lparr>otp_Name = name, otp_Hostnames = hostnames, otp_Routes = []\<rparr>"

datatype add_route_error = RouteAlreadyExists

text \<open>The loop over the existing routes stops at the first one with the same match.\<close>

fun find_route :: "RouteWeightedClusters list \<Rightarrow> HTTPRouteMatch \<Rightarrow> RouteWeightedClusters option" where
  "find_route [] m = None"
| "find_route (r # rs) m =
     (if HTTPRouteMatch_deep_equal (rwc_HTTPRouteMatch r) m then Some r else find_route rs m)"

definition AddRoute ::
  "OutboundTrafficPolicy \<Rightarrow> HTTPRouteMatch \<Rightarrow> WeightedCluster list \<Rightarrow>
     add_route_error + OutboundTrafficPolicy" where
  "AddRoute out httpRouteMatch weightedClusters =
     (let wc = fold add_new weightedClusters []
      in case find_route (otp_Routes out) httpRouteMatch of
           Some existingRoute \<Rightarrow>
             if set (rwc_WeightedClusters existingRoute) = set wc then Inr out
             else Inl RouteAlreadyExists
         | None \<Rightarrow>
             Inr (out\<lparr>otp_Routes := otp_Routes out @
                   [\<lparr>rwc_HTTPRouteMatch = httpRouteMatch, rwc_WeightedClusters = wc\<rparr>]\<rparr>))"

section \<open>Traffic matches, cluster configs, the outbound mesh policy\<close>

record TrafficMatch =
  tmt_DestinationPort :: int
  tmt_DestinationProtocol :: string
  tmt_Name :: string
  tmt_WeightedClusters :: "WeightedCluster list"

record MeshClusterConfig =
  mcc_Name :: string
  mcc_Service :: MeshService

record OutboundMeshTrafficPolicy =
  omtp_TrafficMatches :: "TrafficMatch list"
  omtp_HTTPRouteConfigsPerPort :: "(int, OutboundTrafficPolicy list) gomap"
  omtp_ClustersConfigs :: "MeshClusterConfig list"
  omtp_ServicesResolvableSet :: "(string, string list) gomap"

section \<open>Endpoints\<close>

record Endpoint =
  ept_IP :: ip
  ept_Port :: uint32
  ept_Weight :: uint32
  ept_ClusterKey :: string
  ept_LBType :: string
  ept_Path :: string

definition Endpoint_String :: "Endpoint \<Rightarrow> string" where
  "Endpoint_String ep = ''(ip='' @ ip_string (ept_IP ep) @ '', port='' @ fmt_word (ept_Port ep) @ '')''"

section \<open>AddRoute keeps the routes of a policy apart\<close>

text \<open>No two routes of a policy have the same match, and each lists its clusters once.\<close>

definition policy_ok :: "OutboundTrafficPolicy \<Rightarrow> bool" where
  "policy_ok out \<longleftrightarrow>
     sorted_wrt (\<lambda>r r'. \<not> HTTPRouteMatch_deep_equal (rwc_HTTPRouteMatch r) (rwc_HTTPRouteMatch r'))
       (otp_Routes out) \<and>
     (\<forall>r \<in> set (otp_Routes out). distinct (rwc_WeightedClusters r))"

lemma find_route_None:
  "find_route rs m = None \<longleftrightarrow> (\<forall>r \<in> set rs. \<not> HTTPRouteMatch_deep_equal (rwc_HTTPRouteMatch r) m)"
  by (induction rs) auto

lemma find_route_Some:
  "find_route rs m = Some r \<Longrightarrow> r \<in> set rs \<and> HTTPRouteMatch_deep_equal (rwc_HTTPRouteMatch r) m"
  by (induction rs) (auto split: if_splits)

lemma policy_ok_new [simp]: "policy_ok (NewOutboundTrafficPolicy name hostnames)"
  by (simp add: policy_ok_def NewOutboundTrafficPolicy_def)

lemma AddRoute_fresh:
  assumes "\<forall>r \<in> set (otp_Routes out). \<not> HTTPRouteMatch_deep_equal (rwc_HTTPRouteMatch r) m"
  shows "AddRoute out m ws = Inr (out\<lparr>otp_Routes := otp_Routes out @
           [\<lparr>rwc_HTTPRouteMatch = m, rwc_WeightedClusters = fold add_new ws []\<rparr>]\<rparr>)"
  using assms by (simp add: AddRoute_def flip: find_route_None)

lemma AddRoute_cases:
  assumes "AddRoute out m ws = Inr out'"
  obtains (kept) r where "out' = out" and "r \<in> set (otp_Routes out)"
      and "HTTPRouteMatch_deep_equal (rwc_HTTPRouteMatch r) m"
      and "set (rwc_WeightedClusters r) = set ws"
    | (added) "\<forall>r \<in> set (otp_Routes out). \<not> HTTPRouteMatch_deep_equal (rwc_HTTPRouteMatch r) m"
      and "out' = out\<lparr>otp_Routes := otp_Routes out @
           [\<lparr>rwc_HTTPRouteMatch = m, rwc_WeightedClusters = fold add_new ws []\<rparr>]\<rparr>"
proof (cases "find_route (otp_Routes out) m")
  case None
  with assms show thesis using added find_route_None [of "otp_Routes out" m] by (auto simp: AddRoute_def)
next
  case (Some r)
  with assms show thesis
    using kept [of r] find_route_Some [OF Some] by (auto simp: AddRoute_def split: if_splits)
qed

lemma AddRoute_policy_ok:
  assumes "policy_ok out" and "AddRoute out m ws = Inr out'"
  shows "policy_ok out'"
  using assms(2)
proof (cases rule: AddRoute_cases)
  case kept
  with assms(1) show ?thesis by simp
next
  case added
  with assms(1) show ?thesis by (auto simp: policy_ok_def sorted_wrt_append)
qed

section \<open>Properties\<close>

text \<open>\<open>AddRoute\<close> on a policy whose routes are pairwise different: it fails exactly when a route with
  the same match and other clusters is there; otherwise the routes stay pairwise different, the
  old ones are kept in place, and some route has the requested match with exactly the requested
  clusters.\<close>

theorem AddRoute_correct:
  assumes "policy_ok out" and "gmap_wf (hrm_Headers m)"
  shows "case AddRoute out m ws of
     Inl _ \<Rightarrow> \<exists>r \<in> set (otp_Routes out). HTTPRouteMatch_deep_equal (rwc_HTTPRouteMatch r) m \<and>
       set (rwc_WeightedClusters r) \<noteq> set ws
   | Inr out' \<Rightarrow> policy_ok out' \<and> (\<exists>rs. otp_Routes out' = otp_Routes out @ rs) \<and>
       otp_Name out' = otp_Name out \<and> otp_Hostnames out' = otp_Hostnames out \<and>
       (\<exists>r \<in> set (otp_Routes out'). HTTPRouteMatch_deep_equal (rwc_HTTPRouteMatch r) m \<and>
         set (rwc_WeightedClusters r) = set ws)"
proof (cases "AddRoute out m ws")
  case (Inl e)
  then obtain r where "find_route (otp_Routes out) m = Some r" and "set (rwc_WeightedClusters r) \<noteq> set ws"
    by (auto simp: AddRoute_def Let_def split: option.splits if_splits)
  with find_route_Some show ?thesis unfolding Inl by auto
next
  case (Inr out')
  have refl: "HTTPRouteMatch_deep_equal m m"
    using assms(2) by (auto simp: HTTPRouteMatch_deep_equal_def gmap_deep_equal_def list_all_iff intro: gmap_in_get)
  from Inr show ?thesis
  proof (cases rule: AddRoute_cases)
    case (kept r)
    with assms(1) show ?thesis by (auto simp: Inr)
  next
    case added
    moreover have "policy_ok out'" by (rule AddRoute_policy_ok [OF assms(1) Inr])
    ultimately show ?thesis by (auto simp: Inr refl)
  qed
qed

theorem AddRoute_correct_witness:
  "AddRoute (NewOutboundTrafficPolicy ''p'' [''h'']) WildCardRouteMatch [\<lparr>wc_ClusterName = ''c'', wc_Weight = 100\<rparr>]
     \<noteq> Inl RouteAlreadyExists \<and>
   (case AddRoute (NewOutboundTrafficPolicy ''p'' [''h'']) WildCardRouteMatch [\<lparr>wc_ClusterName = ''c'', wc_Weight = 100\<rparr>] of
      Inl _ \<Rightarrow> False
    | Inr out' \<Rightarrow> policy_ok out')"
proof -
  have "policy_ok (NewOutboundTrafficPolicy ''p'' [''h''])" and "gmap_wf (hrm_Headers WildCardRouteMatch)"
    by (simp, simp add: WildCardRouteMatch_def)
  from AddRoute_correct [OF this, of "[\<lparr>wc_ClusterName = ''c'', wc_Weight = 100\<rparr>]"]
  show ?thesis by (auto simp: NewOutboundTrafficPolicy_def split: sum.splits)
qed

end
