(* ===== verification/K8sTypes.thy ===== *)
theory K8sTypes
  imports Policy
begin

text \<open>
  The Kubernetes objects the program reads and builds, with the fields it uses: the native
  resources of \<open>k8s.io/api/core/v1\<close>, and the custom resources of
  \<open>pkg/ecnet/apis/multicluster\<close> and \<open>pkg/ecnet/apis/config\<close>; and the informer collection
  (\<open>pkg/ecnet/k8s/informers\<close>) through which they are read.
\<close>

section \<open>Native resources\<close>

record ServicePort =
  sp_Name :: string
  sp_Protocol :: string
  sp_AppProtocol :: "string option"
  sp_Port :: int
  sp_TargetPort :: int

record Service =
  svc_UID :: string
  svc_Namespace :: string
  svc_Name :: string
  svc_Type :: string
  svc_Selector :: "(string, string) gomap"
  svc_ClusterIP :: string
  svc_ClusterIPs :: "string list"
  svc_Ports :: "ServicePort list"

record EndpointAddress =
  ea_IP :: string
  ea_Hostname :: string

record EndpointPort =
  ep_Name :: string
  ep_Protocol :: string
  ep_AppProtocol :: "string option"
  ep_Port :: int

record EndpointSubset =
  es_Addresses :: "EndpointAddress list"
  es_Ports :: "EndpointPort list"

record Endpoints =
  eps_Namespace :: string
  eps_Name :: string
  eps_Annotations :: "(string, string) gomap"
  eps_Subsets :: "EndpointSubset list"

record Pod =
  pod_UID :: string
  pod_Namespace :: string
  pod_Name :: string
  pod_Labels :: "(string, string) gomap"
  pod_Annotations :: "(string, string) gomap"
  pod_ServiceAccountName :: string
  pod_PodIP :: string
  pod_PodIPs :: "string list"

record Namespace =
  ns_Name :: string
  ns_Finalizers :: "string list"

record ServiceAccount =
  sacc_Namespace :: string
  sacc_Name :: string

definition ClusterIPNone :: string where "ClusterIPNone = ''None''"

definition ServiceTypeClusterIP :: string where "ServiceTypeClusterIP = ''ClusterIP''"

section \<open>flomesh.io resources: apis/multicluster/v1alpha1\<close>

record Target =
  tgt_Host :: string
  tgt_IP :: string
  tgt_Port :: int
  tgt_Path :: string

record ImportEndpoint =
  ie_Target :: Target
  ie_ClusterKey :: string

record ImportPort =
  ip_Name :: string
  ip_Protocol :: string
  ip_AppProtocol :: "string option"
  ip_Port :: int
  ip_Endpoints :: "ImportEndpoint list"

record ServiceImport =
  si_UID :: string
  si_Namespace :: string
  si_Name :: string
  si_Ports :: "ImportPort list"
  si_ServiceAccountName :: string

definition ActiveActiveLbType :: string where "ActiveActiveLbType = ''ActiveActive''"
definition LocalityLbType :: string where "LocalityLbType = ''Locality''"
definition FailOverLbType :: string where "FailOverLbType = ''FailOver''"

lemma lb_types_distinct [simp]:
  "ActiveActiveLbType \<noteq> LocalityLbType" "LocalityLbType \<noteq> ActiveActiveLbType"
  "ActiveActiveLbType \<noteq> FailOverLbType" "FailOverLbType \<noteq> ActiveActiveLbType"
  "LocalityLbType \<noteq> FailOverLbType" "FailOverLbType \<noteq> LocalityLbType"
  by (simp_all add: ActiveActiveLbType_def LocalityLbType_def FailOverLbType_def)

record TrafficTarget =
  tt_ClusterKey :: string
  tt_Weight :: "int option"

record GlobalTrafficPolicy =
  gtp_Namespace :: string
  gtp_Name :: string
  gtp_LbType :: string
  gtp_LoadBalanceTarget :: "TrafficTarget list"

section \<open>config.flomesh.io resources: apis/config/v1alpha1\<close>

text \<open>
  A priority is a \<open>float32\<close> that was read from JSON, hence a finite number; comparing two of them
  is comparing the rational numbers they denote. A chain that is absent in the object is a
  \<open>nil\<close> slice, which \<open>reflect.DeepEqual\<close> distinguishes from an empty one. The elements of a chain are pointers
  in Go; \<open>reflect.DeepEqual\<close> compares what they point to and no code changes it in place, so the model has the values.
\<close>

record PluginChainSpec =
  pcs_Plugin :: string
  pcs_Priority :: rat
  pcs_Disable :: bool

record PluginChainsSpec =
  pcs_InboundTCPChains :: "PluginChainSpec list option"
  pcs_InboundHTTPChains :: "PluginChainSpec list option"
  pcs_OutboundTCPChains :: "PluginChainSpec list option"
  pcs_OutboundHTTPChains :: "PluginChainSpec list option"

record DNSSpec =
  dns_Namespace :: string
  dns_Name :: string
  dns_Port :: uint16
  dns_Protocol :: string

record SidecarSpec =
  sc_LogLevel :: string
  sc_ProxyServerPort :: uint32
  sc_ConfigResyncInterval :: string

record RepoServerSpec =
  rs_IPAddr :: string
  rs_Codebase :: string

record EcnetConfigSpec =
  ecs_DNS :: DNSSpec
  ecs_Sidecar :: SidecarSpec
  ecs_RepoServer :: RepoServerSpec
  ecs_PluginChains :: PluginChainsSpec

record EcnetConfig =
  ec_Namespace :: string
  ec_Name :: string
  ec_Spec :: EcnetConfigSpec

text \<open>The zero value, which the configurator uses while there is no configuration object.\<close>

definition EcnetConfig_zero :: EcnetConfig where
  "EcnetConfig_zero = \<lparr>ec_Namespace = [], ec_Name = [],
     ec_Spec = \<lparr>ecs_DNS = \<lparr>dns_Namespace = [], dns_Name = [], dns_Port = 0, dns_Protocol = []\<rparr>,
       ecs_Sidecar = \<lparr>sc_LogLevel = [], sc_ProxyServerPort = 0, sc_ConfigResyncInterval = []\<rparr>,
       ecs_RepoServer = \<lparr>rs_IPAddr = [], rs_Codebase = []\<rparr>,
       ecs_PluginChains = \<lparr>pcs_InboundTCPChains = None, pcs_InboundHTTPChains = None,
         pcs_OutboundTCPChains = None, pcs_OutboundHTTPChains = None\<rparr>\<rparr>\<rparr>"

section \<open>Informers: k8s/informers\<close>

text \<open>
  A store of the client library answers a lookup with an error (\<open>Inl\<close>), with nothing, or with an
  object, and lists its objects. Each informer watches one resource type, so its store is
  typed and the code's type assertions on what it returns cannot fail. An informer the
  collection was not given a client for is \<open>None\<close>.
\<close>

record 'a store =
  store_GetByKey :: "string \<Rightarrow> unit + 'a option"
  store_List :: "'a list"

record InformerCollection =
  ic_Namespace :: "Namespace store option"
  ic_Service :: "Service store option"
  ic_Pod :: "Pod store option"
  ic_Endpoints :: "Endpoints store option"
  ic_ServiceAccount :: "ServiceAccount store option"
  ic_ServiceImport :: "ServiceImport store option"
  ic_GlobalTrafficPolicy :: "GlobalTrafficPolicy store option"
  ic_EcnetConfig :: "EcnetConfig store option"

definition GetByKey :: "'a store option \<Rightarrow> string \<Rightarrow> unit + 'a option" where
  "GetByKey informer objectKey =
     (case informer of None \<Rightarrow> Inr None | Some st \<Rightarrow> store_GetByKey st objectKey)"

definition List_objects :: "'a store option \<Rightarrow> 'a list" where
  "List_objects informer = (case informer of None \<Rightarrow> [] | Some st \<Rightarrow> store_List st)"

definition IsMonitoredNamespace :: "InformerCollection \<Rightarrow> string \<Rightarrow> bool" where
  "IsMonitoredNamespace ic ns \<longleftrightarrow> True"

text \<open>The common pattern \<open>item, exists, err := GetByKey(..); if !exists || err != nil { return nil }\<close>.\<close>

definition found :: "unit + 'a option \<Rightarrow> 'a option" where
  "found r = (case r of Inl _ \<Rightarrow> None | Inr o' \<Rightarrow> o')"

lemma found_simps [simp]: "found (Inl e) = None" "found (Inr x) = x"
  by (simp_all add: found_def)

text \<open>A store over a list of objects with a key function: what a synchronised cache is.\<close>

definition list_store :: "('a \<Rightarrow> string) \<Rightarrow> 'a list \<Rightarrow> 'a store" where
  "list_store key xs = \<lparr>store_GetByKey = (\<lambda>k. Inr (find (\<lambda>x. key x = k) xs)), store_List = xs\<rparr>"

end
