(* ===== verification/PipyConf.thy ===== *)
theory PipyConf
  imports K8sTypes
begin

text \<open>
  \<open>pkg/ecnet/bridge/ctrlplane/server/types.go\<close> and \<open>policy.go\<close>: the configuration published to the
  pipy proxy and the operations that fill it.

  A traffic match is shared: \<open>namedTrafficMatches\<close> and \<open>TrafficMatches\<close> hold pointers to the same
  object, and the routes are added through one of them. The objects therefore live in a store, a
  list the pointers index, and both maps hold locations. All other pointers of the
  configuration have a single owner and are represented by the value they point to.
\<close>

section \<open>types.go\<close>

record HTTPMatchRule =
  hmr_Path :: string
  hmr_Type :: string
  hmr_Headers :: "(string, string) gomap"
  hmr_Methods :: "string list option"
  hmr_allowedAnyMethod :: bool

definition URI_PathMatchRegex :: string where "URI_PathMatchRegex = ''Regex''"
definition URI_PathMatchExact :: string where "URI_PathMatchExact = ''Exact''"
definition URI_PathMatchPrefix :: string where "URI_PathMatchPrefix = ''Prefix''"

definition HTTPMatchRule_zero :: HTTPMatchRule where
  "HTTPMatchRule_zero = \<lparr>hmr_Path = [], hmr_Type = [], hmr_Headers = None, hmr_Methods = None,
     hmr_allowedAnyMethod = False\<rparr>"

type_synonym WeightedClusters = "(string, uint32) gomap"

record OutboundHTTPRouteRule =
  hrr_HTTPMatchRule :: HTTPMatchRule
  hrr_TargetClusters :: WeightedClusters

type_synonym OutboundHTTPRouteRules = "OutboundHTTPRouteRule list"

record OutboundTrafficMatch =
  otm_Port :: uint16
  otm_Protocol :: string
  otm_HTTPHostPort2Service :: "(string, string) gomap"
  otm_HTTPServiceRouteRules :: "(string, OutboundHTTPRouteRules) gomap"
  otm_TCPServiceRouteRules :: "WeightedClusters option"

definition OutboundTrafficMatch_zero :: OutboundTrafficMatch where
  "OutboundTrafficMatch_zero = \<lparr>otm_Port = 0, otm_Protocol = [], otm_HTTPHostPort2Service = None,
     otm_HTTPServiceRouteRules = None, otm_TCPServiceRouteRules = None\<rparr>"

record WeightedZoneEndpoint =
  wze_Weight :: uint32
  wze_Cluster :: string
  wze_LBType :: string
  wze_ContextPath :: string

type_synonym WeightedEndpoints = "(string, WeightedZoneEndpoint) gomap"

record ClusterConfigs =
  cc_Endpoints :: WeightedEndpoints

record PipyOutbound =
  po_store :: "OutboundTrafficMatch list"
  po_namedTrafficMatches :: "(string, nat) gomap"
  po_TrafficMatches :: "(uint16, nat list) gomap"
  po_ClustersConfigs :: "(string, ClusterConfigs) gomap"

definition PipyOutbound_zero :: PipyOutbound where
  "PipyOutbound_zero = \<lparr>po_store = [], po_namedTrafficMatches = None, po_TrafficMatches = None,
     po_ClustersConfigs = None\<rparr>"

record PipyConf =
  pc_Ts :: "int option"
  pc_Version :: "string option"
  pc_SidecarLogLevel :: string
  pc_Outbound :: "PipyOutbound option"
  pc_Chains :: "(string, string list) gomap"
  pc_DNSResolveDB :: "(string, string list) gomap"

definition PipyConf_zero :: PipyConf where
  "PipyConf_zero = \<lparr>pc_Ts = None, pc_Version = None, pc_SidecarLogLevel = [], pc_Outbound = None,
     pc_Chains = None, pc_DNSResolveDB = None\<rparr>"

section \<open>policy.go: the configuration\<close>

definition setSidecarLogLevel :: "PipyConf \<Rightarrow> string \<Rightarrow> PipyConf \<times> bool" where
  "setSidecarLogLevel p sidecarLogLevel =
     (let update = \<not> equal_fold (pc_SidecarLogLevel p) sidecarLogLevel
      in (if update then p\<lparr>pc_SidecarLogLevel := sidecarLogLevel\<rparr> else p, update))"

definition newOutboundTrafficPolicy :: "PipyConf \<Rightarrow> PipyConf \<times> PipyOutbound" where
  "newOutboundTrafficPolicy p =
     (let otp = (case pc_Outbound p of None \<Rightarrow> PipyOutbound_zero | Some otp \<Rightarrow> otp)
      in (p\<lparr>pc_Outbound := Some otp\<rparr>, otp))"

definition rebalance_endpoint :: "bool \<Rightarrow> WeightedZoneEndpoint \<Rightarrow> WeightedZoneEndpoint" where
  "rebalance_endpoint hasLocalEndpoints wze =
     (if 0 < length (wze_Cluster wze) then
        (if FailOverLbType = wze_LBType wze then
           (if hasLocalEndpoints then wze\<lparr>wze_Weight := word_of_int ClusterWeightFailOver\<rparr>
            else wze\<lparr>wze_Weight := word_of_int ClusterWeightAcceptAll\<rparr>)
         else if ActiveActiveLbType = wze_LBType wze then
           (if wze_Weight wze = 0 then wze\<lparr>wze_Weight := word_of_int ClusterWeightAcceptAll\<rparr> else wze)
         else wze)
      else if wze_Weight wze = 0 then wze\<lparr>wze_Weight := word_of_int ClusterWeightAcceptAll\<rparr> else wze)"

definition rebalance_cluster :: "ClusterConfigs \<Rightarrow> ClusterConfigs" where
  "rebalance_cluster clusterConfigs =
     (let weightedEndpoints = cc_Endpoints clusterConfigs;
          hasLocalEndpoints = list_ex (\<lambda>(_, wze). length (wze_Cluster wze) = 0) (entries weightedEndpoints)
      in if length (entries weightedEndpoints) = 0 then clusterConfigs
         else clusterConfigs\<lparr>cc_Endpoints := gmap_map_values (rebalance_endpoint hasLocalEndpoints) weightedEndpoints\<rparr>)"

definition rebalancedOutboundClusters :: "PipyConf \<Rightarrow> PipyConf" where
  "rebalancedOutboundClusters p =
     (case pc_Outbound p of
        None \<Rightarrow> p
      | Some otp \<Rightarrow>
          if length (entries (po_ClustersConfigs otp)) = 0 then p
          else p\<lparr>pc_Outbound := Some (otp\<lparr>po_ClustersConfigs :=
                 gmap_map_values rebalance_cluster (po_ClustersConfigs otp)\<rparr>)\<rparr>)"

section \<open>policy.go: traffic matches\<close>

definition setPort :: "uint16 \<Rightarrow> OutboundTrafficMatch \<Rightarrow> OutboundTrafficMatch" where
  "setPort port otm = otm\<lparr>otm_Port := port\<rparr>"

definition setProtocol :: "string \<Rightarrow> OutboundTrafficMatch \<Rightarrow> OutboundTrafficMatch" where
  "setProtocol protocol otm =
     (let protocol = to_lower protocol
      in if ProtocolTCPServerFirst = protocol then otm\<lparr>otm_Protocol := ProtocolTCP\<rparr>
         else otm\<lparr>otm_Protocol := protocol\<rparr>)"

definition newTCPServiceRouteRules :: "OutboundTrafficMatch \<Rightarrow> OutboundTrafficMatch" where
  "newTCPServiceRouteRules otm =
     (if otm_TCPServiceRouteRules otm = None then otm\<lparr>otm_TCPServiceRouteRules := Some None\<rparr> else otm)"

text \<open>\<open>addWeightedCluster\<close> on the TCP rules, which \<open>newTCPServiceRouteRules\<close> has allocated.\<close>

definition tcp_addWeightedCluster :: "string \<Rightarrow> uint32 \<Rightarrow> OutboundTrafficMatch \<Rightarrow> OutboundTrafficMatch" where
  "tcp_addWeightedCluster clusterName weight otm =
     otm\<lparr>otm_TCPServiceRouteRules := map_option (\<lambda>m. gmap_put m clusterName weight) (otm_TCPServiceRouteRules otm)\<rparr>"

definition addHTTPHostPort2Service :: "string \<Rightarrow> string \<Rightarrow> OutboundTrafficMatch \<Rightarrow> OutboundTrafficMatch" where
  "addHTTPHostPort2Service hostPort ruleName otm =
     otm\<lparr>otm_HTTPHostPort2Service := gmap_put (otm_HTTPHostPort2Service otm) hostPort ruleName\<rparr>"

text \<open>The rules of a name, created when missing; with the empty name the map is allocated and the
  result is \<open>nil\<close>.\<close>

definition newHTTPServiceRouteRules ::
  "string \<Rightarrow> OutboundTrafficMatch \<Rightarrow> OutboundTrafficMatch \<times> OutboundHTTPRouteRules option" where
  "newHTTPServiceRouteRules httpRouteRuleName otm =
     (let m = (case otm_HTTPServiceRouteRules otm of None \<Rightarrow> gmap_empty | Some xs \<Rightarrow> Some xs)
      in if length httpRouteRuleName = 0 then (otm\<lparr>otm_HTTPServiceRouteRules := m\<rparr>, None)
         else case gmap_get m httpRouteRuleName of
                None \<Rightarrow> (otm\<lparr>otm_HTTPServiceRouteRules := gmap_put m httpRouteRuleName []\<rparr>, Some [])
              | Some rules \<Rightarrow> (otm\<lparr>otm_HTTPServiceRouteRules := m\<rparr>, Some rules))"

text \<open>\<open>newTrafficMatch\<close>: the location of the match of a port and name, and whether it existed.\<close>

definition named_port :: "uint16 \<Rightarrow> string \<Rightarrow> string" where
  "named_port port name = fmt_word port @ ''='' @ name"

definition newTrafficMatch :: "PipyOutbound \<Rightarrow> uint16 \<Rightarrow> string \<Rightarrow> PipyOutbound \<times> nat \<times> bool" where
  "newTrafficMatch otp port name =
     (case gmap_get (po_namedTrafficMatches otp) (named_port port name) of
        Some trafficMatch \<Rightarrow> (otp, trafficMatch, True)
      | None \<Rightarrow>
          (let trafficMatch = length (po_store otp);
               trafficMatches = (case gmap_get (po_TrafficMatches otp) port of None \<Rightarrow> [] | Some ts \<Rightarrow> ts)
           in (otp\<lparr>po_store := po_store otp @ [OutboundTrafficMatch_zero],
                   po_namedTrafficMatches := gmap_put (po_namedTrafficMatches otp) (named_port port name) trafficMatch,
                   po_TrafficMatches := gmap_put (po_TrafficMatches otp) port (trafficMatches @ [trafficMatch])\<rparr>,
               trafficMatch, False)))"

text \<open>A change of a traffic match through a pointer.\<close>

definition update_match :: "nat \<Rightarrow> (OutboundTrafficMatch \<Rightarrow> OutboundTrafficMatch) \<Rightarrow> PipyOutbound \<Rightarrow> PipyOutbound" where
  "update_match l f otp = otp\<lparr>po_store := (po_store otp)[l := f (po_store otp ! l)]\<rparr>"

section \<open>policy.go: match rules and route rules\<close>

definition HTTPMatchRule_deep_equal :: "HTTPMatchRule \<Rightarrow> HTTPMatchRule \<Rightarrow> bool" where
  "HTTPMatchRule_deep_equal a b \<longleftrightarrow>
     hmr_Path a = hmr_Path b \<and> hmr_Type a = hmr_Type b \<and> gmap_deep_equal (hmr_Headers a) (hmr_Headers b) \<and>
     hmr_Methods a = hmr_Methods b \<and> hmr_allowedAnyMethod a = hmr_allowedAnyMethod b"

fun find_rule :: "HTTPMatchRule \<Rightarrow> OutboundHTTPRouteRules \<Rightarrow> nat option" where
  "find_rule matchRule [] = None"
| "find_rule matchRule (routeRule # rules) =
     (if HTTPMatchRule_deep_equal matchRule (hrr_HTTPMatchRule routeRule) then Some 0
      else map_option Suc (find_rule matchRule rules))"

text \<open>The rules with a rule for the match, and the position of that rule.\<close>

definition newHTTPServiceRouteRule ::
  "HTTPMatchRule \<Rightarrow> OutboundHTTPRouteRules \<Rightarrow> OutboundHTTPRouteRules \<times> nat \<times> bool" where
  "newHTTPServiceRouteRule matchRule rules =
     (case find_rule matchRule rules of
        Some i \<Rightarrow> (rules, i, True)
      | None \<Rightarrow> (rules @ [\<lparr>hrr_HTTPMatchRule = matchRule, hrr_TargetClusters = None\<rparr>], length rules, False))"

definition addHeaderMatch :: "string \<Rightarrow> string \<Rightarrow> HTTPMatchRule \<Rightarrow> HTTPMatchRule" where
  "addHeaderMatch header headerRegexp hmr = hmr\<lparr>hmr_Headers := gmap_put (hmr_Headers hmr) header headerRegexp\<rparr>"

definition addMethodMatch :: "string \<Rightarrow> HTTPMatchRule \<Rightarrow> HTTPMatchRule" where
  "addMethodMatch method hmr =
     (if hmr_allowedAnyMethod hmr then hmr
      else if ''*'' = method then hmr\<lparr>hmr_allowedAnyMethod := True, hmr_Methods := None\<rparr>
      else hmr\<lparr>hmr_Methods := Some ((case hmr_Methods hmr of None \<Rightarrow> [] | Some ms \<Rightarrow> ms) @ [method])\<rparr>)"

definition http_addWeightedCluster :: "string \<Rightarrow> uint32 \<Rightarrow> OutboundHTTPRouteRule \<Rightarrow> OutboundHTTPRouteRule" where
  "http_addWeightedCluster clusterName weight hrr =
     hrr\<lparr>hrr_TargetClusters := gmap_put (hrr_TargetClusters hrr) clusterName weight\<rparr>"

section \<open>policy.go: cluster configs\<close>

definition newClusterConfigs :: "PipyOutbound \<Rightarrow> string \<Rightarrow> PipyOutbound \<times> ClusterConfigs" where
  "newClusterConfigs otp clusterName =
     (case gmap_get (po_ClustersConfigs otp) clusterName of
        None \<Rightarrow> (otp\<lparr>po_ClustersConfigs := gmap_put (po_ClustersConfigs otp) clusterName \<lparr>cc_Endpoints = None\<rparr>\<rparr>,
                 \<lparr>cc_Endpoints = None\<rparr>)
      | Some cluster \<Rightarrow> (otp, cluster))"

text \<open>\<open>addrWithPort\<close>, the regular expression \<open>:\d+$\<close>.\<close>

definition addrWithPort :: "string \<Rightarrow> bool" where
  "addrWithPort address =
     (takeWhile is_digit (rev address) \<noteq> [] \<and>
      (case dropWhile is_digit (rev address) of [] \<Rightarrow> False | c # _ \<Rightarrow> c = CHR '':''))"

definition endpoint_host_port :: "string \<Rightarrow> uint16 \<Rightarrow> string" where
  "endpoint_host_port address port = (if addrWithPort address then address else address @ '':'' @ fmt_word port)"

definition addWeightedZoneEndpoint ::
  "string \<Rightarrow> uint16 \<Rightarrow> uint32 \<Rightarrow> string \<Rightarrow> string \<Rightarrow> string \<Rightarrow> ClusterConfigs \<Rightarrow> ClusterConfigs" where
  "addWeightedZoneEndpoint address port weight cluster lbType contextPath otp =
     otp\<lparr>cc_Endpoints := gmap_put (cc_Endpoints otp) (endpoint_host_port address port)
       \<lparr>wze_Weight = weight, wze_Cluster = cluster, wze_LBType = lbType, wze_ContextPath = contextPath\<rparr>\<rparr>"

section \<open>Traffic matches: the two maps share one set of objects\<close>

text \<open>
  Every object of the store is reached by exactly one name and listed under exactly one port,
  and the two agree: the name of an object begins with the port it is listed under.
\<close>

definition listed :: "PipyOutbound \<Rightarrow> uint16 \<Rightarrow> nat list" where
  "listed otp port = (case gmap_get (po_TrafficMatches otp) port of None \<Rightarrow> [] | Some ts \<Rightarrow> ts)"

definition outbound_ok :: "PipyOutbound \<Rightarrow> bool" where
  "outbound_ok otp \<longleftrightarrow>
     gmap_wf (po_namedTrafficMatches otp) \<and> gmap_wf (po_TrafficMatches otp) \<and>
     (\<forall>port. distinct (listed otp port)) \<and>
     (\<forall>port port' l. l \<in> set (listed otp port) \<longrightarrow> l \<in> set (listed otp port') \<longrightarrow> port = port') \<and>
     (\<forall>n n' l. gmap_get (po_namedTrafficMatches otp) n = Some l \<longrightarrow>
        gmap_get (po_namedTrafficMatches otp) n' = Some l \<longrightarrow> n = n') \<and>
     (\<forall>port l. l \<in> set (listed otp port) \<longleftrightarrow>
        (\<exists>name. gmap_get (po_namedTrafficMatches otp) (named_port port name) = Some l)) \<and>
     (\<forall>l. (\<exists>n. gmap_get (po_namedTrafficMatches otp) n = Some l) \<longleftrightarrow> l < length (po_store otp))"

lemma named_port_inj [simp]: "named_port p n = named_port p' n' \<longleftrightarrow> p = p' \<and> n = n'"
proof
  assume eq: "named_port p n = named_port p' n'"
  have no: "CHR ''='' \<notin> set (fmt_word w)" for w :: uint16
    unfolding fmt_word_def by (rule itoa_no) (simp add: is_digit_def byte_def)
  from eq have "split_on (CHR ''='') (fmt_word p @ CHR ''='' # n) = split_on (CHR ''='') (fmt_word p' @ CHR ''='' # n')"
    by (simp add: named_port_def)
  then have "fmt_word p = fmt_word p'" by (simp add: split_on_append no)
  then have "p = p'" by (simp add: fmt_word_def word_unat_eq_iff)
  with eq show "p = p' \<and> n = n'" by (simp add: named_port_def)
qed simp

lemma outbound_ok_zero [simp]: "outbound_ok PipyOutbound_zero"
  by (simp add: outbound_ok_def PipyOutbound_zero_def listed_def)

lemma outbound_ok_update [simp]: "outbound_ok (update_match l f otp) \<longleftrightarrow> outbound_ok otp"
  by (simp add: outbound_ok_def update_match_def listed_def)

lemma outbound_ok_clusters [simp]: "outbound_ok (otp\<lparr>po_ClustersConfigs := cs\<rparr>) \<longleftrightarrow> outbound_ok otp"
  by (simp add: outbound_ok_def listed_def)

text \<open>The facts of \<^const>\<open>outbound_ok\<close> that the proofs use.\<close>

lemma outbound_okD:
  assumes "outbound_ok otp"
  shows outbound_ok_bound: "gmap_get (po_namedTrafficMatches otp) n = Some l \<Longrightarrow> l < length (po_store otp)"
    and outbound_ok_names: "gmap_get (po_namedTrafficMatches otp) n = Some l \<Longrightarrow>
      gmap_get (po_namedTrafficMatches otp) n' = Some l \<Longrightarrow> n = n'"
    and outbound_ok_ports: "l \<in> set (listed otp port) \<Longrightarrow> l \<in> set (listed otp port') \<Longrightarrow> port = port'"
    and outbound_ok_listed: "l \<in> set (listed otp port) \<longleftrightarrow>
      (\<exists>name. gmap_get (po_namedTrafficMatches otp) (named_port port name) = Some l)"
  using assms unfolding outbound_ok_def by blast+

lemma newTrafficMatch_existing:
  "gmap_get (po_namedTrafficMatches otp) (named_port port name) = Some l \<Longrightarrow>
     newTrafficMatch otp port name = (otp, l, True)"
  by (simp add: newTrafficMatch_def)

lemma newTrafficMatch_fresh:
  "gmap_get (po_namedTrafficMatches otp) (named_port port name) = None \<Longrightarrow>
     newTrafficMatch otp port name =
       (otp\<lparr>po_store := po_store otp @ [OutboundTrafficMatch_zero],
           po_namedTrafficMatches := gmap_put (po_namedTrafficMatches otp) (named_port port name) (length (po_store otp)),
           po_TrafficMatches := gmap_put (po_TrafficMatches otp) port (listed otp port @ [length (po_store otp)])\<rparr>,
        length (po_store otp), False)"
  by (simp add: newTrafficMatch_def listed_def Let_def)

lemma newTrafficMatch_outbound_ok:
  assumes ok: "outbound_ok otp" and new: "newTrafficMatch otp port name = (otp', l, b)"
  shows "outbound_ok otp'"
proof (cases "gmap_get (po_namedTrafficMatches otp) (named_port port name)")
  case (Some l')
  with new ok show ?thesis by (simp add: newTrafficMatch_existing)
next
  case None
  let ?l = "length (po_store otp)"
  have otp': "otp' = otp\<lparr>po_store := po_store otp @ [OutboundTrafficMatch_zero],
      po_namedTrafficMatches := gmap_put (po_namedTrafficMatches otp) (named_port port name) ?l,
      po_TrafficMatches := gmap_put (po_TrafficMatches otp) port (listed otp port @ [?l])\<rparr>"
    using new newTrafficMatch_fresh [OF None] by auto
  have listed': "listed otp' p = (if p = port then listed otp port @ [?l] else listed otp p)" for p
    by (auto simp: listed_def otp')
  have named': "gmap_get (po_namedTrafficMatches otp') n =
      (if n = named_port port name then Some ?l else gmap_get (po_namedTrafficMatches otp) n)" for n
    by (simp add: otp')
  have store': "length (po_store otp') = Suc ?l" by (simp add: otp')
  have names: "gmap_get (po_namedTrafficMatches otp) n \<noteq> Some ?l" for n
    using outbound_ok_bound [OF ok, of n ?l] by blast
  then have fresh: "?l \<notin> set (listed otp p)" for p
    by (simp add: outbound_ok_listed [OF ok])
  have all: "(\<exists>n. gmap_get (po_namedTrafficMatches otp) n = Some k) \<longleftrightarrow> k < ?l" for k
    using ok unfolding outbound_ok_def by blast
  have dist: "distinct (listed otp p)" for p using ok unfolding outbound_ok_def by blast
  have wf: "gmap_wf (po_namedTrafficMatches otp')" "gmap_wf (po_TrafficMatches otp')"
    using ok unfolding outbound_ok_def otp' by auto
  have bound': "(\<exists>n. gmap_get (po_namedTrafficMatches otp') n = Some k) \<longleftrightarrow> k < length (po_store otp')" for k
  proof -
    have "(\<exists>n. gmap_get (po_namedTrafficMatches otp') n = Some k) \<longleftrightarrow>
        k = ?l \<or> (\<exists>n. gmap_get (po_namedTrafficMatches otp) n = Some k)"
      using None by (simp add: named') (metis option.distinct(1))
    then show ?thesis by (auto simp: all store')
  qed
  have listed_iff: "k \<in> set (listed otp' p) \<longleftrightarrow>
      (\<exists>name. gmap_get (po_namedTrafficMatches otp') (named_port p name) = Some k)" for k p
  proof (cases "p = port")
    case True
    show ?thesis using None
      by (simp add: True listed' outbound_ok_listed [OF ok] named') (metis option.distinct(1))
  qed (simp add: listed' outbound_ok_listed [OF ok] named')
  show ?thesis
    unfolding outbound_ok_def listed_iff [symmetric]
  proof (intro conjI allI impI)
    fix n n' k
    assume "gmap_get (po_namedTrafficMatches otp') n = Some k" and "gmap_get (po_namedTrafficMatches otp') n' = Some k"
    then show "n = n'" using names outbound_ok_names [OF ok] by (auto simp: named' split: if_splits)
  next
    fix p p' k assume "k \<in> set (listed otp' p)" and "k \<in> set (listed otp' p')"
    then show "p = p'" using fresh outbound_ok_ports [OF ok] by (auto simp: listed' split: if_splits)
  qed (simp_all add: wf dist fresh bound' listed')
qed

lemma newTrafficMatch_location:
  assumes "outbound_ok otp" and "newTrafficMatch otp port name = (otp', l, b)"
  shows "l < length (po_store otp')"
    and "gmap_get (po_namedTrafficMatches otp') (named_port port name) = Some l"
    and "l \<in> set (listed otp' port)"
proof -
  show n: "gmap_get (po_namedTrafficMatches otp') (named_port port name) = Some l"
    using assms(2) by (auto simp: newTrafficMatch_def Let_def split: option.splits)
  have ok': "outbound_ok otp'" by (rule newTrafficMatch_outbound_ok [OF assms])
  show "l < length (po_store otp')" by (rule outbound_ok_bound [OF ok' n])
  show "l \<in> set (listed otp' port)" using n by (auto simp: outbound_ok_listed [OF ok'])
qed

section \<open>Rebalancing\<close>

lemma rebalance_endpoint_other [simp]:
  "wze_Cluster (rebalance_endpoint l w) = wze_Cluster w"
  "wze_LBType (rebalance_endpoint l w) = wze_LBType w"
  "wze_ContextPath (rebalance_endpoint l w) = wze_ContextPath w"
  by (simp_all add: rebalance_endpoint_def)

lemma rebalance_endpoint_weight:
  "wze_Weight (rebalance_endpoint l w) =
     (if wze_Cluster w = [] \<or> wze_LBType w = ActiveActiveLbType then (if wze_Weight w = 0 then 100 else wze_Weight w)
      else if wze_LBType w = FailOverLbType then (if l then 0 else 100)
      else wze_Weight w)"
  by (auto simp: rebalance_endpoint_def ClusterWeightAcceptAll_def ClusterWeightFailOver_def)

lemma rebalance_endpoint_idem [simp]:
  "rebalance_endpoint l (rebalance_endpoint l w) = rebalance_endpoint l w"
  by (rule WeightedZoneEndpoint.equality) (simp_all add: rebalance_endpoint_weight)

definition has_local :: "WeightedEndpoints \<Rightarrow> bool" where
  "has_local es \<longleftrightarrow> (\<exists>(k, w) \<in> set (entries es). wze_Cluster w = [])"

lemma rebalance_cluster_eq:
  "rebalance_cluster c = c\<lparr>cc_Endpoints := gmap_map_values (rebalance_endpoint (has_local (cc_Endpoints c))) (cc_Endpoints c)\<rparr>"
proof (cases "entries (cc_Endpoints c) = []")
  case True
  then have "gmap_map_values f (cc_Endpoints c) = cc_Endpoints c" for f
    by (cases "cc_Endpoints c") (auto simp: gmap_map_values_def)
  with True show ?thesis by (simp add: rebalance_cluster_def Let_def)
next
  case False
  have "list_ex (\<lambda>(_, wze). length (wze_Cluster wze) = 0) (entries (cc_Endpoints c)) \<longleftrightarrow> has_local (cc_Endpoints c)"
    by (auto simp: has_local_def list_ex_iff)
  with False show ?thesis by (simp add: rebalance_cluster_def Let_def)
qed

lemma has_local_rebalanced [simp]: "has_local (gmap_map_values (rebalance_endpoint l) es) \<longleftrightarrow> has_local es"
  by (force simp: has_local_def)

lemma gmap_map_values_comp: "gmap_map_values f (gmap_map_values g m) = gmap_map_values (f \<circ> g) m"
  by (cases m) (auto simp: gmap_map_values_def)

lemma rebalance_cluster_idem: "rebalance_cluster (rebalance_cluster c) = rebalance_cluster c"
  by (simp add: rebalance_cluster_eq gmap_map_values_comp comp_def)

lemma get_rebalanced_endpoint:
  "gmap_get (cc_Endpoints (rebalance_cluster c)) k =
     map_option (rebalance_endpoint (has_local (cc_Endpoints c))) (gmap_get (cc_Endpoints c) k)"
  by (simp add: rebalance_cluster_eq)

lemma rebalance_clusters:
  assumes "pc_Outbound p = Some otp"
  shows "pc_Outbound (rebalancedOutboundClusters p) =
     Some (otp\<lparr>po_ClustersConfigs := gmap_map_values rebalance_cluster (po_ClustersConfigs otp)\<rparr>)"
proof -
  have "gmap_map_values f m = m" if "entries m = []" for f :: "ClusterConfigs \<Rightarrow> ClusterConfigs" and m :: "(string, ClusterConfigs) gomap"
    using that by (cases m) (auto simp: gmap_map_values_def)
  with assms show ?thesis by (simp add: rebalancedOutboundClusters_def)
qed

section \<open>Methods and rules\<close>

lemma addMethodMatch_any: "hmr_allowedAnyMethod h \<Longrightarrow> fold addMethodMatch ms h = h"
  by (induction ms) (simp_all add: addMethodMatch_def)

lemma fold_addMethodMatch:
  assumes "\<not> hmr_allowedAnyMethod h"
  shows "fold addMethodMatch ms h =
     (if ''*'' \<in> set ms then h\<lparr>hmr_allowedAnyMethod := True, hmr_Methods := None\<rparr>
      else if ms = [] then h
      else h\<lparr>hmr_Methods := Some ((case hmr_Methods h of None \<Rightarrow> [] | Some xs \<Rightarrow> xs) @ ms)\<rparr>)"
  using assms
proof (induction ms arbitrary: h)
  case (Cons m ms)
  show ?case
  proof (cases "m = ''*''")
    case True
    then have "addMethodMatch m h = h\<lparr>hmr_allowedAnyMethod := True, hmr_Methods := None\<rparr>"
      using Cons.prems by (simp add: addMethodMatch_def)
    then show ?thesis by (simp add: True addMethodMatch_any)
  next
    case False
    then have "addMethodMatch m h =
        h\<lparr>hmr_Methods := Some ((case hmr_Methods h of None \<Rightarrow> [] | Some xs \<Rightarrow> xs) @ [m])\<rparr>"
      using Cons.prems by (simp add: addMethodMatch_def)
    with Cons False show ?thesis by simp
  qed
qed simp

lemma find_rule_Some:
  "find_rule m rules = Some i \<Longrightarrow> i < length rules \<and> HTTPMatchRule_deep_equal m (hrr_HTTPMatchRule (rules ! i))"
  by (induction rules arbitrary: i) (auto split: if_splits)

lemma find_rule_None:
  "find_rule m rules = None \<longleftrightarrow> (\<forall>r \<in> set rules. \<not> HTTPMatchRule_deep_equal m (hrr_HTTPMatchRule r))"
  by (induction rules) auto

lemma newHTTPServiceRouteRule_bound:
  "newHTTPServiceRouteRule m rules = (rules', i, b) \<Longrightarrow> i < length rules'"
  by (auto simp: newHTTPServiceRouteRule_def split: option.splits dest: find_rule_Some)

section \<open>Endpoint keys\<close>

lemma addrWithPort_colon: "CHR '':'' \<notin> set address \<Longrightarrow> \<not> addrWithPort address"
  by (auto simp: addrWithPort_def split: list.splits) (metis list.set_intros(1) set_dropWhileD set_rev)

lemma ipv4_string_no_colon: "CHR '':'' \<notin> set (ipv4_string bs)"
proof
  assume "CHR '':'' \<in> set (ipv4_string bs)"
  then obtain s where "s \<in> set (map itoa bs)" and "CHR '':'' \<in> set s \<or> CHR '':'' = CHR ''.''"
    unfolding ipv4_string_def by (induction bs rule: induct_list012) auto
  then show False using itoa_no [OF colon_not_digit] by auto
qed

lemma ipv4_host_port:
  assumes "length bs = 4"
  shows "endpoint_host_port (ip_string (ipv4_mapped bs)) port = ipv4_string bs @ '':'' @ fmt_word port"
  using addrWithPort_colon [OF ipv4_string_no_colon [of bs]]
  by (simp add: endpoint_host_port_def ip_string_mapped assms)

section \<open>Properties\<close>

text \<open>The traffic matches of the configuration are shared objects: asking for the match of a port
  and a name keeps the invariant, gives an object that the port lists, gives the same object when
  asked again, reports whether it was there before, and changes neither the other names nor any
  existing object.\<close>

theorem newTrafficMatch_shares:
  assumes "outbound_ok otp" and "newTrafficMatch otp port name = (otp', l, exist)"
  shows "outbound_ok otp' \<and> l \<in> set (listed otp' port) \<and> newTrafficMatch otp' port name = (otp', l, True) \<and>
     (exist \<longleftrightarrow> gmap_get (po_namedTrafficMatches otp) (named_port port name) \<noteq> None) \<and>
     (\<forall>port' name'. (port', name') \<noteq> (port, name) \<longrightarrow>
        gmap_get (po_namedTrafficMatches otp') (named_port port' name') =
        gmap_get (po_namedTrafficMatches otp) (named_port port' name')) \<and>
     take (length (po_store otp)) (po_store otp') = po_store otp"
proof (intro conjI)
  note loc = newTrafficMatch_location [OF assms]
  show "outbound_ok otp'" by (rule newTrafficMatch_outbound_ok [OF assms])
  show "l \<in> set (listed otp' port)" by (rule loc)
  show "newTrafficMatch otp' port name = (otp', l, True)" by (rule newTrafficMatch_existing [OF loc(2)])
qed (use assms(2) in \<open>auto simp: newTrafficMatch_def Let_def split: option.splits\<close>)

theorem newTrafficMatch_shares_witness:
  "newTrafficMatch PipyOutbound_zero 80 ''http'' =
     (fst (newTrafficMatch PipyOutbound_zero 80 ''http''), 0, False) \<and>
   outbound_ok (fst (newTrafficMatch PipyOutbound_zero 80 ''http''))"
proof -
  have n: "newTrafficMatch PipyOutbound_zero 80 ''http'' =
      (fst (newTrafficMatch PipyOutbound_zero 80 ''http''), 0, False)"
    by (simp add: newTrafficMatch_def PipyOutbound_zero_def Let_def)
  with newTrafficMatch_shares [OF outbound_ok_zero n] show ?thesis by blast
qed

text \<open>C11. Rebalancing keeps a cluster usable: when the endpoints of other clusters are active-active or
  fail-over ones and there is any endpoint at all, then afterwards some endpoint has a positive
  weight. The endpoints stay the same; a fail-over endpoint of another cluster gets no traffic as
  long as there is a local endpoint.\<close>

theorem rebalance_routable:
  assumes "pc_Outbound p = Some otp" and "gmap_get (po_ClustersConfigs otp) c = Some cc"
    and "entries (cc_Endpoints cc) \<noteq> []"
    and "\<forall>(k, w) \<in> set (entries (cc_Endpoints cc)). wze_Cluster w = [] \<or> wze_LBType w \<in> {ActiveActiveLbType, FailOverLbType}"
  shows "\<exists>otp' cc'. pc_Outbound (rebalancedOutboundClusters p) = Some otp' \<and>
     gmap_get (po_ClustersConfigs otp') c = Some cc' \<and>
     map fst (entries (cc_Endpoints cc')) = map fst (entries (cc_Endpoints cc)) \<and>
     (\<exists>(k, w) \<in> set (entries (cc_Endpoints cc')). 0 < wze_Weight w) \<and>
     (\<forall>(k, w) \<in> set (entries (cc_Endpoints cc')). wze_Cluster w \<noteq> [] \<longrightarrow> wze_LBType w = FailOverLbType \<longrightarrow>
        wze_Weight w = (if has_local (cc_Endpoints cc) then 0 else 100))"
proof -
  let ?f = "rebalance_endpoint (has_local (cc_Endpoints cc))"
  let ?otp = "otp\<lparr>po_ClustersConfigs := gmap_map_values rebalance_cluster (po_ClustersConfigs otp)\<rparr>"
  have ent: "entries (cc_Endpoints (rebalance_cluster cc)) = map (\<lambda>(k, w). (k, ?f w)) (entries (cc_Endpoints cc))"
    by (cases "cc_Endpoints cc") (simp_all add: rebalance_cluster_eq gmap_map_values_def)
  have ne: "ActiveActiveLbType \<noteq> FailOverLbType" by (simp add: ActiveActiveLbType_def FailOverLbType_def)
  obtain k w where kw: "(k, w) \<in> set (entries (cc_Endpoints cc))" and pos: "0 < wze_Weight (?f w)"
  proof (cases "has_local (cc_Endpoints cc)")
    case True
    then obtain k w where "(k, w) \<in> set (entries (cc_Endpoints cc))" "wze_Cluster w = []"
      by (auto simp: has_local_def)
    with that show thesis by (simp add: rebalance_endpoint_weight word_neq_0_conv [symmetric])
  next
    case False
    from assms(3) obtain k w where kw: "(k, w) \<in> set (entries (cc_Endpoints cc))"
      by (cases "entries (cc_Endpoints cc)") auto
    with False assms(4) that ne show thesis
      by (force simp: rebalance_endpoint_weight word_neq_0_conv [symmetric])
  qed
  show ?thesis
  proof (intro exI conjI)
    show "pc_Outbound (rebalancedOutboundClusters p) = Some ?otp" by (rule rebalance_clusters [OF assms(1)])
    show "gmap_get (po_ClustersConfigs ?otp) c = Some (rebalance_cluster cc)" using assms(2) by simp
    show "\<exists>(k, w) \<in> set (entries (cc_Endpoints (rebalance_cluster cc))). 0 < wze_Weight w"
      unfolding ent using kw pos by force
  qed (use ne in \<open>auto simp: ent rebalance_endpoint_weight\<close>)
qed

definition sample_clusters :: PipyOutbound where
  "sample_clusters = PipyOutbound_zero\<lparr>po_ClustersConfigs := Some [(''shop/web|8080'', \<lparr>cc_Endpoints = Some [(''192.168.1.5:8080'', \<lparr>wze_Weight = 0, wze_Cluster = ''c1'', wze_LBType = FailOverLbType, wze_ContextPath = ''/''\<rparr>)]\<rparr>)]\<rparr>"

theorem rebalance_routable_witness:
  "\<exists>otp' cc'. pc_Outbound (rebalancedOutboundClusters (PipyConf_zero\<lparr>pc_Outbound := Some sample_clusters\<rparr>)) = Some otp' \<and>
     gmap_get (po_ClustersConfigs otp') ''shop/web|8080'' = Some cc' \<and>
     (\<exists>(k, w) \<in> set (entries (cc_Endpoints cc')). 0 < wze_Weight w)"
proof -
  let ?p = "PipyConf_zero\<lparr>pc_Outbound := Some sample_clusters\<rparr>"
  obtain cc where cc: "gmap_get (po_ClustersConfigs sample_clusters) ''shop/web|8080'' = Some cc"
    and "entries (cc_Endpoints cc) \<noteq> []"
    and "\<forall>(k, w) \<in> set (entries (cc_Endpoints cc)). wze_Cluster w = [] \<or> wze_LBType w \<in> {ActiveActiveLbType, FailOverLbType}"
    by (simp add: sample_clusters_def gmap_get_def)
  from rebalance_routable [OF _ this, of ?p] show ?thesis by auto
qed

text \<open>Rebalancing twice is rebalancing once.\<close>

theorem rebalance_idempotent:
  "rebalancedOutboundClusters (rebalancedOutboundClusters p) = rebalancedOutboundClusters p"
proof (cases "pc_Outbound p")
  case (Some otp)
  let ?q = "rebalancedOutboundClusters p"
  note q = rebalance_clusters [OF Some]
  have "pc_Outbound (rebalancedOutboundClusters ?q) = pc_Outbound ?q"
    unfolding rebalance_clusters [OF q] q
    by (simp add: gmap_map_values_comp comp_def rebalance_cluster_idem)
  moreover have "rebalancedOutboundClusters x = x\<lparr>pc_Outbound := pc_Outbound (rebalancedOutboundClusters x)\<rparr>" for x
    by (simp add: rebalancedOutboundClusters_def split: option.split)
  ultimately show ?thesis by (metis PipyConf.surjective PipyConf.update_convs)
qed (simp add: rebalancedOutboundClusters_def)

text \<open>Endpoints with different IPv4 addresses or ports never overwrite each other in a cluster
  config: their keys differ.\<close>

theorem ipv4_endpoint_keys:
  assumes "ipv4_octets bs" and "ipv4_octets cs"
  shows "endpoint_host_port (ip_string (ipv4_mapped bs)) p = endpoint_host_port (ip_string (ipv4_mapped cs)) q \<longleftrightarrow>
     bs = cs \<and> p = q"
proof -
  have len: "length bs = 4" "length cs = 4" using assms by (simp_all add: ipv4_octets_def)
  have "ipv4_string bs = ipv4_string cs \<and> fmt_word p = fmt_word q"
    if "ipv4_string bs @ CHR '':'' # fmt_word p = ipv4_string cs @ CHR '':'' # fmt_word q"
  proof -
    have no: "CHR '':'' \<notin> set (fmt_word w)" for w :: uint16 by (simp add: fmt_word_def itoa_no)
    from that have "split_on (CHR '':'') (ipv4_string bs @ CHR '':'' # fmt_word p) =
        split_on (CHR '':'') (ipv4_string cs @ CHR '':'' # fmt_word q)" by simp
    then show ?thesis by (simp add: split_on_append ipv4_string_no_colon split_on_notin no)
  qed
  then show ?thesis
    using ipv4_string_inj [OF assms] by (auto simp: ipv4_host_port len fmt_word_def word_unat_eq_iff)
qed

theorem ipv4_endpoint_keys_witness:
  "endpoint_host_port (ip_string (ipv4_mapped [10, 0, 0, 1])) 80 \<noteq>
   endpoint_host_port (ip_string (ipv4_mapped [10, 0, 0, 1])) 8080"
  using ipv4_endpoint_keys [of "[10, 0, 0, 1]" "[10, 0, 0, 1]" 80 8080] by (simp add: ipv4_octets_def)

end
