(* ===== verification/KubeClient.thy ===== *)
theory KubeClient
  imports K8sTypes
begin

text \<open>
  \<open>pkg/ecnet/k8s\<close>: the native-resource controller (\<open>client.go\<close>) and the hostname utilities
  (\<open>util.go\<close>). The controller's state is its informer collection, which only the informers
  change.
\<close>

section \<open>util.go\<close>

text \<open>\<open>SetTrustDomain\<close> updates the package variable \<open>trustDomain\<close>; the functions take it as an
  argument.\<close>

definition SetTrustDomain :: "string \<Rightarrow> string \<Rightarrow> string" where
  "SetTrustDomain trustDomain domain = (if 0 < length domain then domain else trustDomain)"

definition with_port :: "string \<Rightarrow> uint16 \<Rightarrow> string" where
  "with_port host port = host @ '':'' @ fmt_word port"

text \<open>The loop over the segments of the trust domain: the hostname grows by each segment.\<close>

fun trust_domain_hostnames :: "string \<Rightarrow> uint16 \<Rightarrow> string list \<Rightarrow> string list" where
  "trust_domain_hostnames hostname port [] = []"
| "trust_domain_hostnames hostname port (seg # segs) =
     (if seg = [] then trust_domain_hostnames hostname port segs
      else let hostname = hostname @ ''.'' @ seg
           in hostname # with_port hostname port # trust_domain_hostnames hostname port segs)"

definition GetHostnamesForService :: "string \<Rightarrow> MeshService \<Rightarrow> bool \<Rightarrow> string list" where
  "GetHostnamesForService trustDomain svc localNamespace =
     (let name = ms_Name svc; port = ms_Port svc;
          nn = name @ ''.'' @ ms_Namespace svc; nns = nn @ ''.svc''
      in (if localNamespace then [name, with_port name port] else []) @
         [nn, with_port nn port, nns, with_port nns port] @
         trust_domain_hostnames nns port (split_on (CHR ''.'') trustDomain))"

text \<open>\<open>splitHostName\<close> takes an optional controller, of which it uses \<open>GetNamespace\<close>.\<close>

definition splitHostName :: "(string \<Rightarrow> Namespace option) option \<Rightarrow> string \<Rightarrow> string \<times> string" where
  "splitHostName c host =
     (case split_on (CHR ''.'') (hd (split_on (CHR '':'') host)) of
        [s] \<Rightarrow> (s, [])
      | [p1, p2] \<Rightarrow>
          (case c of
             None \<Rightarrow> (p1, [])
           | Some getNamespace \<Rightarrow> if getNamespace p2 = None then (p2, p1) else (p1, []))
      | [s0, s1, tld] \<Rightarrow>
          (case c of
             None \<Rightarrow> if tld = ''svc'' then (s0, []) else (s1, s0)
           | Some getNamespace \<Rightarrow> if getNamespace tld = None then (s0, []) else (s1, s0))
      | [s0, s1, s2, s3] \<Rightarrow> (s1, s0)
      | [s0, s1, s2, s3, s4] \<Rightarrow> (s0, [])
      | [s0, s1, s2, s3, s4, s5] \<Rightarrow> (s1, s0)
      | s # _ \<Rightarrow> (s, []))"

definition GetServiceFromHostname :: "(string \<Rightarrow> Namespace option) option \<Rightarrow> string \<Rightarrow> string" where
  "GetServiceFromHostname c host = fst (splitHostName c host)"

definition GetSubdomainFromHostname :: "(string \<Rightarrow> Namespace option) option \<Rightarrow> string \<Rightarrow> string" where
  "GetSubdomainFromHostname c host = snd (splitHostName c host)"

definition IsHeadlessService :: "Service \<Rightarrow> bool" where
  "IsHeadlessService svc \<longleftrightarrow> length (svc_ClusterIP svc) = 0 \<or> svc_ClusterIP svc = ClusterIPNone"

section \<open>client.go: lookups and listings\<close>

definition k8s_GetService :: "InformerCollection \<Rightarrow> MeshService \<Rightarrow> Service option" where
  "k8s_GetService ic svc = found (GetByKey (ic_Service ic) (NamespacedKey svc))"

definition k8s_ListServices :: "InformerCollection \<Rightarrow> Service list" where
  "k8s_ListServices ic =
     filter (\<lambda>svc. IsMonitoredNamespace ic (svc_Namespace svc)) (List_objects (ic_Service ic))"

definition k8s_ListServiceAccounts :: "InformerCollection \<Rightarrow> ServiceAccount list" where
  "k8s_ListServiceAccounts ic =
     filter (\<lambda>sa. IsMonitoredNamespace ic (sacc_Namespace sa)) (List_objects (ic_ServiceAccount ic))"

definition k8s_ListMonitoredNamespaces :: "InformerCollection \<Rightarrow> string list" where
  "k8s_ListMonitoredNamespaces ic = map ns_Name (List_objects (ic_Namespace ic))"

definition k8s_GetNamespace :: "InformerCollection \<Rightarrow> string \<Rightarrow> Namespace option" where
  "k8s_GetNamespace ic ns = found (GetByKey (ic_Namespace ic) ns)"

definition k8s_ListPods :: "InformerCollection \<Rightarrow> Pod list" where
  "k8s_ListPods ic =
     filter (\<lambda>pod. IsMonitoredNamespace ic (pod_Namespace pod)) (List_objects (ic_Pod ic))"

definition k8s_GetEndpoints :: "InformerCollection \<Rightarrow> MeshService \<Rightarrow> unit + Endpoints option" where
  "k8s_GetEndpoints ic svc = GetByKey (ic_Endpoints ic) (NamespacedKey svc)"

text \<open>\<open>labels.Set(sel).AsSelector().Matches(labels)\<close> is the label library's; it is an argument.\<close>

datatype k8s_error = StoreError | ServiceNotFound | EndpointNotFound | PortNameNotFound

definition ListServiceIdentitiesForService ::
  "((string, string) gomap \<Rightarrow> (string, string) gomap \<Rightarrow> bool) \<Rightarrow> InformerCollection \<Rightarrow>
     MeshService \<Rightarrow> k8s_error + K8sServiceAccount list" where
  "ListServiceIdentitiesForService matches ic svc =
     (case k8s_GetService ic svc of
        None \<Rightarrow> Inl ServiceNotFound
      | Some k8sSvc \<Rightarrow>
          Inr (fold (\<lambda>pod svcAccountsSet.
                 if length (entries (svc_Selector k8sSvc)) = 0 then svcAccountsSet
                 else if matches (svc_Selector k8sSvc) (pod_Labels pod)
                 then add_new \<lparr>sa_Namespace = pod_Namespace pod, sa_Name = pod_ServiceAccountName pod\<rparr>
                        svcAccountsSet
                 else svcAccountsSet) (k8s_ListPods ic) []))"

text \<open>\<open>strconv.ParseBool\<close>, with \<open>false\<close> on a syntax error.\<close>

definition parse_bool :: "string \<Rightarrow> bool" where
  "parse_bool s \<longleftrightarrow> s \<in> {''1'', ''t'', ''T'', ''TRUE'', ''true'', ''True''}"

definition IsMetricsEnabled :: "Pod \<Rightarrow> bool" where
  "IsMetricsEnabled pod =
     (case gmap_get (pod_Annotations pod) PrometheusScrapeAnnotation of
        None \<Rightarrow> False | Some a \<Rightarrow> parse_bool a)"

section \<open>client.go: from Kubernetes services to mesh services\<close>

fun GetTargetPortFromEndpoints_loop :: "string \<Rightarrow> EndpointSubset list \<Rightarrow> uint16" where
  "GetTargetPortFromEndpoints_loop endpointName [] = 0"
| "GetTargetPortFromEndpoints_loop endpointName (sub # subsets) =
     (case find (\<lambda>port. endpointName = [] \<or> length (es_Ports sub) = 1 \<or> ep_Name port = endpointName)
             (es_Ports sub) of
        Some port \<Rightarrow> word_of_int (ep_Port port)
      | None \<Rightarrow> GetTargetPortFromEndpoints_loop endpointName subsets)"

definition GetTargetPortFromEndpoints :: "string \<Rightarrow> Endpoints \<Rightarrow> uint16" where
  "GetTargetPortFromEndpoints endpointName endpoints =
     GetTargetPortFromEndpoints_loop endpointName (eps_Subsets endpoints)"

text \<open>The protocol of a service port: its \<open>appProtocol\<close>, else the protocol that prefixes its name,
  else HTTP. Both \<open>ServiceToMeshServices\<close> functions have this code.\<close>

definition port_protocol :: "ServicePort \<Rightarrow> string" where
  "port_protocol portSpec =
     (let protocol = (case find (\<lambda>p. has_prefix (sp_Name portSpec) (p @ ''-'')) SupportedProtocolsInMesh of
                        Some p \<Rightarrow> p | None \<Rightarrow> ProtocolHTTP)
      in case sp_AppProtocol portSpec of Some p \<Rightarrow> p | None \<Rightarrow> protocol)"

text \<open>The body of the loop over the ports of \<open>ServiceToMeshServices\<close>: the mesh services of one
  port. A headless service yields one per endpoint with a hostname.\<close>

definition port_mesh_services ::
  "(MeshService \<Rightarrow> unit + Endpoints option) \<Rightarrow> Service \<Rightarrow> ServicePort \<Rightarrow> MeshService list" where
  "port_mesh_services getEndpoints svc portSpec =
     (let meshSvc = MeshService_zero\<lparr>ms_Namespace := svc_Namespace svc, ms_Name := svc_Name svc,
                      ms_Port := word_of_int (sp_Port portSpec), ms_Protocol := port_protocol portSpec\<rparr>;
          endpoints = found (getEndpoints meshSvc);
          meshSvc = (case endpoints of
                       None \<Rightarrow> meshSvc
                     | Some eps \<Rightarrow> meshSvc\<lparr>ms_TargetPort := GetTargetPortFromEndpoints (sp_Name portSpec) eps\<rparr>)
      in if \<not> IsHeadlessService svc \<or> endpoints = None then [meshSvc]
         else let added = [meshSvc\<lparr>ms_Name := ea_Hostname address @ ''.'' @ svc_Name svc\<rparr>.
                             sub \<leftarrow> eps_Subsets (the endpoints),
                             address \<leftarrow> es_Addresses sub,
                             ea_Hostname address \<noteq> []]
              in if added = [] then [meshSvc] else added)"

definition ServiceToMeshServices ::
  "(MeshService \<Rightarrow> unit + Endpoints option) \<Rightarrow> Service \<Rightarrow> MeshService list" where
  "ServiceToMeshServices getEndpoints svc = concat (map (port_mesh_services getEndpoints svc) (svc_Ports svc))"

definition NamespacedName_String :: "string \<times> string \<Rightarrow> string" where
  "NamespacedName_String nn = fst nn @ ''/'' @ snd nn"

definition GetTargetPortForServicePort ::
  "InformerCollection \<Rightarrow> string \<times> string \<Rightarrow> uint16 \<Rightarrow> k8s_error + uint16" where
  "GetTargetPortForServicePort ic namespacedSvc port =
     (case GetByKey (ic_Service ic) (NamespacedName_String namespacedSvc) of
        Inl _ \<Rightarrow> Inl StoreError
      | Inr None \<Rightarrow> Inl ServiceNotFound
      | Inr (Some svc) \<Rightarrow>
          (let portName = (case find (\<lambda>ps. word_of_int (sp_Port ps) = port) (svc_Ports svc) of
                             Some ps \<Rightarrow> sp_Name ps | None \<Rightarrow> [])
           in case GetByKey (ic_Endpoints ic) (NamespacedName_String namespacedSvc) of
                Inl _ \<Rightarrow> Inl StoreError
              | Inr None \<Rightarrow> Inl EndpointNotFound
              | Inr (Some endpoint) \<Rightarrow>
                  (case find (\<lambda>p. ep_Name p = portName) (concat (map es_Ports (eps_Subsets endpoint))) of
                     Some p \<Rightarrow> Inr (word_of_int (ep_Port p))
                   | None \<Rightarrow> Inl PortNameNotFound)))"

section \<open>Hostnames\<close>

text \<open>\<open>splitHostName\<close> on a hostname with or without a port sees the components of the host.\<close>

definition host_components :: "string \<Rightarrow> string list" where
  "host_components host = split_on (CHR ''.'') (hd (split_on (CHR '':'') host))"

lemma host_components_port [simp]:
  "CHR '':'' \<notin> set host \<Longrightarrow> host_components (with_port host port) = split_on (CHR ''.'') host"
  by (simp add: host_components_def with_port_def split_on_append)

lemma host_components_plain [simp]:
  "CHR '':'' \<notin> set host \<Longrightarrow> host_components host = split_on (CHR ''.'') host"
  by (simp add: host_components_def split_on_notin)

lemma GetHostnamesForService_cluster_local:
  "GetHostnamesForService ''cluster.local'' svc localNamespace =
     (let name = ms_Name svc; nn = name @ ''.'' @ ms_Namespace svc; p = ms_Port svc
      in (if localNamespace then [name, with_port name p] else []) @
         [nn, with_port nn p, nn @ ''.svc'', with_port (nn @ ''.svc'') p,
          nn @ ''.svc.cluster'', with_port (nn @ ''.svc.cluster'') p,
          nn @ ''.svc.cluster.local'', with_port (nn @ ''.svc.cluster.local'') p])"
  by (simp add: GetHostnamesForService_def Let_def)

lemma split_on_FQDN:
  assumes "CHR ''.'' \<notin> set name" and "CHR ''.'' \<notin> set ns"
  shows "split_on (CHR ''.'') (name @ CHR ''.'' # ns) = [name, ns]"
    and "split_on (CHR ''.'') (name @ CHR ''.'' # ns @ CHR ''.'' # rest) = name # ns # split_on (CHR ''.'') rest"
  using assms by (simp_all add: split_on_append split_on_notin)

text \<open>The components of a published hostname: the service, and what follows it.\<close>

lemma hostname_components:
  assumes "CHR ''.'' \<notin> set (ms_Name svc)" and "CHR ''.'' \<notin> set (ms_Namespace svc)"
    and "CHR '':'' \<notin> set (ms_Name svc)" and "CHR '':'' \<notin> set (ms_Namespace svc)"
    and "h \<in> set (GetHostnamesForService ''cluster.local'' svc localNamespace)"
  shows "\<exists>tl. host_components h = ms_Name svc # tl \<and>
    tl \<in> {[], [ms_Namespace svc], [ms_Namespace svc, ''svc''], [ms_Namespace svc, ''svc'', ''cluster''],
      [ms_Namespace svc, ''svc'', ''cluster'', ''local'']} \<and>
    (tl = [ms_Namespace svc, ''svc'', ''cluster''] \<longleftrightarrow>
       h = ms_Name svc @ ''.'' @ ms_Namespace svc @ ''.svc.cluster'' \<or>
       h = with_port (ms_Name svc @ ''.'' @ ms_Namespace svc @ ''.svc.cluster'') (ms_Port svc))"
proof -
  let ?nn = "ms_Name svc @ CHR ''.'' # ms_Namespace svc"
  have comps: "host_components h = split_on (CHR ''.'') host" if "h = host \<or> h = with_port host (ms_Port svc)"
    and "CHR '':'' \<notin> set host" for host
    using that by auto
  have four: "(h = ?nn @ ''.svc.cluster'' \<or> h = with_port (?nn @ ''.svc.cluster'') (ms_Port svc)) \<Longrightarrow>
      host_components h = [ms_Name svc, ms_Namespace svc, ''svc'', ''cluster'']"
    using assms(1-4) by (subst comps [of "?nn @ ''.svc.cluster''"]) (auto simp: split_on_FQDN)
  consider "h = ms_Name svc \<or> h = with_port (ms_Name svc) (ms_Port svc)"
    | "h = ?nn \<or> h = with_port ?nn (ms_Port svc)"
    | "h = ?nn @ ''.svc'' \<or> h = with_port (?nn @ ''.svc'') (ms_Port svc)"
    | "h = ?nn @ ''.svc.cluster'' \<or> h = with_port (?nn @ ''.svc.cluster'') (ms_Port svc)"
    | "h = ?nn @ ''.svc.cluster.local'' \<or> h = with_port (?nn @ ''.svc.cluster.local'') (ms_Port svc)"
    using assms(5) by (auto simp: GetHostnamesForService_cluster_local Let_def split: if_splits)
  then have "host_components h \<in> (#) (ms_Name svc) ` {[], [ms_Namespace svc], [ms_Namespace svc, ''svc''],
      [ms_Namespace svc, ''svc'', ''cluster''], [ms_Namespace svc, ''svc'', ''cluster'', ''local'']} \<and>
    (host_components h = [ms_Name svc, ms_Namespace svc, ''svc'', ''cluster''] \<longrightarrow>
      h = ?nn @ ''.svc.cluster'' \<or> h = with_port (?nn @ ''.svc.cluster'') (ms_Port svc))"
  proof cases
    case 1 then show ?thesis using comps [OF 1] assms(1-4) by (simp add: split_on_notin)
  next
    case 2 then show ?thesis using comps [OF 2] assms(1-4) by (simp add: split_on_FQDN)
  next
    case 3 then show ?thesis using comps [OF 3] assms(1-4) by (simp add: split_on_FQDN)
  next
    case 4 then show ?thesis using four [OF 4] by simp
  next
    case 5 then show ?thesis using comps [OF 5] assms(1-4) by (simp add: split_on_FQDN)
  qed
  then show ?thesis using four by fastforce
qed

section \<open>ServiceToMeshServices\<close>

lemma port_mesh_services_nonempty: "port_mesh_services getEndpoints svc portSpec \<noteq> []"
  by (simp add: port_mesh_services_def Let_def)

lemma port_mesh_services_in:
  assumes "ms \<in> set (port_mesh_services getEndpoints svc portSpec)"
  shows "ms_Namespace ms = svc_Namespace svc" and "ms_Port ms = word_of_int (sp_Port portSpec)"
    and "ms_Protocol ms = port_protocol portSpec" and "ms_ServiceImportUID ms = []"
    and "ms_Name ms = svc_Name svc \<or>
      (\<exists>h. IsHeadlessService svc \<and> h \<noteq> [] \<and> ms_Name ms = h @ ''.'' @ svc_Name svc)"
  using assms
  by (auto simp: port_mesh_services_def Let_def MeshService_zero_def split: if_splits option.splits)

lemma port_mesh_services_not_headless:
  "\<not> IsHeadlessService svc \<Longrightarrow> length (port_mesh_services getEndpoints svc portSpec) = 1"
  by (simp add: port_mesh_services_def Let_def)

lemma GetTargetPortFromEndpoints_loop_in:
  "GetTargetPortFromEndpoints_loop n subs \<noteq> 0 \<Longrightarrow>
     \<exists>sub \<in> set subs. \<exists>p \<in> set (es_Ports sub).
       (n = [] \<or> length (es_Ports sub) = 1 \<or> ep_Name p = n) \<and>
       GetTargetPortFromEndpoints_loop n subs = word_of_int (ep_Port p)"
proof (induction subs)
  case (Cons sub subs)
  show ?case
  proof (cases "find (\<lambda>port. n = [] \<or> length (es_Ports sub) = 1 \<or> ep_Name port = n) (es_Ports sub)")
    case None
    with Cons show ?thesis by auto
  next
    case (Some p)
    with find_SomeD [OF Some] show ?thesis by auto
  qed
qed simp

text \<open>When every subset names the port, the two ways the client resolves a target port agree: both
  take the named port of the first subset.\<close>

lemma find_concat:
  "find P (concat xss) = (case find (\<lambda>xs. find P xs \<noteq> None) xss of None \<Rightarrow> None | Some xs \<Rightarrow> find P xs)"
proof (induction xss)
  case (Cons xs xss)
  have "find P (xs @ ys) = (case find P xs of None \<Rightarrow> find P ys | Some x \<Rightarrow> Some x)" for ys
    by (induction xs) auto
  with Cons show ?case by (auto split: option.splits)
qed simp

definition subset_names_port :: "string \<Rightarrow> EndpointSubset \<Rightarrow> bool" where
  "subset_names_port n sub \<longleftrightarrow>
     (\<exists>p \<in> set (es_Ports sub). ep_Name p = n) \<and> (n = [] \<longrightarrow> length (es_Ports sub) = 1)"

lemma subset_names_port_find:
  assumes "subset_names_port n sub"
  shows "find (\<lambda>port. n = [] \<or> length (es_Ports sub) = 1 \<or> ep_Name port = n) (es_Ports sub) =
     find (\<lambda>port. ep_Name port = n) (es_Ports sub)"
    and "find (\<lambda>port. ep_Name port = n) (es_Ports sub) \<noteq> None"
proof -
  show "find (\<lambda>port. ep_Name port = n) (es_Ports sub) \<noteq> None"
    using assms by (auto simp: subset_names_port_def find_None_iff)
  show "find (\<lambda>port. n = [] \<or> length (es_Ports sub) = 1 \<or> ep_Name port = n) (es_Ports sub) =
     find (\<lambda>port. ep_Name port = n) (es_Ports sub)"
  proof (cases "length (es_Ports sub) = 1")
    case True
    then obtain p where "es_Ports sub = [p]" by (auto simp: length_Suc_conv)
    with assms show ?thesis by (auto simp: subset_names_port_def)
  qed (use assms in \<open>simp add: subset_names_port_def\<close>)
qed

lemma GetTargetPortFromEndpoints_named:
  assumes "eps_Subsets eps \<noteq> []" and "\<forall>sub \<in> set (eps_Subsets eps). subset_names_port n sub"
  shows "\<exists>p. find (\<lambda>p. ep_Name p = n) (concat (map es_Ports (eps_Subsets eps))) = Some p \<and>
     GetTargetPortFromEndpoints n eps = word_of_int (ep_Port p)"
proof (cases "eps_Subsets eps")
  case (Cons sub subs)
  with assms(2) have "subset_names_port n sub" by simp
  then show ?thesis
    using subset_names_port_find [of n sub] Cons
    by (auto simp: GetTargetPortFromEndpoints_def find_concat simp del: concat.simps)
qed (use assms(1) in simp)

section \<open>Properties\<close>

text \<open>When every subset of a service's endpoints names the port of the service, the target port that
  \<open>ServiceToMeshServices\<close> takes from the endpoints is the one \<open>GetTargetPortForServicePort\<close> returns.\<close>

theorem target_port_lookups_agree:
  assumes "GetByKey (ic_Service ic) (NamespacedName_String nn) = Inr (Some svc)"
    and "GetByKey (ic_Endpoints ic) (NamespacedName_String nn) = Inr (Some eps)"
    and "find (\<lambda>ps. word_of_int (sp_Port ps) = port) (svc_Ports svc) = Some portSpec"
    and "eps_Subsets eps \<noteq> []"
    and "\<forall>sub \<in> set (eps_Subsets eps). subset_names_port (sp_Name portSpec) sub"
  shows "GetTargetPortForServicePort ic nn port = Inr (GetTargetPortFromEndpoints (sp_Name portSpec) eps)"
  using GetTargetPortFromEndpoints_named [OF assms(4,5)] assms(1-3)
  by (auto simp: GetTargetPortForServicePort_def)

theorem target_port_lookups_agree_witness:
  "GetTargetPortForServicePort
     \<lparr>ic_Namespace = None,
      ic_Service = Some (list_store (\<lambda>_. ''ns/s'')
        [\<lparr>svc_UID = [], svc_Namespace = ''ns'', svc_Name = ''s'', svc_Type = [], svc_Selector = None, svc_ClusterIP = [],
          svc_ClusterIPs = [], svc_Ports = [\<lparr>sp_Name = ''p'', sp_Protocol = [], sp_AppProtocol = None, sp_Port = 80, sp_TargetPort = 0\<rparr>]\<rparr>]),
      ic_Pod = None,
      ic_Endpoints = Some (list_store (\<lambda>_. ''ns/s'')
        [\<lparr>eps_Namespace = ''ns'', eps_Name = ''s'', eps_Annotations = None, eps_Subsets = [\<lparr>es_Addresses = [],
          es_Ports = [\<lparr>ep_Name = ''q'', ep_Protocol = [], ep_AppProtocol = None, ep_Port = 9\<rparr>,
                      \<lparr>ep_Name = ''p'', ep_Protocol = [], ep_AppProtocol = None, ep_Port = 8080\<rparr>]\<rparr>]\<rparr>]),
      ic_ServiceAccount = None, ic_ServiceImport = None, ic_GlobalTrafficPolicy = None, ic_EcnetConfig = None\<rparr> (''ns'', ''s'') 80 =
   Inr (8080 :: uint16)"
  by (subst target_port_lookups_agree
      [where portSpec = "\<lparr>sp_Name = ''p'', sp_Protocol = [], sp_AppProtocol = None, sp_Port = 80, sp_TargetPort = 0\<rparr>"])
    (auto simp: GetByKey_def list_store_def NamespacedName_String_def subset_names_port_def GetTargetPortFromEndpoints_def)

text \<open>C18. Every mesh service that \<open>ServiceToMeshServices\<close> makes of a Kubernetes service belongs to that
  service: it has its namespace, a port of it with that port's protocol, no import UID, and its
  lookup key is the key of the service. A service with a cluster address yields exactly one per
  port; and every port yields at least one.\<close>

theorem mesh_services_of_service:
  assumes "CHR ''.'' \<notin> set (svc_Name svc)"
    and hostnames: "\<forall>m. \<forall>eps. found (getEndpoints m) = Some eps \<longrightarrow>
      (\<forall>sub \<in> set (eps_Subsets eps). \<forall>a \<in> set (es_Addresses sub). CHR ''.'' \<notin> set (ea_Hostname a))"
  shows "(\<forall>ms \<in> set (ServiceToMeshServices getEndpoints svc).
      NamespacedKey ms = svc_Namespace svc @ ''/'' @ svc_Name svc \<and> ms_ServiceImportUID ms = [] \<and>
      (\<exists>p \<in> set (svc_Ports svc). ms_Port ms = word_of_int (sp_Port p) \<and> ms_Protocol ms = port_protocol p)) \<and>
    (\<forall>p \<in> set (svc_Ports svc). \<exists>ms \<in> set (ServiceToMeshServices getEndpoints svc). ms_Port ms = word_of_int (sp_Port p)) \<and>
    (\<not> IsHeadlessService svc \<longrightarrow> length (ServiceToMeshServices getEndpoints svc) = length (svc_Ports svc))"
proof (intro conjI ballI impI)
  fix ms assume "ms \<in> set (ServiceToMeshServices getEndpoints svc)"
  then obtain p where p: "p \<in> set (svc_Ports svc)" "ms \<in> set (port_mesh_services getEndpoints svc p)"
    by (auto simp: ServiceToMeshServices_def)
  note facts = port_mesh_services_in [OF p(2)]
  have "ProviderKey ms = svc_Name svc"
    using p(2) assms
    by (auto simp: port_mesh_services_def MeshService_zero_def Let_def ProviderKey_plain ProviderKey_sub
        split: if_splits option.splits)
  with facts show "NamespacedKey ms = svc_Namespace svc @ ''/'' @ svc_Name svc" by (simp add: NamespacedKey_def)
  show "ms_ServiceImportUID ms = []" by (rule facts(4))
  show "\<exists>p \<in> set (svc_Ports svc). ms_Port ms = word_of_int (sp_Port p) \<and> ms_Protocol ms = port_protocol p"
    using p(1) facts by blast
next
  fix p assume p: "p \<in> set (svc_Ports svc)"
  obtain ms where "ms \<in> set (port_mesh_services getEndpoints svc p)"
    using port_mesh_services_nonempty [of getEndpoints svc p] by (metis list.set_intros(1) neq_Nil_conv)
  with p show "\<exists>ms \<in> set (ServiceToMeshServices getEndpoints svc). ms_Port ms = word_of_int (sp_Port p)"
    using port_mesh_services_in(2) by (fastforce simp: ServiceToMeshServices_def)
next
  assume "\<not> IsHeadlessService svc"
  from port_mesh_services_not_headless [OF this]
  have "map length (map (port_mesh_services getEndpoints svc) ps) = replicate (length ps) 1" for ps
    by (induction ps) simp_all
  then show "length (ServiceToMeshServices getEndpoints svc) = length (svc_Ports svc)"
    unfolding ServiceToMeshServices_def length_concat by (simp add: sum_list_replicate)
qed

definition sample_headless :: Service where
  "sample_headless = \<lparr>svc_UID = [], svc_Namespace = ''ns'', svc_Name = ''db'', svc_Type = [], svc_Selector = None,
     svc_ClusterIP = ''None'', svc_ClusterIPs = [],
     svc_Ports = [\<lparr>sp_Name = ''tcp-db'', sp_Protocol = [], sp_AppProtocol = None, sp_Port = 3306, sp_TargetPort = 0\<rparr>]\<rparr>"

definition sample_headless_endpoints :: "MeshService \<Rightarrow> unit + Endpoints option" where
  "sample_headless_endpoints _ = Inr (Some \<lparr>eps_Namespace = ''ns'', eps_Name = ''db'', eps_Annotations = None,
     eps_Subsets = [\<lparr>es_Addresses = [\<lparr>ea_IP = ''10.0.0.1'', ea_Hostname = ''db-0''\<rparr>], es_Ports = []\<rparr>]\<rparr>)"

theorem mesh_services_of_service_witness:
  "\<exists>ms \<in> set (ServiceToMeshServices sample_headless_endpoints sample_headless).
     ms_Port ms = 3306 \<and> NamespacedKey ms = ''ns/db''"
proof -
  have "CHR ''.'' \<notin> set (svc_Name sample_headless)"
    and "\<forall>m. \<forall>eps. found (sample_headless_endpoints m) = Some eps \<longrightarrow>
      (\<forall>sub \<in> set (eps_Subsets eps). \<forall>a \<in> set (es_Addresses sub). CHR ''.'' \<notin> set (ea_Hostname a))"
    by (simp_all add: sample_headless_def sample_headless_endpoints_def)
  note all = mesh_services_of_service [OF this]
  have "\<exists>p \<in> set (svc_Ports sample_headless). word_of_int (sp_Port p) = (3306 :: uint16)"
    and "svc_Namespace sample_headless @ ''/'' @ svc_Name sample_headless = ''ns/db''"
    by (simp_all add: sample_headless_def)
  with all show ?thesis by metis
qed

text \<open>C19. The hostnames published for a service and the hostname parser: without a controller and with the
  default trust domain, the parser finds the service in every hostname except the one that ends in
  \<open>.svc.cluster\<close> (with or without port), where it takes the namespace for the service.\<close>

theorem hostnames_name_the_service:
  assumes "CHR ''.'' \<notin> set (ms_Name svc)" and "CHR ''.'' \<notin> set (ms_Namespace svc)"
    and "CHR '':'' \<notin> set (ms_Name svc)" and "CHR '':'' \<notin> set (ms_Namespace svc)"
    and "h \<in> set (GetHostnamesForService ''cluster.local'' svc localNamespace)"
  shows "if h = ms_Name svc @ ''.'' @ ms_Namespace svc @ ''.svc.cluster'' \<or>
          h = with_port (ms_Name svc @ ''.'' @ ms_Namespace svc @ ''.svc.cluster'') (ms_Port svc)
       then GetServiceFromHostname None h = ms_Namespace svc \<and> GetSubdomainFromHostname None h = ms_Name svc
       else GetServiceFromHostname None h = ms_Name svc \<and> GetSubdomainFromHostname None h = []"
proof -
  obtain tl where comps: "host_components h = ms_Name svc # tl"
    and tl: "tl \<in> {[], [ms_Namespace svc], [ms_Namespace svc, ''svc''], [ms_Namespace svc, ''svc'', ''cluster''],
         [ms_Namespace svc, ''svc'', ''cluster'', ''local'']}"
    and four: "tl = [ms_Namespace svc, ''svc'', ''cluster''] \<longleftrightarrow>
         h = ms_Name svc @ ''.'' @ ms_Namespace svc @ ''.svc.cluster'' \<or>
         h = with_port (ms_Name svc @ ''.'' @ ms_Namespace svc @ ''.svc.cluster'') (ms_Port svc)"
    using hostname_components [OF assms] by blast
  show ?thesis
    unfolding four [symmetric] GetServiceFromHostname_def GetSubdomainFromHostname_def splitHostName_def
      host_components_def [symmetric] comps
    using tl by auto
qed

theorem hostnames_name_the_service_witness:
  "GetServiceFromHostname None ''web.shop.svc:80'' = ''web'' \<and>
   ''web.shop.svc:80'' \<in> set (GetHostnamesForService ''cluster.local''
     (MeshService_zero\<lparr>ms_Name := ''web'', ms_Namespace := ''shop'', ms_Port := 80\<rparr>) False)"
proof -
  let ?svc = "MeshService_zero\<lparr>ms_Name := ''web'', ms_Namespace := ''shop'', ms_Port := 80\<rparr>"
  have "''web.shop.svc:80'' \<in> set (GetHostnamesForService ''cluster.local'' ?svc False)" by code_simp
  with hostnames_name_the_service [of ?svc "''web.shop.svc:80''" False] show ?thesis
    by (simp add: MeshService_zero_def with_port_def)
qed

end
