(* ===== verification/SampleCluster.thy ===== *)
theory SampleCluster
  imports K8sTypes
begin

text \<open>
  A small deployment, on which the theorems about the whole program are instantiated: a local
  service \<open>shop/web\<close> with one pod, the same service imported from two other clusters, and a global
  traffic policy for it.
\<close>

definition sample_service :: Service where
  "sample_service = \<lparr>svc_UID = ''uid-1'', svc_Namespace = ''shop'', svc_Name = ''web'',
     svc_Type = ServiceTypeClusterIP, svc_Selector = Some [(''app'', ''web'')], svc_ClusterIP = ''10.96.0.7'',
     svc_ClusterIPs = [''10.96.0.7''],
     svc_Ports = [\<lparr>sp_Name = ''http'', sp_Protocol = ''TCP'', sp_AppProtocol = None, sp_Port = 80, sp_TargetPort = 8080\<rparr>]\<rparr>"

definition sample_endpoints :: Endpoints where
  "sample_endpoints = \<lparr>eps_Namespace = ''shop'', eps_Name = ''web'', eps_Annotations = None,
     eps_Subsets = [\<lparr>es_Addresses = [\<lparr>ea_IP = ''10.0.0.1'', ea_Hostname = []\<rparr>],
       es_Ports = [\<lparr>ep_Name = ''http'', ep_Protocol = ''TCP'', ep_AppProtocol = None, ep_Port = 8080\<rparr>]\<rparr>]\<rparr>"

definition sample_import :: ServiceImport where
  "sample_import = \<lparr>si_UID = ''uid-2'', si_Namespace = ''shop'', si_Name = ''web'',
     si_Ports = [\<lparr>ip_Name = ''http'', ip_Protocol = ''TCP'', ip_AppProtocol = None, ip_Port = 80,
       ip_Endpoints =
        [\<lparr>ie_Target = \<lparr>tgt_Host = ''gw1'', tgt_IP = ''192.168.1.5'', tgt_Port = 8080, tgt_Path = ''/web''\<rparr>, ie_ClusterKey = ''c1''\<rparr>,
         \<lparr>ie_Target = \<lparr>tgt_Host = ''gw2'', tgt_IP = ''192.168.2.5'', tgt_Port = 8080, tgt_Path = ''/web''\<rparr>, ie_ClusterKey = ''c2''\<rparr>]\<rparr>],
     si_ServiceAccountName = ''*''\<rparr>"

definition sample_policy :: "string \<Rightarrow> GlobalTrafficPolicy" where
  "sample_policy lbType = \<lparr>gtp_Namespace = ''shop'', gtp_Name = ''web'', gtp_LbType = lbType,
     gtp_LoadBalanceTarget = [\<lparr>tt_ClusterKey = ''c1'', tt_Weight = Some 30\<rparr>]\<rparr>"

definition sample_ic :: "string \<Rightarrow> InformerCollection" where
  "sample_ic lbType =
     \<lparr>ic_Namespace = None,
      ic_Service = Some (list_store (\<lambda>s. svc_Namespace s @ ''/'' @ svc_Name s) [sample_service]),
      ic_Pod = None,
      ic_Endpoints = Some (list_store (\<lambda>e. eps_Namespace e @ ''/'' @ eps_Name e) [sample_endpoints]),
      ic_ServiceAccount = None,
      ic_ServiceImport = Some (list_store (\<lambda>i. si_Namespace i @ ''/'' @ si_Name i) [sample_import]),
      ic_GlobalTrafficPolicy = Some (list_store (\<lambda>p. gtp_Namespace p @ ''/'' @ gtp_Name p) [sample_policy lbType]),
      ic_EcnetConfig = None\<rparr>"

end
