(* ===== verification/Multicluster.thy ===== *)
theory Multicluster
  imports KubeClient SampleCluster
begin

text \<open>
  \<open>pkg/ecnet/service/multicluster\<close>: the controller of the flomesh.io resources. A
  \<open>ServiceImport\<close> names the endpoints a service has in other clusters; a \<open>GlobalTrafficPolicy\<close>
  of the same name decides whether, and with which weights, they are used. Without a policy a
  service is local and its imported endpoints are invisible.
\<close>

section \<open>traffic_policy.go\<close>

definition getGlobalTrafficPolicy :: "InformerCollection \<Rightarrow> MeshService \<Rightarrow> GlobalTrafficPolicy option" where
  "getGlobalTrafficPolicy ic svc = found (GetByKey (ic_GlobalTrafficPolicy ic) (NamespacedKey svc))"

definition isLocality :: "InformerCollection \<Rightarrow> MeshService \<Rightarrow> bool" where
  "isLocality ic svc =
     (case getGlobalTrafficPolicy ic svc of
        Some policy \<Rightarrow> gtp_LbType policy = LocalityLbType
      | None \<Rightarrow> True)"

text \<open>The weight of a load balance target: \<open>*lbt.Weight\<close>, or 0 when it has none.\<close>

definition target_weight :: "TrafficTarget \<Rightarrow> int" where
  "target_weight lbt = (case tt_Weight lbt of Some w \<Rightarrow> w | None \<Rightarrow> 0)"

definition getServiceTrafficPolicy ::
  "InformerCollection \<Rightarrow> MeshService \<Rightarrow> string \<times> (string, int) gomap" where
  "getServiceTrafficPolicy ic svc =
     (case getGlobalTrafficPolicy ic svc of
        Some policy \<Rightarrow>
          (gtp_LbType policy,
           if 0 < length (gtp_LoadBalanceTarget policy)
           then fold (\<lambda>lbt clusterKeys. gmap_put clusterKeys (tt_ClusterKey lbt) (target_weight lbt))
                  (gtp_LoadBalanceTarget policy) gmap_empty
           else None)
      | None \<Rightarrow> (LocalityLbType, None))"

record LbWeight =
  lbw_aa :: bool
  lbw_fo :: bool
  lbw_lc :: bool
  lbw_weight :: int
  lbw_clusterKeys :: "(string, int) gomap"

definition LbWeight_zero :: LbWeight where
  "LbWeight_zero = \<lparr>lbw_aa = False, lbw_fo = False, lbw_lc = False, lbw_weight = 0, lbw_clusterKeys = None\<rparr>"

definition GetLbWeightForService :: "InformerCollection \<Rightarrow> MeshService \<Rightarrow> LbWeight" where
  "GetLbWeightForService ic svc =
     (case getGlobalTrafficPolicy ic svc of
        None \<Rightarrow> LbWeight_zero\<lparr>lbw_lc := True\<rparr>
      | Some policy \<Rightarrow>
          if gtp_LbType policy = ActiveActiveLbType then
            (if length (gtp_LoadBalanceTarget policy) = 0
             then LbWeight_zero\<lparr>lbw_aa := True, lbw_weight := ClusterWeightAcceptAll\<rparr>
             else case find (\<lambda>lbt. ms_ServiceImportUID svc = tt_ClusterKey lbt) (gtp_LoadBalanceTarget policy) of
                    None \<Rightarrow> LbWeight_zero\<lparr>lbw_aa := True, lbw_clusterKeys := gmap_empty\<rparr>
                  | Some lbt \<Rightarrow>
                      LbWeight_zero\<lparr>lbw_aa := True, lbw_weight := target_weight lbt,
                        lbw_clusterKeys := gmap_put gmap_empty (tt_ClusterKey lbt) (target_weight lbt)\<rparr>)
          else if gtp_LbType policy = FailOverLbType then
            LbWeight_zero\<lparr>lbw_fo := True, lbw_weight := ClusterWeightFailOver,
              lbw_clusterKeys := fold (\<lambda>lbt clusterKeys. gmap_put clusterKeys (tt_ClusterKey lbt) ClusterWeightFailOver)
                (gtp_LoadBalanceTarget policy) gmap_empty\<rparr>
          else LbWeight_zero\<lparr>lbw_lc := True\<rparr>)"

section \<open>service_import.go\<close>

definition Service_zero :: Service where
  "Service_zero = \<lparr>svc_UID = [], svc_Namespace = [], svc_Name = [], svc_Type = [], svc_Selector = None,
     svc_ClusterIP = [], svc_ClusterIPs = [], svc_Ports = []\<rparr>"

definition target_svc_port :: "ImportPort \<Rightarrow> ImportEndpoint \<Rightarrow> ServicePort" where
  "target_svc_port port endpoint =
     \<lparr>sp_Name = ip_Name port, sp_Protocol = ip_Protocol port, sp_AppProtocol = ip_AppProtocol port,
      sp_Port = ip_Port port, sp_TargetPort = tgt_Port (ie_Target endpoint)\<rparr>"

definition import_service :: "ServiceImport \<Rightarrow> string \<Rightarrow> Service" where
  "import_service importedService uid =
     Service_zero\<lparr>svc_UID := uid, svc_Namespace := si_Namespace importedService,
       svc_Name := si_Name importedService, svc_Type := ServiceTypeClusterIP,
       svc_Selector := gmap_put gmap_empty ''app'' (si_Name importedService)\<rparr>"

definition getServiceImport :: "InformerCollection \<Rightarrow> MeshService \<Rightarrow> ServiceImport option" where
  "getServiceImport ic svc = found (GetByKey (ic_ServiceImport ic) (NamespacedKey svc))"

definition mc_GetService :: "InformerCollection \<Rightarrow> MeshService \<Rightarrow> Service option" where
  "mc_GetService ic svc =
     (if isLocality ic svc then None
      else case getServiceImport ic svc of
        None \<Rightarrow> None
      | Some importedService \<Rightarrow>
          if length (si_Ports importedService) = 0 then None
          else case find (\<lambda>port. equal_fold (si_Name importedService) (ms_Name svc) \<and>
                        word_of_int (ip_Port port) = ms_Port svc \<and> 0 < length (ip_Endpoints port))
                  (si_Ports importedService) of
            None \<Rightarrow> None
          | Some port \<Rightarrow>
              (let targetSvc = import_service importedService (si_UID importedService)
               in case find (\<lambda>endpoint. ms_TargetPort svc = word_of_int (tgt_Port (ie_Target endpoint)))
                         (ip_Endpoints port) of
                    None \<Rightarrow> Some targetSvc
                  | Some endpoint \<Rightarrow>
                      Some (targetSvc\<lparr>svc_ClusterIP := tgt_IP (ie_Target endpoint),
                        svc_ClusterIPs := [tgt_IP (ie_Target endpoint)],
                        svc_Ports := [target_svc_port port endpoint]\<rparr>)))"

text \<open>In \<open>GetService\<close> the loop would go on past a matching endpoint only if the cluster IP had
  been set before, which the \<open>break\<close> after setting it excludes.\<close>

definition import_mesh_service :: "ServiceImport \<Rightarrow> MeshService" where
  "import_mesh_service importedService =
     MeshService_zero\<lparr>ms_Namespace := si_Namespace importedService, ms_Name := si_Name importedService\<rparr>"

definition mc_ListServices :: "InformerCollection \<Rightarrow> Service list" where
  "mc_ListServices ic =
     [(import_service importedService (ie_ClusterKey endpoint))
        \<lparr>svc_ClusterIP := tgt_IP (ie_Target endpoint), svc_ClusterIPs := [tgt_IP (ie_Target endpoint)],
         svc_Ports := [target_svc_port port endpoint]\<rparr>.
       importedService \<leftarrow> List_objects (ic_ServiceImport ic),
       length (si_Ports importedService) \<noteq> 0,
       \<not> isLocality ic (import_mesh_service importedService),
       port \<leftarrow> si_Ports importedService,
       endpoint \<leftarrow> ip_Endpoints port]"

definition mc_GetNamespace :: "InformerCollection \<Rightarrow> string \<Rightarrow> Namespace option" where
  "mc_GetNamespace ic ns =
     (case find (\<lambda>importedService. equal_fold (si_Namespace importedService) ns)
             (List_objects (ic_ServiceImport ic)) of
        None \<Rightarrow> None
      | Some importedService \<Rightarrow>
          Some \<lparr>ns_Name = si_Namespace importedService, ns_Finalizers = [''flomesh.io'']\<rparr>)"

definition mc_ListPods :: "InformerCollection \<Rightarrow> Pod list" where
  "mc_ListPods ic =
     [\<lparr>pod_UID = [], pod_Namespace = si_Namespace importedService, pod_Name = tgt_Host (ie_Target endpoint),
       pod_Labels = gmap_put gmap_empty ''app'' (si_Name importedService), pod_Annotations = None,
       pod_ServiceAccountName = si_ServiceAccountName importedService,
       pod_PodIP = tgt_IP (ie_Target endpoint), pod_PodIPs = [tgt_IP (ie_Target endpoint)]\<rparr>.
       importedService \<leftarrow> List_objects (ic_ServiceImport ic),
       port \<leftarrow> si_Ports importedService,
       endpoint \<leftarrow> ip_Endpoints port]"

subsection \<open>GetEndpoints and its annotations\<close>

definition import_annotation :: "string \<Rightarrow> string \<Rightarrow> int \<Rightarrow> string" where
  "import_annotation kind addr port = ''flomesh.io/ServiceImport/'' @ kind @ ''/'' @ addr @ ''/'' @ fmt_int port"

definition ServiceImportClusterKeyAnnotation :: "string \<Rightarrow> int \<Rightarrow> string" where
  "ServiceImportClusterKeyAnnotation = import_annotation ''ClusterKey''"

definition ServiceImportContextPathAnnotation :: "string \<Rightarrow> int \<Rightarrow> string" where
  "ServiceImportContextPathAnnotation = import_annotation ''ContextPath''"

definition ServiceImportLBTypeAnnotation :: "string \<Rightarrow> int \<Rightarrow> string" where
  "ServiceImportLBTypeAnnotation = import_annotation ''LBType''"

definition ServiceImportLBWeightAnnotation :: "string \<Rightarrow> int \<Rightarrow> string" where
  "ServiceImportLBWeightAnnotation = import_annotation ''LBWeight''"

lemmas annotation_defs =
  ServiceImportClusterKeyAnnotation_def ServiceImportContextPathAnnotation_def
  ServiceImportLBTypeAnnotation_def ServiceImportLBWeightAnnotation_def

text \<open>One iteration of the loop over the endpoints of the selected port.\<close>

definition add_import_endpoint ::
  "MeshService \<Rightarrow> string \<Rightarrow> (string, int) gomap \<Rightarrow> ImportPort \<Rightarrow> ImportEndpoint \<Rightarrow> Endpoints \<Rightarrow> Endpoints" where
  "add_import_endpoint svc lbType clusterKeys port endpoint targetEndpoints =
     (let t = ie_Target endpoint; addr = tgt_IP t; p = tgt_Port t
      in if 0 < ms_TargetPort svc \<and> ms_TargetPort svc \<noteq> word_of_int p then targetEndpoints
         else case (if 0 < length (entries clusterKeys) then gmap_get clusterKeys (ie_ClusterKey endpoint) else Some 0) of
                None \<Rightarrow> targetEndpoints
              | Some lbWeight \<Rightarrow>
                  targetEndpoints
                    \<lparr>eps_Annotations :=
                       gmap_put (gmap_put (gmap_put (gmap_put (eps_Annotations targetEndpoints)
                         (ServiceImportClusterKeyAnnotation addr p) (ie_ClusterKey endpoint))
                         (ServiceImportContextPathAnnotation addr p) (tgt_Path t))
                         (ServiceImportLBTypeAnnotation addr p) lbType)
                         (ServiceImportLBWeightAnnotation addr p) (fmt_int lbWeight),
                     eps_Subsets := eps_Subsets targetEndpoints @
                       [\<lparr>es_Addresses = [\<lparr>ea_IP = addr, ea_Hostname = tgt_Host t\<rparr>],
                         es_Ports = [\<lparr>ep_Name = ip_Name port, ep_Protocol = ip_Protocol port,
                           ep_AppProtocol = ip_AppProtocol port, ep_Port = p\<rparr>]\<rparr>]\<rparr>)"

definition import_port_matches :: "ServiceImport \<Rightarrow> MeshService \<Rightarrow> ImportPort \<Rightarrow> bool" where
  "import_port_matches importedService svc port \<longleftrightarrow>
     equal_fold (si_Name importedService) (ms_Name svc) \<and>
     (ms_Port svc = 0 \<or> ms_Port svc = word_of_int (ip_Port port)) \<and> 0 < length (ip_Endpoints port)"

definition mc_GetEndpoints :: "InformerCollection \<Rightarrow> MeshService \<Rightarrow> unit + Endpoints option" where
  "mc_GetEndpoints ic svc =
     (let (lbType, clusterKeys) = getServiceTrafficPolicy ic svc
      in if lbType = LocalityLbType then Inr None
         else case getServiceImport ic svc of
           None \<Rightarrow> Inr None
         | Some importedService \<Rightarrow>
             if length (si_Ports importedService) = 0 then Inr None
             else case find (import_port_matches importedService svc) (si_Ports importedService) of
               None \<Rightarrow> Inr None
             | Some port \<Rightarrow>
                 Inr (Some (fold (add_import_endpoint svc lbType clusterKeys port) (ip_Endpoints port)
                   \<lparr>eps_Namespace = si_Namespace importedService, eps_Name = si_Name importedService,
                    eps_Annotations = gmap_empty, eps_Subsets = []\<rparr>)))"

definition mc_GetTargetPortForServicePort ::
  "InformerCollection \<Rightarrow> string \<times> string \<Rightarrow> uint16 \<Rightarrow> (uint16, bool) gomap" where
  "mc_GetTargetPortForServicePort ic namespacedSvc port =
     (let svc = MeshService_zero\<lparr>ms_Namespace := fst namespacedSvc, ms_Name := snd namespacedSvc\<rparr>;
          lbw = GetLbWeightForService ic svc; clusterKeys = lbw_clusterKeys lbw
      in if lbw_lc lbw then None
         else case getServiceImport ic svc of
           None \<Rightarrow> None
         | Some importedService \<Rightarrow>
             if length (si_Ports importedService) = 0 then None
             else fold (\<lambda>endpoint targetPorts.
                      if 0 < length (entries clusterKeys) \<and> gmap_get clusterKeys (ie_ClusterKey endpoint) = None
                      then targetPorts
                      else gmap_put targetPorts (word_of_int (tgt_Port (ie_Target endpoint))) (lbw_aa lbw))
                    (concat (map ip_Endpoints (filter (\<lambda>svcPort.
                        equal_fold (si_Name importedService) (snd namespacedSvc) \<and>
                        word_of_int (ip_Port svcPort) = port \<and> 0 < length (ip_Endpoints svcPort))
                      (si_Ports importedService))))
                    gmap_empty)"

section \<open>What the controller guarantees\<close>

subsection \<open>Load balancing\<close>

lemma GetLbWeightForService_local:
  "lbw_lc (GetLbWeightForService ic svc) \<longleftrightarrow>
     (case getGlobalTrafficPolicy ic svc of
        None \<Rightarrow> True
      | Some policy \<Rightarrow> gtp_LbType policy \<noteq> ActiveActiveLbType \<and> gtp_LbType policy \<noteq> FailOverLbType)"
  by (auto simp: GetLbWeightForService_def LbWeight_zero_def split: option.splits)

lemma isLocality_lc: "isLocality ic svc \<Longrightarrow> lbw_lc (GetLbWeightForService ic svc)"
  by (auto simp: GetLbWeightForService_local isLocality_def split: option.splits)

lemma isLocality_lbType:
  "isLocality ic svc \<longleftrightarrow> fst (getServiceTrafficPolicy ic svc) = LocalityLbType"
  by (auto simp: isLocality_def getServiceTrafficPolicy_def split: option.splits)

lemma fold_gmap_put: "fold (\<lambda>x m. gmap_put m (key x) (val x)) xs m = gm.put_all key val xs m"
  by (simp add: gm.put_all_def)

text \<open>The cluster keys of a policy are exactly those of its load balance targets.\<close>

lemma getServiceTrafficPolicy_keys:
  assumes "getGlobalTrafficPolicy ic svc = Some policy"
  shows "gmap_get (snd (getServiceTrafficPolicy ic svc)) k \<noteq> None \<longleftrightarrow>
     k \<in> tt_ClusterKey ` set (gtp_LoadBalanceTarget policy)"
proof (cases "k \<in> tt_ClusterKey ` set (gtp_LoadBalanceTarget policy)")
  case True
  then have "gtp_LoadBalanceTarget policy \<noteq> []" by auto
  with True gm.get_put_all_in [OF True, of target_weight gmap_empty] show ?thesis
    by (auto simp: getServiceTrafficPolicy_def assms fold_gmap_put)
next
  case False
  with gm.get_put_all_notin [OF False, of target_weight gmap_empty] show ?thesis
    by (auto simp: getServiceTrafficPolicy_def assms fold_gmap_put)
qed

subsection \<open>The annotations of imported endpoints\<close>

lemma fmt_int_no_slash: "CHR ''/'' \<notin> set (fmt_int p)"
proof -
  have "\<not> is_digit (CHR ''/'')" by (simp add: is_digit_def byte_def)
  then show ?thesis by (auto simp: fmt_int_def itoa_no)
qed

lemma append_last_sep:
  fixes a b :: string
  assumes "a @ c # x = b @ c # y" and "c \<notin> set x" and "c \<notin> set y"
  shows "a = b \<and> x = y"
proof -
  have "rev x @ c # rev a = rev y @ c # rev b"
    using arg_cong [OF assms(1), of rev] by simp
  then have "split_on c (rev x @ c # rev a) = split_on c (rev y @ c # rev b)" by simp
  with assms(2,3) have "rev x = rev y" by (simp add: split_on_append)
  with assms(1) show ?thesis by simp
qed

lemma fmt_int_inj: "fmt_int p = fmt_int q \<Longrightarrow> p = q"
proof -
  have "CHR ''-'' \<notin> set (itoa n)" for n
    by (rule itoa_no) (simp add: is_digit_def byte_def)
  then have "itoa n \<noteq> CHR ''-'' # s" for n s by (metis list.set_intros(1))
  then show "fmt_int p = fmt_int q \<Longrightarrow> p = q"
    by (auto simp: fmt_int_def split: if_splits dest: sym)
qed

lemma import_annotation_inj:
  assumes "CHR ''/'' \<notin> set k" and "CHR ''/'' \<notin> set k'"
  shows "import_annotation k addr p = import_annotation k' addr' p' \<longleftrightarrow> k = k' \<and> addr = addr' \<and> p = p'"
proof
  assume eq: "import_annotation k addr p = import_annotation k' addr' p'"
  then have "(k @ CHR ''/'' # addr) @ CHR ''/'' # fmt_int p = (k' @ CHR ''/'' # addr') @ CHR ''/'' # fmt_int p'"
    by (simp add: import_annotation_def)
  from append_last_sep [OF this] have 1: "k @ CHR ''/'' # addr = k' @ CHR ''/'' # addr'" and 2: "p = p'"
    by (auto simp: fmt_int_no_slash dest: fmt_int_inj)
  from arg_cong [OF 1, of "split_on (CHR ''/'')"] have "k = k'" using assms by (simp add: split_on_append)
  with 1 2 show "k = k' \<and> addr = addr' \<and> p = p'" by simp
qed simp

lemma annotation_inj [simp]:
  "ServiceImportClusterKeyAnnotation a p = ServiceImportClusterKeyAnnotation a' p' \<longleftrightarrow> a = a' \<and> p = p'"
  "ServiceImportContextPathAnnotation a p = ServiceImportContextPathAnnotation a' p' \<longleftrightarrow> a = a' \<and> p = p'"
  "ServiceImportLBTypeAnnotation a p = ServiceImportLBTypeAnnotation a' p' \<longleftrightarrow> a = a' \<and> p = p'"
  "ServiceImportLBWeightAnnotation a p = ServiceImportLBWeightAnnotation a' p' \<longleftrightarrow> a = a' \<and> p = p'"
  by (simp_all add: annotation_defs import_annotation_inj)

lemma annotation_kinds [simp]:
  "ServiceImportClusterKeyAnnotation a p \<noteq> ServiceImportContextPathAnnotation a' p'"
  "ServiceImportClusterKeyAnnotation a p \<noteq> ServiceImportLBTypeAnnotation a' p'"
  "ServiceImportClusterKeyAnnotation a p \<noteq> ServiceImportLBWeightAnnotation a' p'"
  "ServiceImportContextPathAnnotation a p \<noteq> ServiceImportLBTypeAnnotation a' p'"
  "ServiceImportContextPathAnnotation a p \<noteq> ServiceImportLBWeightAnnotation a' p'"
  "ServiceImportLBTypeAnnotation a p \<noteq> ServiceImportLBWeightAnnotation a' p'"
  by (simp_all add: annotation_defs import_annotation_inj)

lemmas annotation_kinds_sym [simp] = annotation_kinds [symmetric]

text \<open>The endpoints a mesh service selects: of its target port (when it has one), in a cluster of
  the policy (when it names clusters).\<close>

definition import_selected :: "MeshService \<Rightarrow> (string, int) gomap \<Rightarrow> ImportEndpoint \<Rightarrow> bool" where
  "import_selected svc clusterKeys endpoint \<longleftrightarrow>
     (ms_TargetPort svc = 0 \<or> ms_TargetPort svc = word_of_int (tgt_Port (ie_Target endpoint))) \<and>
     (entries clusterKeys = [] \<or> gmap_get clusterKeys (ie_ClusterKey endpoint) \<noteq> None)"

definition import_weight :: "(string, int) gomap \<Rightarrow> ImportEndpoint \<Rightarrow> int" where
  "import_weight clusterKeys endpoint =
     (case gmap_get clusterKeys (ie_ClusterKey endpoint) of None \<Rightarrow> 0 | Some w \<Rightarrow> w)"

definition import_subset :: "ImportPort \<Rightarrow> ImportEndpoint \<Rightarrow> EndpointSubset" where
  "import_subset port endpoint =
     \<lparr>es_Addresses = [\<lparr>ea_IP = tgt_IP (ie_Target endpoint), ea_Hostname = tgt_Host (ie_Target endpoint)\<rparr>],
      es_Ports = [\<lparr>ep_Name = ip_Name port, ep_Protocol = ip_Protocol port,
        ep_AppProtocol = ip_AppProtocol port, ep_Port = tgt_Port (ie_Target endpoint)\<rparr>]\<rparr>"

lemma entries_Nil_get: "entries m = [] \<Longrightarrow> gmap_get m k = None"
  by (simp add: gmap_get_def)

lemma add_import_endpoint_unselected:
  "\<not> import_selected svc keys e \<Longrightarrow> add_import_endpoint svc lb keys port e eps = eps"
  by (auto simp: add_import_endpoint_def import_selected_def Let_def word_gt_0)

lemma add_import_endpoint_selected:
  assumes "import_selected svc keys e"
  shows "add_import_endpoint svc lb keys port e eps =
     eps\<lparr>eps_Annotations :=
           gmap_put (gmap_put (gmap_put (gmap_put (eps_Annotations eps)
             (ServiceImportClusterKeyAnnotation (tgt_IP (ie_Target e)) (tgt_Port (ie_Target e))) (ie_ClusterKey e))
             (ServiceImportContextPathAnnotation (tgt_IP (ie_Target e)) (tgt_Port (ie_Target e))) (tgt_Path (ie_Target e)))
             (ServiceImportLBTypeAnnotation (tgt_IP (ie_Target e)) (tgt_Port (ie_Target e))) lb)
             (ServiceImportLBWeightAnnotation (tgt_IP (ie_Target e)) (tgt_Port (ie_Target e)))
             (fmt_int (import_weight keys e)),
         eps_Subsets := eps_Subsets eps @ [import_subset port e]\<rparr>"
  using assms
  by (auto simp: add_import_endpoint_def import_selected_def import_weight_def import_subset_def Let_def
      word_gt_0 entries_Nil_get)

lemma fold_add_import_endpoint_subsets:
  "eps_Subsets (fold (add_import_endpoint svc lb keys port) es eps) =
     eps_Subsets eps @ map (import_subset port) (filter (import_selected svc keys) es)"
proof (induction es arbitrary: eps)
  case (Cons e es)
  then show ?case
    by (cases "import_selected svc keys e")
      (simp_all add: add_import_endpoint_selected add_import_endpoint_unselected)
qed simp

text \<open>The annotations of one selected endpoint, as the reader of the annotations sees them.\<close>

definition annotations_of ::
  "(string, string) gomap \<Rightarrow> string \<Rightarrow> int \<Rightarrow> string option \<times> string option \<times> string option \<times> string option" where
  "annotations_of ann addr p =
     (gmap_get ann (ServiceImportClusterKeyAnnotation addr p),
      gmap_get ann (ServiceImportContextPathAnnotation addr p),
      gmap_get ann (ServiceImportLBTypeAnnotation addr p),
      gmap_get ann (ServiceImportLBWeightAnnotation addr p))"

abbreviation target_addr :: "ImportEndpoint \<Rightarrow> string \<times> int" where
  "target_addr e \<equiv> (tgt_IP (ie_Target e), tgt_Port (ie_Target e))"

lemma annotations_of_add:
  assumes "import_selected svc keys e"
  shows "annotations_of (eps_Annotations (add_import_endpoint svc lb keys port e eps)) addr p =
     (if (addr, p) = target_addr e
      then (Some (ie_ClusterKey e), Some (tgt_Path (ie_Target e)), Some lb, Some (fmt_int (import_weight keys e)))
      else annotations_of (eps_Annotations eps) addr p)"
  by (simp add: annotations_of_def add_import_endpoint_selected [OF assms])

text \<open>The annotations are keyed by address and port, so of several selected endpoints with one address the last one counts.\<close>

lemma annotations_of_fold:
  "annotations_of (eps_Annotations (fold (add_import_endpoint svc lb keys port) es eps)) addr p =
     (let es' = filter (\<lambda>e. target_addr e = (addr, p)) (filter (import_selected svc keys) es) in
      if es' = [] then annotations_of (eps_Annotations eps) addr p
      else (Some (ie_ClusterKey (last es')), Some (tgt_Path (ie_Target (last es'))), Some lb, Some (fmt_int (import_weight keys (last es')))))"
proof (induction es arbitrary: eps)
  case (Cons e es)
  show ?case
  proof (cases "import_selected svc keys e")
    case True
    with Cons show ?thesis by (auto simp: annotations_of_add Let_def)
  next
    case False
    with Cons show ?thesis by (simp add: add_import_endpoint_unselected)
  qed
qed simp

section \<open>Properties\<close>

text \<open>Every service is in exactly one load balancing mode: active-active and fail-over when the
  policy of its name says so, local otherwise. An active-active service gets the weight of the first
  target with its own cluster key (the accept-all weight when the policy names no targets, 0
  when it is not among them); in the other modes the weight is 0.\<close>

theorem lb_modes:
  "case GetLbWeightForService ic svc of w \<Rightarrow>
     (lbw_aa w \<longleftrightarrow> map_option gtp_LbType (getGlobalTrafficPolicy ic svc) = Some ActiveActiveLbType) \<and>
     (lbw_fo w \<longleftrightarrow> map_option gtp_LbType (getGlobalTrafficPolicy ic svc) = Some FailOverLbType) \<and>
     (lbw_lc w \<longleftrightarrow> \<not> lbw_aa w \<and> \<not> lbw_fo w) \<and> \<not> (lbw_aa w \<and> lbw_fo w) \<and>
     lbw_weight w = (if lbw_aa w then
         (case gtp_LoadBalanceTarget (the (getGlobalTrafficPolicy ic svc)) of
            [] \<Rightarrow> 100
          | lbts \<Rightarrow> (case find (\<lambda>lbt. tt_ClusterKey lbt = ms_ServiceImportUID svc) lbts of
              None \<Rightarrow> 0 | Some lbt \<Rightarrow> target_weight lbt))
       else 0)"
proof (cases "getGlobalTrafficPolicy ic svc")
  case None
  then show ?thesis by (simp add: GetLbWeightForService_def LbWeight_zero_def)
next
  case (Some policy)
  have find_eq: "find (\<lambda>lbt. ms_ServiceImportUID svc = tt_ClusterKey lbt) xs =
      find (\<lambda>lbt. tt_ClusterKey lbt = ms_ServiceImportUID svc) xs" for xs
    by (induction xs) auto
  show ?thesis
    by (cases "gtp_LoadBalanceTarget policy")
      (auto simp: GetLbWeightForService_def LbWeight_zero_def Some find_eq ClusterWeightAcceptAll_def
        ClusterWeightFailOver_def split: option.splits)
qed

lemma fold_target_ports:
  fixes es :: "ImportEndpoint list"
  shows "gmap_get (fold (\<lambda>e m. gmap_put m (word_of_int (tgt_Port (ie_Target e)) :: uint16) b) es m) p =
     (if p \<in> (\<lambda>e. word_of_int (tgt_Port (ie_Target e))) ` set es then Some b else gmap_get m p)"
  by (induction es arbitrary: m) auto

text \<open>Which target ports a service port has when its policy is active-active: those of every
  imported endpoint of the port, also of endpoints in clusters that the policy does not list as
  targets, and all of them are marked active-active.\<close>

theorem aa_target_ports_ignore_targets:
  fixes ns name :: string
  defines "svc \<equiv> MeshService_zero\<lparr>ms_Namespace := ns, ms_Name := name\<rparr>"
  assumes "getGlobalTrafficPolicy ic svc = Some policy" and "gtp_LbType policy = ActiveActiveLbType"
    and "\<forall>lbt \<in> set (gtp_LoadBalanceTarget policy). tt_ClusterKey lbt \<noteq> []"
    and "getServiceImport ic svc = Some si" and "si_Name si = name"
    and "ip \<in> set (si_Ports si)" and "word_of_int (ip_Port ip) = port" and "e \<in> set (ip_Endpoints ip)"
  shows "gmap_get (mc_GetTargetPortForServicePort ic (ns, name) port) (word_of_int (tgt_Port (ie_Target e))) = Some True"
proof -
  let ?w = "GetLbWeightForService ic svc"
  have uid: "ms_ServiceImportUID svc = []" by (simp add: svc_def MeshService_zero_def)
  have "find (\<lambda>lbt. ms_ServiceImportUID svc = tt_ClusterKey lbt) (gtp_LoadBalanceTarget policy) = None"
    using assms(4) by (auto simp: find_None_iff uid)
  then have w: "lbw_aa ?w" "\<not> lbw_lc ?w" "entries (lbw_clusterKeys ?w) = []"
    by (simp_all add: GetLbWeightForService_def assms(2,3) LbWeight_zero_def)
  have "si_Ports si \<noteq> []" using assms(7) by auto
  then have eq: "mc_GetTargetPortForServicePort ic (ns, name) port =
      fold (\<lambda>e m. gmap_put m (word_of_int (tgt_Port (ie_Target e))) True)
        (concat (map ip_Endpoints (filter (\<lambda>svcPort. equal_fold (si_Name si) name \<and>
            word_of_int (ip_Port svcPort) = port \<and> 0 < length (ip_Endpoints svcPort)) (si_Ports si)))) gmap_empty"
    using w assms(5) by (simp add: mc_GetTargetPortForServicePort_def svc_def [symmetric] Let_def)
  have "e \<in> set (concat (map ip_Endpoints (filter (\<lambda>svcPort. equal_fold (si_Name si) name \<and>
            word_of_int (ip_Port svcPort) = port \<and> 0 < length (ip_Endpoints svcPort)) (si_Ports si))))"
    using assms(6-9) by auto
  then show ?thesis unfolding eq fold_target_ports by simp
qed

theorem aa_target_ports_ignore_targets_witness:
  "gmap_get (mc_GetTargetPortForServicePort (sample_ic ActiveActiveLbType) (''shop'', ''web'') 80) 8080 = Some True \<and>
   ''c2'' \<notin> tt_ClusterKey ` set (gtp_LoadBalanceTarget (sample_policy ActiveActiveLbType))"
proof
  let ?e = "ip_Endpoints (si_Ports sample_import ! 0) ! 1"
  have "gmap_get (mc_GetTargetPortForServicePort (sample_ic ActiveActiveLbType) (''shop'', ''web'') 80)
      (word_of_int (tgt_Port (ie_Target ?e))) = Some True"
    by (rule aa_target_ports_ignore_targets [where policy = "sample_policy ActiveActiveLbType" and si = sample_import
          and ip = "si_Ports sample_import ! 0"])
      (simp_all add: getGlobalTrafficPolicy_def getServiceImport_def GetByKey_def sample_ic_def sample_policy_def
        sample_import_def list_store_def NamespacedKey_def ProviderKey_def MeshService_zero_def)
  then show "gmap_get (mc_GetTargetPortForServicePort (sample_ic ActiveActiveLbType) (''shop'', ''web'') 80) 8080 = Some True"
    by (simp add: sample_import_def)
qed (simp add: sample_policy_def)

end
