(* ===== verification/Provider.thy ===== *)
theory Provider
  imports Multicluster
begin

text \<open>
  The provider interfaces (\<open>endpoint.Provider\<close>, \<open>service.Provider\<close>) as dictionaries of their
  methods, the contract the mesh catalog relies on, and the two providers of the program:
  \<open>service/providers/kube\<close> for the local cluster, \<open>service/providers/fsm\<close> for imported services.
\<close>

section \<open>The interfaces\<close>

record endpoint_provider =
  prv_ListEndpointsForService :: "MeshService \<Rightarrow> Endpoint list"
  prv_GetResolvableEndpointsForService :: "MeshService \<Rightarrow> Endpoint list"
  prv_GetID :: string

record service_provider =
  prv_ListServices :: "MeshService list"
  prv_ServiceID :: string

definition Endpoint_zero :: Endpoint where
  "Endpoint_zero = \<lparr>ept_IP = [], ept_Port = 0, ept_Weight = 0, ept_ClusterKey = [], ept_LBType = [], ept_Path = []\<rparr>"

text \<open>
  What every provider promises: a listed endpoint has an address that was parsed from text, a
  mesh service with a target port gets endpoints of that port only, and resolvable endpoints
  have parsed addresses too.
\<close>

locale endpoints_provider =
  fixes provider :: endpoint_provider
  assumes list_parsed: "e \<in> set (prv_ListEndpointsForService provider svc) \<Longrightarrow> \<exists>s. parse_ip s = Some (ept_IP e)"
    and list_port: "e \<in> set (prv_ListEndpointsForService provider svc) \<Longrightarrow> ms_TargetPort svc \<noteq> 0 \<Longrightarrow>
      ept_Port e = ucast (ms_TargetPort svc)"
    and resolvable_parsed: "e \<in> set (prv_GetResolvableEndpointsForService provider svc) \<Longrightarrow>
      \<exists>s. parse_ip s = Some (ept_IP e)"

section \<open>providers/kube/client.go\<close>

definition kube_providerName :: string where "kube_providerName = ''kubernetes''"

definition kube_ListEndpointsForService :: "InformerCollection \<Rightarrow> MeshService \<Rightarrow> Endpoint list" where
  "kube_ListEndpointsForService ic svc =
     (case found (k8s_GetEndpoints ic svc) of
        None \<Rightarrow> []
      | Some kubernetesEndpoints \<Rightarrow>
          [Endpoint_zero\<lparr>ept_IP := addr, ept_Port := word_of_int (ep_Port port)\<rparr>.
            kubernetesEndpoint \<leftarrow> eps_Subsets kubernetesEndpoints,
            port \<leftarrow> es_Ports kubernetesEndpoint,
            ms_TargetPort svc = 0 \<or> ep_Port port = uint (ms_TargetPort svc),
            address \<leftarrow> es_Addresses kubernetesEndpoint,
            Subdomain svc = [] \<or> Subdomain svc = ea_Hostname address,
            Some addr \<leftarrow> [parse_ip (ea_IP address)]])"

definition kube_GetResolvableEndpointsForService :: "InformerCollection \<Rightarrow> MeshService \<Rightarrow> Endpoint list" where
  "kube_GetResolvableEndpointsForService ic svc =
     (case k8s_GetService ic svc of
        None \<Rightarrow> []
      | Some kubeService \<Rightarrow>
          if length (svc_ClusterIP kubeService) = 0 \<or> svc_ClusterIP kubeService = ClusterIPNone
          then kube_ListEndpointsForService ic svc
          else case parse_ip (svc_ClusterIP kubeService) of
            None \<Rightarrow> []
          | Some addr \<Rightarrow>
              map (\<lambda>svcPort. Endpoint_zero\<lparr>ept_IP := addr, ept_Port := word_of_int (sp_Port svcPort)\<rparr>)
                (svc_Ports kubeService))"

definition kube_ListServices :: "InformerCollection \<Rightarrow> MeshService list" where
  "kube_ListServices ic = concat (map (ServiceToMeshServices (k8s_GetEndpoints ic)) (k8s_ListServices ic))"

definition kube_provider :: "InformerCollection \<Rightarrow> endpoint_provider" where
  "kube_provider ic = \<lparr>prv_ListEndpointsForService = kube_ListEndpointsForService ic,
     prv_GetResolvableEndpointsForService = kube_GetResolvableEndpointsForService ic,
     prv_GetID = kube_providerName\<rparr>"

definition kube_service_provider :: "InformerCollection \<Rightarrow> service_provider" where
  "kube_service_provider ic = \<lparr>prv_ListServices = kube_ListServices ic, prv_ServiceID = kube_providerName\<rparr>"

section \<open>providers/fsm/client.go\<close>

definition fsm_ProviderName :: string where "fsm_ProviderName = ''flomesh''"

text \<open>Reading a missing annotation yields the empty string.\<close>

definition annotation :: "Endpoints \<Rightarrow> string \<Rightarrow> string" where
  "annotation eps key = (case gmap_get (eps_Annotations eps) key of None \<Rightarrow> [] | Some v \<Rightarrow> v)"

definition fsm_endpoint :: "Endpoints \<Rightarrow> string \<Rightarrow> int \<Rightarrow> ip \<Rightarrow> Endpoint" where
  "fsm_endpoint eps addr port ipaddr =
     \<lparr>ept_IP = ipaddr, ept_Port = word_of_int port,
      ept_Weight = word_of_nat (fst (parse_uint 32 (annotation eps (ServiceImportLBWeightAnnotation addr port)))),
      ept_ClusterKey = annotation eps (ServiceImportClusterKeyAnnotation addr port),
      ept_LBType = annotation eps (ServiceImportLBTypeAnnotation addr port),
      ept_Path = annotation eps (ServiceImportContextPathAnnotation addr port)\<rparr>"

definition fsm_ListEndpointsForService :: "InformerCollection \<Rightarrow> MeshService \<Rightarrow> Endpoint list" where
  "fsm_ListEndpointsForService ic svc =
     (case found (mc_GetEndpoints ic svc) of
        None \<Rightarrow> []
      | Some kubernetesEndpoints \<Rightarrow>
          [fsm_endpoint kubernetesEndpoints (ea_IP address) (ep_Port port) addr.
            kubernetesEndpoint \<leftarrow> eps_Subsets kubernetesEndpoints,
            port \<leftarrow> es_Ports kubernetesEndpoint,
            ms_TargetPort svc = 0 \<or> ep_Port port = uint (ms_TargetPort svc),
            address \<leftarrow> es_Addresses kubernetesEndpoint,
            Subdomain svc = [] \<or> Subdomain svc = ea_Hostname address,
            Some addr \<leftarrow> [parse_ip (ea_IP address)]])"

definition fsm_GetResolvableEndpointsForService :: "InformerCollection \<Rightarrow> MeshService \<Rightarrow> Endpoint list" where
  "fsm_GetResolvableEndpointsForService ic svc =
     (case mc_GetService ic svc of
        None \<Rightarrow> []
      | Some kubeService \<Rightarrow>
          if length (svc_ClusterIP kubeService) = 0 \<or> svc_ClusterIP kubeService = ClusterIPNone
          then fsm_ListEndpointsForService ic svc
          else case parse_ip (svc_ClusterIP kubeService) of
            None \<Rightarrow> []
          | Some addr \<Rightarrow>
              map (\<lambda>svcPort. Endpoint_zero\<lparr>ept_IP := addr, ept_Port := word_of_int (sp_Port svcPort),
                     ept_ClusterKey := fsm_ProviderName\<rparr>)
                (svc_Ports kubeService))"

definition fsm_ServiceToMeshServices ::
  "(MeshService \<Rightarrow> unit + Endpoints option) \<Rightarrow> Service \<Rightarrow> MeshService list" where
  "fsm_ServiceToMeshServices getEndpoints svc =
     [meshSvc\<lparr>ms_TargetPort := word_of_int (ep_Port port)\<rparr>.
       portSpec \<leftarrow> svc_Ports svc,
       meshSvc \<leftarrow> [MeshService_zero\<lparr>ms_Namespace := svc_Namespace svc, ms_Name := svc_Name svc,
                    ms_Port := word_of_int (sp_Port portSpec), ms_ServiceImportUID := svc_UID svc,
                    ms_Protocol := port_protocol portSpec\<rparr>],
       Some endpoints \<leftarrow> [found (getEndpoints meshSvc)],
       sub \<leftarrow> eps_Subsets endpoints,
       port \<leftarrow> es_Ports sub]"

definition fsm_ListServices :: "InformerCollection \<Rightarrow> MeshService list" where
  "fsm_ListServices ic = concat (map (fsm_ServiceToMeshServices (mc_GetEndpoints ic)) (mc_ListServices ic))"

definition fsm_provider :: "InformerCollection \<Rightarrow> endpoint_provider" where
  "fsm_provider ic = \<lparr>prv_ListEndpointsForService = fsm_ListEndpointsForService ic,
     prv_GetResolvableEndpointsForService = fsm_GetResolvableEndpointsForService ic,
     prv_GetID = fsm_ProviderName\<rparr>"

definition fsm_service_provider :: "InformerCollection \<Rightarrow> service_provider" where
  "fsm_service_provider ic = \<lparr>prv_ListServices = fsm_ListServices ic, prv_ServiceID = fsm_ProviderName\<rparr>"

section \<open>Both providers keep the contract\<close>

lemma word_of_uint16: "word_of_int (uint (w :: uint16)) = (ucast w :: uint32)"
  by (rule ucast_eq [symmetric])

lemma kube_ListEndpoints_in:
  assumes "e \<in> set (kube_ListEndpointsForService ic svc)"
  shows "\<exists>s. parse_ip s = Some (ept_IP e)"
    and "ms_TargetPort svc \<noteq> 0 \<Longrightarrow> ept_Port e = ucast (ms_TargetPort svc)"
    and "ept_ClusterKey e = []"
  using assms
  by (auto simp: kube_ListEndpointsForService_def Endpoint_zero_def word_of_uint16
      split: option.splits if_splits)

lemma fsm_ListEndpoints_in:
  assumes "e \<in> set (fsm_ListEndpointsForService ic svc)"
  shows "\<exists>s. parse_ip s = Some (ept_IP e)"
    and "ms_TargetPort svc \<noteq> 0 \<Longrightarrow> ept_Port e = ucast (ms_TargetPort svc)"
  using assms
  by (auto simp: fsm_ListEndpointsForService_def fsm_endpoint_def word_of_uint16
      split: option.splits if_splits)

lemma kube_GetResolvable_in:
  assumes "e \<in> set (kube_GetResolvableEndpointsForService ic svc)"
  shows "\<exists>s. parse_ip s = Some (ept_IP e)"
proof (cases "k8s_GetService ic svc")
  case (Some kubeService)
  with assms kube_ListEndpoints_in(1) [of e ic svc] show ?thesis
    by (cases "parse_ip (svc_ClusterIP kubeService)")
      (auto simp: kube_GetResolvableEndpointsForService_def Endpoint_zero_def split: if_splits)
qed (use assms in \<open>simp add: kube_GetResolvableEndpointsForService_def\<close>)

interpretation kube: endpoints_provider "kube_provider ic" for ic
proof
  fix e svc
  assume "e \<in> set (prv_ListEndpointsForService (kube_provider ic) svc)"
  then have e: "e \<in> set (kube_ListEndpointsForService ic svc)" by (simp add: kube_provider_def)
  from e show "\<exists>s. parse_ip s = Some (ept_IP e)" by (rule kube_ListEndpoints_in)
  from e show "ms_TargetPort svc \<noteq> 0 \<Longrightarrow> ept_Port e = ucast (ms_TargetPort svc)"
    by (rule kube_ListEndpoints_in)
next
  fix e svc
  assume "e \<in> set (prv_GetResolvableEndpointsForService (kube_provider ic) svc)"
  then have "e \<in> set (kube_GetResolvableEndpointsForService ic svc)" by (simp add: kube_provider_def)
  then show "\<exists>s. parse_ip s = Some (ept_IP e)" by (rule kube_GetResolvable_in)
qed

lemma fsm_GetResolvable_in:
  assumes "e \<in> set (fsm_GetResolvableEndpointsForService ic svc)"
  shows "\<exists>s. parse_ip s = Some (ept_IP e)"
proof (cases "mc_GetService ic svc")
  case (Some kubeService)
  with assms fsm_ListEndpoints_in(1) [of e ic svc] show ?thesis
    by (cases "parse_ip (svc_ClusterIP kubeService)")
      (auto simp: fsm_GetResolvableEndpointsForService_def Endpoint_zero_def split: if_splits)
qed (use assms in \<open>simp add: fsm_GetResolvableEndpointsForService_def\<close>)

interpretation fsm: endpoints_provider "fsm_provider ic" for ic
proof
  fix e svc
  assume "e \<in> set (prv_ListEndpointsForService (fsm_provider ic) svc)"
  then have e: "e \<in> set (fsm_ListEndpointsForService ic svc)" by (simp add: fsm_provider_def)
  from e show "\<exists>s. parse_ip s = Some (ept_IP e)" by (rule fsm_ListEndpoints_in)
  from e show "ms_TargetPort svc \<noteq> 0 \<Longrightarrow> ept_Port e = ucast (ms_TargetPort svc)"
    by (rule fsm_ListEndpoints_in)
next
  fix e svc
  assume "e \<in> set (prv_GetResolvableEndpointsForService (fsm_provider ic) svc)"
  then have "e \<in> set (fsm_GetResolvableEndpointsForService ic svc)" by (simp add: fsm_provider_def)
  then show "\<exists>s. parse_ip s = Some (ept_IP e)" by (rule fsm_GetResolvable_in)
qed

section \<open>The endpoints of an imported service\<close>

text \<open>The weight an endpoint ends up with after the policy's weight was written to an annotation and
  parsed back: a weight outside the 32-bit range is cut to the range.\<close>

definition clamp_weight :: "int \<Rightarrow> uint32" where
  "clamp_weight w = (if w < 0 then 0 else if 2 ^ 32 \<le> w then - 1 else word_of_int w)"

lemma parse_fmt_weight: "word_of_nat (fst (parse_uint 32 (fmt_int w))) = clamp_weight w"
proof (cases "w < 0")
  case True
  then show ?thesis by (simp add: fmt_int_def parse_uint_minus clamp_weight_def)
next
  case False
  then obtain n where n: "w = int n" by (metis int_nat_eq not_less)
  show ?thesis
  proof (cases "n < 2 ^ 32")
    case True
    with parse_uint_itoa [OF True] show ?thesis by (simp add: n fmt_int_def clamp_weight_def)
  next
    case False
    then have "parse_uint 32 (itoa n) = (2 ^ 32 - 1, Some ErrRange)" by (simp add: parse_uint_itoa_range)
    with False show ?thesis by (simp add: n fmt_int_def clamp_weight_def)
  qed
qed

text \<open>The endpoint a selected import endpoint becomes, if its address parses and matches the target
  port and the subdomain of the mesh service: the address is its own, the weight, the cluster key and the path are those of
  \<open>owner\<close>, the endpoint whose annotations its address has.\<close>

definition import_endpoint :: "MeshService \<Rightarrow> string \<Rightarrow> (string, int) gomap \<Rightarrow> ImportEndpoint \<Rightarrow> ImportEndpoint \<Rightarrow> Endpoint option" where
  "import_endpoint svc lbType clusterKeys owner e =
     (if (ms_TargetPort svc = 0 \<or> tgt_Port (ie_Target e) = uint (ms_TargetPort svc)) \<and>
         (Subdomain svc = [] \<or> Subdomain svc = tgt_Host (ie_Target e))
      then map_option (\<lambda>addr. \<lparr>ept_IP = addr, ept_Port = word_of_int (tgt_Port (ie_Target e)),
             ept_Weight = clamp_weight (import_weight clusterKeys owner), ept_ClusterKey = ie_ClusterKey owner,
             ept_LBType = lbType, ept_Path = tgt_Path (ie_Target owner)\<rparr>) (parse_ip (tgt_IP (ie_Target e)))
      else None)"

definition last_at :: "ImportEndpoint list \<Rightarrow> ImportEndpoint \<Rightarrow> ImportEndpoint" where
  "last_at es e = last (filter (\<lambda>e'. target_addr e' = target_addr e) es)"

lemma last_at_distinct: "distinct (map target_addr es) \<Longrightarrow> e \<in> set es \<Longrightarrow> last_at es e = e"
proof -
  assume "distinct (map target_addr es)" "e \<in> set es"
  then have "filter (\<lambda>e'. target_addr e' = target_addr e) es = [e]"
    by (induction es) (auto simp: filter_empty_conv image_iff)
  then show ?thesis by (simp add: last_at_def)
qed

lemma fsm_endpoint_annotated:
  assumes "annotations_of (eps_Annotations eps) addr p =
     (Some (ie_ClusterKey e), Some (tgt_Path (ie_Target e)), Some lb, Some (fmt_int (import_weight keys e)))"
  shows "fsm_endpoint eps addr p ip =
     \<lparr>ept_IP = ip, ept_Port = word_of_int p,
      ept_Weight = clamp_weight (import_weight keys e), ept_ClusterKey = ie_ClusterKey e,
      ept_LBType = lb, ept_Path = tgt_Path (ie_Target e)\<rparr>"
  using assms by (simp add: fsm_endpoint_def annotations_of_def annotation_def parse_fmt_weight)

lemma concat_map_filter: "concat (map (\<lambda>x. case f x of None \<Rightarrow> [] | Some y \<Rightarrow> [y]) xs) = List.map_filter f xs"
  by (induction xs) (auto simp: List.map_filter_def split: option.splits)

lemma fsm_ListEndpointsForService_import:
  fixes svc keys port
  defines "sel \<equiv> filter (import_selected svc keys) (ip_Endpoints port)"
  assumes policy: "getServiceTrafficPolicy ic svc = (lb, keys)" "lb \<noteq> LocalityLbType"
    and si: "getServiceImport ic svc = Some si" "find (import_port_matches si svc) (si_Ports si) = Some port"
  shows "fsm_ListEndpointsForService ic svc = List.map_filter (\<lambda>e. import_endpoint svc lb keys (last_at sel e) e) sel"
proof -
  define eps where "eps = fold (add_import_endpoint svc lb keys port) (ip_Endpoints port)
    \<lparr>eps_Namespace = si_Namespace si, eps_Name = si_Name si, eps_Annotations = gmap_empty, eps_Subsets = []\<rparr>"
  have ports: "si_Ports si \<noteq> []" using si(2) by auto
  have get: "mc_GetEndpoints ic svc = Inr (Some eps)"
    using policy si ports by (simp add: mc_GetEndpoints_def eps_def)
  have subs: "eps_Subsets eps = map (import_subset port) sel"
    by (simp add: eps_def sel_def fold_add_import_endpoint_subsets)
  have ann: "fsm_endpoint eps (tgt_IP (ie_Target e)) (tgt_Port (ie_Target e)) addr =
     \<lparr>ept_IP = addr, ept_Port = word_of_int (tgt_Port (ie_Target e)),
      ept_Weight = clamp_weight (import_weight keys (last_at sel e)), ept_ClusterKey = ie_ClusterKey (last_at sel e),
      ept_LBType = lb, ept_Path = tgt_Path (ie_Target (last_at sel e))\<rparr>" if "e \<in> set sel" for e addr
  proof (rule fsm_endpoint_annotated)
    have "filter (\<lambda>e'. target_addr e' = target_addr e) sel \<noteq> []" using that by (auto simp: filter_empty_conv)
    then show "annotations_of (eps_Annotations eps) (tgt_IP (ie_Target e)) (tgt_Port (ie_Target e)) =
      (Some (ie_ClusterKey (last_at sel e)), Some (tgt_Path (ie_Target (last_at sel e))), Some lb, Some (fmt_int (import_weight keys (last_at sel e))))"
      unfolding eps_def annotations_of_fold sel_def [symmetric] Let_def last_at_def by simp
  qed
  have imp: "import_endpoint svc lb keys (last_at sel e) e =
     (if (ms_TargetPort svc = 0 \<or> tgt_Port (ie_Target e) = uint (ms_TargetPort svc)) \<and>
         (Subdomain svc = [] \<or> Subdomain svc = tgt_Host (ie_Target e))
      then map_option (\<lambda>addr. fsm_endpoint eps (tgt_IP (ie_Target e)) (tgt_Port (ie_Target e)) addr)
        (parse_ip (tgt_IP (ie_Target e))) else None)" if "e \<in> set sel" for e
    by (simp only: import_endpoint_def ann [OF that])
  have "fsm_ListEndpointsForService ic svc =
      concat (map (\<lambda>x. case import_endpoint svc lb keys (last_at sel x) x of None \<Rightarrow> [] | Some y \<Rightarrow> [y]) sel)"
    unfolding fsm_ListEndpointsForService_def get found_simps option.case subs map_map
    by (rule arg_cong [where f = concat], rule map_cong [OF refl])
      (simp add: imp import_subset_def split: option.split)
  then show ?thesis by (simp only: concat_map_filter)
qed

lemma mc_GetEndpoints_local: "isLocality ic svc \<Longrightarrow> mc_GetEndpoints ic svc = Inr None"
  by (auto simp: isLocality_lbType mc_GetEndpoints_def split: prod.splits)

lemma fsm_local:
  assumes "isLocality ic svc"
  shows "fsm_ListEndpointsForService ic svc = []" and "fsm_GetResolvableEndpointsForService ic svc = []"
    and "mc_GetService ic svc = None"
  using assms
  by (simp_all add: fsm_ListEndpointsForService_def mc_GetEndpoints_local mc_GetService_def
      fsm_GetResolvableEndpointsForService_def)

section \<open>Properties\<close>

text \<open>C5. The endpoints of an imported service that is not in local mode are the import's
  endpoints of the service's port which the policy selects, in the import's order, each with its parsed address, the
  gateway's port and the policy's load balancing type. Cluster key, path and weight (cut to 32 bits) of an
  endpoint are those of the last selected endpoint with the same address and port: they are its own when no later cluster is reached
  through the same gateway address, and otherwise that later cluster's.\<close>

theorem imported_endpoints:
  assumes "getServiceTrafficPolicy ic svc = (lb, keys)" and "lb \<noteq> LocalityLbType"
    and "getServiceImport ic svc = Some si" and "find (import_port_matches si svc) (si_Ports si) = Some port"
    and "sel = filter (import_selected svc keys) (ip_Endpoints port)"
  shows "fsm_ListEndpointsForService ic svc =
     List.map_filter (\<lambda>e. import_endpoint svc lb keys (last (filter (\<lambda>e'. target_addr e' = target_addr e) sel)) e) sel"
  using fsm_ListEndpointsForService_import [OF assms(1-4)] by (simp add: assms(5) last_at_def)

text \<open>When the selected endpoints have different addresses, each keeps what the import says of it.\<close>

corollary imported_endpoints_apart:
  assumes "getServiceTrafficPolicy ic svc = (lb, keys)" and "lb \<noteq> LocalityLbType"
    and "getServiceImport ic svc = Some si" and "find (import_port_matches si svc) (si_Ports si) = Some port"
    and "distinct (map target_addr (filter (import_selected svc keys) (ip_Endpoints port)))"
  shows "fsm_ListEndpointsForService ic svc =
     List.map_filter (\<lambda>e. import_endpoint svc lb keys e e) (filter (import_selected svc keys) (ip_Endpoints port))"
  unfolding fsm_ListEndpointsForService_import [OF assms(1-4)] List.map_filter_def
  using last_at_distinct [OF assms(5)] by (auto intro!: map_cong filter_cong)

definition sample_imported_service :: MeshService where
  "sample_imported_service = MeshService_zero\<lparr>ms_Namespace := ''shop'', ms_Name := ''web'', ms_Port := 80,
     ms_TargetPort := 8080, ms_ServiceImportUID := ''c1'', ms_Protocol := ''http''\<rparr>"

text \<open>Two clusters behind one gateway address, with different weights and paths.\<close>

definition shared_gateway_import :: ServiceImport where
  "shared_gateway_import = \<lparr>si_UID = ''uid-2'', si_Namespace = ''shop'', si_Name = ''web'',
     si_Ports = [\<lparr>ip_Name = ''http'', ip_Protocol = ''TCP'', ip_AppProtocol = None, ip_Port = 80,
       ip_Endpoints =
        [\<lparr>ie_Target = \<lparr>tgt_Host = ''gw1'', tgt_IP = ''192.168.1.5'', tgt_Port = 8080, tgt_Path = ''/c1/web''\<rparr>, ie_ClusterKey = ''c1''\<rparr>,
         \<lparr>ie_Target = \<lparr>tgt_Host = ''gw1'', tgt_IP = ''192.168.1.5'', tgt_Port = 8080, tgt_Path = ''/c2/web''\<rparr>, ie_ClusterKey = ''c2''\<rparr>]\<rparr>],
     si_ServiceAccountName = ''*''\<rparr>"

definition shared_gateway_ic :: InformerCollection where
  "shared_gateway_ic = (sample_ic ActiveActiveLbType)
     \<lparr>ic_ServiceImport := Some (list_store (\<lambda>i. si_Namespace i @ ''/'' @ si_Name i) [shared_gateway_import]),
      ic_GlobalTrafficPolicy := Some (list_store (\<lambda>p. gtp_Namespace p @ ''/'' @ gtp_Name p)
        [(sample_policy ActiveActiveLbType)\<lparr>gtp_LoadBalanceTarget :=
          [\<lparr>tt_ClusterKey = ''c1'', tt_Weight = Some 30\<rparr>, \<lparr>tt_ClusterKey = ''c2'', tt_Weight = Some 70\<rparr>]\<rparr>])\<rparr>"

theorem imported_endpoints_witness:
  "map (\<lambda>e. (ept_ClusterKey e, ept_Path e, ept_Weight e)) (fsm_ListEndpointsForService shared_gateway_ic sample_imported_service) =
     [(''c2'', ''/c2/web'', 70), (''c2'', ''/c2/web'', 70)]"
proof -
  let ?ic = shared_gateway_ic and ?svc = sample_imported_service
  let ?port = "si_Ports shared_gateway_import ! 0" and ?keys = "Some [(''c1'', 30 :: int), (''c2'', 70)]"
  define sel where "sel = filter (import_selected ?svc ?keys) (ip_Endpoints ?port)"
  have "fsm_ListEndpointsForService ?ic ?svc = List.map_filter (\<lambda>e. import_endpoint ?svc ActiveActiveLbType ?keys
      (last (filter (\<lambda>e'. target_addr e' = target_addr e) sel)) e) sel"
  proof (rule imported_endpoints [OF _ _ _ _ sel_def])
    show "getServiceTrafficPolicy ?ic ?svc = (ActiveActiveLbType, ?keys)" by code_simp
    show "ActiveActiveLbType \<noteq> LocalityLbType" by code_simp
    show "getServiceImport ?ic ?svc = Some shared_gateway_import" by code_simp
    show "find (import_port_matches shared_gateway_import ?svc) (si_Ports shared_gateway_import) = Some ?port" by code_simp
  qed
  then show ?thesis unfolding sel_def by (rule ssubst) code_simp
qed

end
