(* ===== verification/Catalog.thy ===== *)
theory Catalog
  imports Provider
begin

text \<open>
  \<open>pkg/ecnet/catalog\<close>: the mesh catalog, which asks its providers for services and endpoints and
  builds from them the outbound mesh traffic policy. The trust domain is the package variable
  of \<open>k8s/util.go\<close>.
\<close>

section \<open>Services and endpoints: catalog/service.go, catalog/endpoint.go\<close>

record MeshCatalog =
  mc_endpointsProviders :: "endpoint_provider list"
  mc_serviceProviders :: "service_provider list"
  mc_GetLbWeightForService :: "MeshService \<Rightarrow> LbWeight"

definition listMeshServices :: "MeshCatalog \<Rightarrow> MeshService list" where
  "listMeshServices mc =
     (let mcServices = concat (map prv_ListServices
            (filter (\<lambda>provider. prv_ServiceID provider = fsm_ProviderName) (mc_serviceProviders mc)));
          otherProviders = filter (\<lambda>provider. prv_ServiceID provider \<noteq> fsm_ProviderName) (mc_serviceProviders mc)
      in mcServices @
         (if 0 < length mcServices
          then [svc. provider \<leftarrow> otherProviders, svc \<leftarrow> prv_ListServices provider,
                  list_ex (\<lambda>mcSvc. ms_Name svc = ms_Name mcSvc \<and> ms_Namespace svc = ms_Namespace mcSvc) mcServices]
          else []))"

definition ListOutboundServices :: "MeshCatalog \<Rightarrow> MeshService list" where
  "ListOutboundServices mc = listMeshServices mc"

definition listEndpointsForService :: "MeshCatalog \<Rightarrow> MeshService \<Rightarrow> Endpoint list" where
  "listEndpointsForService mc svc =
     fold (\<lambda>provider endpoints.
       let ep = prv_ListEndpointsForService provider svc
       in if length ep = 0 then endpoints else endpoints @ ep) (mc_endpointsProviders mc) []"

definition getDNSResolvableServiceEndpoints :: "MeshCatalog \<Rightarrow> MeshService \<Rightarrow> Endpoint list" where
  "getDNSResolvableServiceEndpoints mc svc =
     fold (\<lambda>provider endpoints. endpoints @ prv_GetResolvableEndpointsForService provider svc)
       (mc_endpointsProviders mc) []"

text \<open>A \<open>nil\<close> and an empty slice are the same list.\<close>

definition ListUpstreamEndpointsForService :: "MeshCatalog \<Rightarrow> MeshService \<Rightarrow> Endpoint list" where
  "ListUpstreamEndpointsForService mc upstreamSvc =
     (let outboundEndpoints = listEndpointsForService mc upstreamSvc
      in if length outboundEndpoints = 0 then [] else outboundEndpoints)"

section \<open>catalog/outbound_traffic_policies.go\<close>

definition mergeUpstreamClusters :: "MeshCatalog \<Rightarrow> MeshService \<Rightarrow> WeightedCluster list \<Rightarrow> WeightedCluster list" where
  "mergeUpstreamClusters mc meshSvc upstreamClusters =
     (let weight = (if IsMultiClusterService meshSvc
                    then let lbw = mc_GetLbWeightForService mc meshSvc
                         in if lbw_aa lbw \<and> 0 < lbw_weight lbw then lbw_weight lbw
                            else if lbw_fo lbw then ClusterWeightFailOver else ClusterWeightAcceptAll
                    else ClusterWeightAcceptAll)
      in upstreamClusters @ [\<lparr>wc_ClusterName = ClusterName meshSvc, wc_Weight = weight\<rparr>])"

text \<open>The clusters collected for the wildcard route, each cluster name once; \<open>upstreamClusterMap\<close>
  holds the names collected so far.\<close>

definition collect_cluster :: "(WeightedCluster \<Rightarrow> int) \<Rightarrow> WeightedCluster \<Rightarrow> WeightedCluster list \<Rightarrow> WeightedCluster list" where
  "collect_cluster weight upstreamCluster upstreamClusters =
     (if wc_ClusterName upstreamCluster \<in> wc_ClusterName ` set upstreamClusters then upstreamClusters
      else upstreamClusters @ [\<lparr>wc_ClusterName = wc_ClusterName upstreamCluster, wc_Weight = weight upstreamCluster\<rparr>])"

definition getWildCardRouteUpstreamClusters ::
  "bool \<Rightarrow> HTTPRouteMatchWithWeightedClusters list \<Rightarrow> WeightedCluster list" where
  "getWildCardRouteUpstreamClusters hasTrafficSplitWildCard routeMatches =
     (if hasTrafficSplitWildCard
      then fold (collect_cluster wc_Weight)
             (concat (map hrmw_UpstreamClusters (filter (\<lambda>rm. \<not> hrmw_HasSplitMatches rm) routeMatches))) []
      else fold (collect_cluster (\<lambda>_. ClusterWeightAcceptAll))
             (concat (map hrmw_UpstreamClusters routeMatches)) [])"

text \<open>The two nested loops that add the routes of the route matches; an \<open>AddRoute\<close> error is logged
  and the policy left as it is. The first component is \<open>hasWildCardRoute\<close>.\<close>

definition add_route_matches ::
  "HTTPRouteMatchWithWeightedClusters list \<Rightarrow> OutboundTrafficPolicy \<Rightarrow> bool \<times> OutboundTrafficPolicy" where
  "add_route_matches routeMatches out =
     fold (\<lambda>(routeMatch, route) (hasWildCardRoute, out).
        (hasWildCardRoute \<or> hrm_Path route = RegexMatchAll,
         case AddRoute out route (hrmw_UpstreamClusters routeMatch) of Inl _ \<Rightarrow> out | Inr out' \<Rightarrow> out'))
       [(routeMatch, route). routeMatch \<leftarrow> routeMatches, route \<leftarrow> hrmw_RouteMatches routeMatch] (False, out)"

definition exist_mcs_endpoints :: "Endpoint list \<Rightarrow> bool" where
  "exist_mcs_endpoints endpoints = list_ex (\<lambda>endp. 0 < length (ept_ClusterKey endp)) endpoints"

definition resolvable_ip_set :: "Endpoint list \<Rightarrow> string list" where
  "resolvable_ip_set endpoints = fold (\<lambda>endp. add_new (ip_string (ept_IP endp))) endpoints []"

definition add_resolvable :: "MeshCatalog \<Rightarrow> MeshService \<Rightarrow> (string, string list) gomap \<Rightarrow> (string, string list) gomap" where
  "add_resolvable mc meshSvc servicesResolvableSet =
     (let endpoints = getDNSResolvableServiceEndpoints mc meshSvc; ips = resolvable_ip_set endpoints
      in if exist_mcs_endpoints endpoints \<and> 0 < length ips
         then gmap_put servicesResolvableSet (FQDN meshSvc) ips else servicesResolvableSet)"

definition route_matches :: "MeshCatalog \<Rightarrow> MeshService \<Rightarrow> HTTPRouteMatchWithWeightedClusters list" where
  "route_matches mc meshSvc =
     [\<lparr>hrmw_UpstreamClusters = mergeUpstreamClusters mc meshSvc [], hrmw_RouteMatches = [], hrmw_HasSplitMatches = False\<rparr>]"

definition service_traffic_matches :: "MeshCatalog \<Rightarrow> MeshService \<Rightarrow> TrafficMatch list" where
  "service_traffic_matches mc meshSvc =
     map (\<lambda>routeMatch. \<lparr>tmt_DestinationPort = uint (ms_Port meshSvc), tmt_DestinationProtocol = ms_Protocol meshSvc,
        tmt_Name = OutboundTrafficMatchName meshSvc, tmt_WeightedClusters = hrmw_UpstreamClusters routeMatch\<rparr>)
       (route_matches mc meshSvc)"

text \<open>The HTTP policy of a service; \<open>None\<close> when the wildcard route could not be added.\<close>

definition service_http_policy :: "string \<Rightarrow> MeshCatalog \<Rightarrow> MeshService \<Rightarrow> OutboundTrafficPolicy option" where
  "service_http_policy trustDomain mc meshSvc =
     (let routeMatches = route_matches mc meshSvc;
          (hasWildCardRoute, out) = add_route_matches routeMatches
            (NewOutboundTrafficPolicy (FQDN meshSvc) (GetHostnamesForService trustDomain meshSvc False))
      in if hasWildCardRoute then Some out
         else case AddRoute out WildCardRouteMatch (getWildCardRouteUpstreamClusters True routeMatches) of
                Inl _ \<Rightarrow> None | Inr out' \<Rightarrow> Some out')"

text \<open>One iteration of the loop over the outbound services.\<close>

definition outbound_service_step ::
  "string \<Rightarrow> MeshCatalog \<Rightarrow> MeshService \<Rightarrow> OutboundMeshTrafficPolicy \<Rightarrow> OutboundMeshTrafficPolicy" where
  "outbound_service_step trustDomain mc meshSvc acc =
     (let acc = acc\<lparr>
            omtp_ServicesResolvableSet := add_resolvable mc meshSvc (omtp_ServicesResolvableSet acc),
            omtp_ClustersConfigs := omtp_ClustersConfigs acc @ [\<lparr>mcc_Name = ClusterName meshSvc, mcc_Service = meshSvc\<rparr>],
            omtp_TrafficMatches := omtp_TrafficMatches acc @ service_traffic_matches mc meshSvc\<rparr>;
          port = uint (ms_Port meshSvc); configs = omtp_HTTPRouteConfigsPerPort acc
      in if ms_Protocol meshSvc = ProtocolTCP \<or> ms_Protocol meshSvc = ProtocolTCPServerFirst then acc
         else case service_http_policy trustDomain mc meshSvc of
                None \<Rightarrow> acc
              | Some policy \<Rightarrow>
                  acc\<lparr>omtp_HTTPRouteConfigsPerPort :=
                    gmap_put configs port ((case gmap_get configs port of None \<Rightarrow> [] | Some ps \<Rightarrow> ps) @ [policy])\<rparr>)"

definition GetOutboundMeshTrafficPolicy :: "string \<Rightarrow> MeshCatalog \<Rightarrow> OutboundMeshTrafficPolicy" where
  "GetOutboundMeshTrafficPolicy trustDomain mc =
     fold (outbound_service_step trustDomain mc) (ListOutboundServices mc)
       \<lparr>omtp_TrafficMatches = [], omtp_HTTPRouteConfigsPerPort = gmap_empty, omtp_ClustersConfigs = [],
        omtp_ServicesResolvableSet = gmap_empty\<rparr>"

text \<open>The catalog the controller and the bridge build over one informer collection.\<close>

definition NewMeshCatalog :: "InformerCollection \<Rightarrow> MeshCatalog" where
  "NewMeshCatalog ic =
     \<lparr>mc_endpointsProviders = [kube_provider ic, fsm_provider ic],
      mc_serviceProviders = [kube_service_provider ic, fsm_service_provider ic],
      mc_GetLbWeightForService = GetLbWeightForService ic\<rparr>"

section \<open>The policy of one service\<close>

definition cluster_weight :: "MeshCatalog \<Rightarrow> MeshService \<Rightarrow> int" where
  "cluster_weight mc meshSvc = wc_Weight (last (mergeUpstreamClusters mc meshSvc []))"

lemma mergeUpstreamClusters_Nil:
  "mergeUpstreamClusters mc meshSvc [] = [\<lparr>wc_ClusterName = ClusterName meshSvc, wc_Weight = cluster_weight mc meshSvc\<rparr>]"
  by (simp add: mergeUpstreamClusters_def cluster_weight_def Let_def)

text \<open>The policy every HTTP service gets: one wildcard route to the service's own cluster.\<close>

definition wildcard_policy :: "string \<Rightarrow> MeshCatalog \<Rightarrow> MeshService \<Rightarrow> OutboundTrafficPolicy" where
  "wildcard_policy trustDomain mc meshSvc =
     \<lparr>otp_Name = FQDN meshSvc, otp_Hostnames = GetHostnamesForService trustDomain meshSvc False,
      otp_Routes = [\<lparr>rwc_HTTPRouteMatch = WildCardRouteMatch,
        rwc_WeightedClusters = [\<lparr>wc_ClusterName = ClusterName meshSvc, wc_Weight = cluster_weight mc meshSvc\<rparr>]\<rparr>]\<rparr>"

lemma service_http_policy_wildcard:
  "service_http_policy trustDomain mc meshSvc = Some (wildcard_policy trustDomain mc meshSvc)"
  by (simp add: service_http_policy_def route_matches_def add_route_matches_def mergeUpstreamClusters_Nil
      getWildCardRouteUpstreamClusters_def collect_cluster_def NewOutboundTrafficPolicy_def
      AddRoute_fresh wildcard_policy_def add_new_def)

definition traffic_match :: "MeshCatalog \<Rightarrow> MeshService \<Rightarrow> TrafficMatch" where
  "traffic_match mc meshSvc =
     \<lparr>tmt_DestinationPort = uint (ms_Port meshSvc), tmt_DestinationProtocol = ms_Protocol meshSvc,
      tmt_Name = OutboundTrafficMatchName meshSvc,
      tmt_WeightedClusters = [\<lparr>wc_ClusterName = ClusterName meshSvc, wc_Weight = cluster_weight mc meshSvc\<rparr>]\<rparr>"

definition cluster_config :: "MeshService \<Rightarrow> MeshClusterConfig" where
  "cluster_config meshSvc = \<lparr>mcc_Name = ClusterName meshSvc, mcc_Service = meshSvc\<rparr>"

definition is_http :: "MeshService \<Rightarrow> bool" where
  "is_http meshSvc \<longleftrightarrow> ms_Protocol meshSvc \<noteq> ProtocolTCP \<and> ms_Protocol meshSvc \<noteq> ProtocolTCPServerFirst"

definition add_http_policy ::
  "string \<Rightarrow> MeshCatalog \<Rightarrow> MeshService \<Rightarrow> (int, OutboundTrafficPolicy list) gomap \<Rightarrow> (int, OutboundTrafficPolicy list) gomap" where
  "add_http_policy trustDomain mc meshSvc m =
     (if is_http meshSvc
      then gmap_put m (uint (ms_Port meshSvc))
             ((case gmap_get m (uint (ms_Port meshSvc)) of None \<Rightarrow> [] | Some ps \<Rightarrow> ps) @ [wildcard_policy trustDomain mc meshSvc])
      else m)"

lemma outbound_service_step_eq:
  "outbound_service_step trustDomain mc meshSvc acc =
     acc\<lparr>omtp_ServicesResolvableSet := add_resolvable mc meshSvc (omtp_ServicesResolvableSet acc),
         omtp_ClustersConfigs := omtp_ClustersConfigs acc @ [cluster_config meshSvc],
         omtp_TrafficMatches := omtp_TrafficMatches acc @ [traffic_match mc meshSvc],
         omtp_HTTPRouteConfigsPerPort := add_http_policy trustDomain mc meshSvc (omtp_HTTPRouteConfigsPerPort acc)\<rparr>"
  by (auto simp: outbound_service_step_def service_http_policy_wildcard add_http_policy_def is_http_def
      cluster_config_def traffic_match_def service_traffic_matches_def route_matches_def
      mergeUpstreamClusters_Nil Let_def)

section \<open>The policy of the mesh, field by field\<close>

lemma fold_outbound_service_step:
  "fold (outbound_service_step trustDomain mc) svcs acc =
     \<lparr>omtp_TrafficMatches = omtp_TrafficMatches acc @ map (traffic_match mc) svcs,
      omtp_HTTPRouteConfigsPerPort = fold (add_http_policy trustDomain mc) svcs (omtp_HTTPRouteConfigsPerPort acc),
      omtp_ClustersConfigs = omtp_ClustersConfigs acc @ map cluster_config svcs,
      omtp_ServicesResolvableSet = fold (add_resolvable mc) svcs (omtp_ServicesResolvableSet acc)\<rparr>"
  by (induction svcs arbitrary: acc) (simp_all add: outbound_service_step_eq)

lemma GetOutboundMeshTrafficPolicy_eq:
  "GetOutboundMeshTrafficPolicy trustDomain mc =
     \<lparr>omtp_TrafficMatches = map (traffic_match mc) (ListOutboundServices mc),
      omtp_HTTPRouteConfigsPerPort = fold (add_http_policy trustDomain mc) (ListOutboundServices mc) gmap_empty,
      omtp_ClustersConfigs = map cluster_config (ListOutboundServices mc),
      omtp_ServicesResolvableSet = fold (add_resolvable mc) (ListOutboundServices mc) gmap_empty\<rparr>"
  by (simp add: GetOutboundMeshTrafficPolicy_def fold_outbound_service_step)

definition http_policies_of_port :: "string \<Rightarrow> MeshCatalog \<Rightarrow> int \<Rightarrow> MeshService list \<Rightarrow> OutboundTrafficPolicy list" where
  "http_policies_of_port trustDomain mc port svcs =
     map (wildcard_policy trustDomain mc) (filter (\<lambda>s. is_http s \<and> uint (ms_Port s) = port) svcs)"

lemma get_fold_add_http_policy:
  "gmap_get (fold (add_http_policy trustDomain mc) svcs m) port =
     (let ps = http_policies_of_port trustDomain mc port svcs
      in if ps = [] then gmap_get m port
         else Some ((case gmap_get m port of None \<Rightarrow> [] | Some qs \<Rightarrow> qs) @ ps))"
proof (induction svcs arbitrary: m)
  case Nil
  then show ?case by (simp add: http_policies_of_port_def)
next
  case (Cons s svcs)
  show ?case
    unfolding fold_simps comp_apply Cons.IH
    by (auto simp: http_policies_of_port_def add_http_policy_def Let_def split: option.splits)
qed

lemma wf_fold_add_http_policy: "gmap_wf m \<Longrightarrow> gmap_wf (fold (add_http_policy trustDomain mc) svcs m)"
  by (induction svcs arbitrary: m) (auto simp: add_http_policy_def)

text \<open>The resolvable set: services with an endpoint in another cluster.\<close>

definition dns_visible :: "MeshCatalog \<Rightarrow> MeshService \<Rightarrow> bool" where
  "dns_visible mc svc \<longleftrightarrow> exist_mcs_endpoints (getDNSResolvableServiceEndpoints mc svc)"

lemma set_fold_add_new_map: "set (fold (\<lambda>x. add_new (f x)) xs ys) = f ` set xs \<union> set ys"
  by (induction xs arbitrary: ys) auto

lemma distinct_fold_add_new_map: "distinct ys \<Longrightarrow> distinct (fold (\<lambda>x. add_new (f x)) xs ys)"
  by (induction xs arbitrary: ys) auto

lemma resolvable_ip_set:
  "set (resolvable_ip_set eps) = (\<lambda>e. ip_string (ept_IP e)) ` set eps" "distinct (resolvable_ip_set eps)"
  by (simp_all add: resolvable_ip_set_def set_fold_add_new_map distinct_fold_add_new_map)

lemma add_resolvable_eq:
  "add_resolvable mc svc m =
     (if dns_visible mc svc then gmap_put m (FQDN svc) (resolvable_ip_set (getDNSResolvableServiceEndpoints mc svc)) else m)"
proof -
  have "length (resolvable_ip_set eps) \<noteq> 0" if "exist_mcs_endpoints eps" for eps
  proof -
    from that have "eps \<noteq> []" by (auto simp: exist_mcs_endpoints_def)
    then have "set (resolvable_ip_set eps) \<noteq> {}" by (simp add: resolvable_ip_set)
    then show ?thesis by auto
  qed
  then show ?thesis by (simp add: add_resolvable_def dns_visible_def Let_def)
qed

lemma fold_add_resolvable:
  "fold (add_resolvable mc) svcs m =
     gm.put_all FQDN (\<lambda>svc. resolvable_ip_set (getDNSResolvableServiceEndpoints mc svc)) (filter (dns_visible mc) svcs) m"
  by (induction svcs arbitrary: m) (simp_all add: add_resolvable_eq)

section \<open>What the catalog's providers give it\<close>

lemma listEndpointsForService_concat:
  "listEndpointsForService mc svc = concat (map (\<lambda>p. prv_ListEndpointsForService p svc) (mc_endpointsProviders mc))"
proof -
  have "(\<lambda>p eps. let ep = prv_ListEndpointsForService p svc in if length ep = 0 then eps else eps @ ep) =
      (\<lambda>p eps. eps @ prv_ListEndpointsForService (p :: endpoint_provider) svc)"
    by (simp add: fun_eq_iff Let_def)
  then show ?thesis by (simp add: listEndpointsForService_def fold_append_concat)
qed

lemma ListUpstreamEndpointsForService_concat:
  "ListUpstreamEndpointsForService mc svc =
     concat (map (\<lambda>p. prv_ListEndpointsForService p svc) (mc_endpointsProviders mc))"
  by (simp add: ListUpstreamEndpointsForService_def listEndpointsForService_concat Let_def)

lemma getDNSResolvable_concat:
  "getDNSResolvableServiceEndpoints mc svc =
     concat (map (\<lambda>p. prv_GetResolvableEndpointsForService p svc) (mc_endpointsProviders mc))"
  by (simp add: getDNSResolvableServiceEndpoints_def fold_append_concat)

locale mesh_catalog =
  fixes mc :: MeshCatalog
  assumes providers: "p \<in> set (mc_endpointsProviders mc) \<Longrightarrow> endpoints_provider p"
begin

lemma upstream_parsed:
  "e \<in> set (ListUpstreamEndpointsForService mc svc) \<Longrightarrow> \<exists>s. parse_ip s = Some (ept_IP e)"
  unfolding ListUpstreamEndpointsForService_concat
  using providers endpoints_provider.list_parsed by fastforce

lemma upstream_port:
  "e \<in> set (ListUpstreamEndpointsForService mc svc) \<Longrightarrow> ms_TargetPort svc \<noteq> 0 \<Longrightarrow>
     ept_Port e = ucast (ms_TargetPort svc)"
  unfolding ListUpstreamEndpointsForService_concat
  using providers endpoints_provider.list_port by fastforce

lemma resolvable_parsed:
  "e \<in> set (getDNSResolvableServiceEndpoints mc svc) \<Longrightarrow> \<exists>s. parse_ip s = Some (ept_IP e)"
  unfolding getDNSResolvable_concat
  using providers endpoints_provider.resolvable_parsed by fastforce

lemma resolvable_ips_parsed:
  "addr \<in> set (resolvable_ip_set (getDNSResolvableServiceEndpoints mc svc)) \<Longrightarrow>
     \<exists>s a. parse_ip s = Some a \<and> addr = ip_string a"
  using resolvable_parsed unfolding resolvable_ip_set by blast

end

interpretation ecnet: mesh_catalog "NewMeshCatalog ic" for ic
proof (rule mesh_catalog.intro)
  fix p assume "p \<in> set (mc_endpointsProviders (NewMeshCatalog ic))"
  then consider "p = kube_provider ic" | "p = fsm_provider ic" by (auto simp: NewMeshCatalog_def)
  then show "endpoints_provider p"
    by cases (simp_all add: kube.endpoints_provider_axioms fsm.endpoints_provider_axioms)
qed

section \<open>Which services the mesh has\<close>

definition svc_key :: "MeshService \<Rightarrow> string \<times> string" where
  "svc_key svc = (ms_Namespace svc, ms_Name svc)"

definition imported_services :: "MeshCatalog \<Rightarrow> MeshService list" where
  "imported_services mc = concat (map prv_ListServices
     (filter (\<lambda>provider. prv_ServiceID provider = fsm_ProviderName) (mc_serviceProviders mc)))"

lemma set_listMeshServices:
  "set (listMeshServices mc) = set (imported_services mc) \<union>
     {svc. \<exists>p \<in> set (mc_serviceProviders mc). prv_ServiceID p \<noteq> fsm_ProviderName \<and> svc \<in> set (prv_ListServices p) \<and>
        (\<exists>m \<in> set (imported_services mc). ms_Name svc = ms_Name m \<and> ms_Namespace svc = ms_Namespace m)}"
  by (auto simp: listMeshServices_def imported_services_def Let_def list_ex_iff)

lemma NewMeshCatalog_upstream:
  "ListUpstreamEndpointsForService (NewMeshCatalog ic) svc =
     kube_ListEndpointsForService ic svc @ fsm_ListEndpointsForService ic svc"
  by (simp add: ListUpstreamEndpointsForService_concat NewMeshCatalog_def kube_provider_def fsm_provider_def)

lemma NewMeshCatalog_resolvable:
  "getDNSResolvableServiceEndpoints (NewMeshCatalog ic) svc =
     kube_GetResolvableEndpointsForService ic svc @ fsm_GetResolvableEndpointsForService ic svc"
  by (simp add: getDNSResolvable_concat NewMeshCatalog_def kube_provider_def fsm_provider_def)

lemma kube_resolvable_local:
  assumes "e \<in> set (kube_GetResolvableEndpointsForService ic svc)"
  shows "ept_ClusterKey e = []"
proof (cases "k8s_GetService ic svc")
  case (Some kubeService)
  with assms kube_ListEndpoints_in(3) [of e ic svc] show ?thesis
    by (cases "parse_ip (svc_ClusterIP kubeService)")
      (auto simp: kube_GetResolvableEndpointsForService_def Endpoint_zero_def split: if_splits)
qed (use assms in \<open>simp add: kube_GetResolvableEndpointsForService_def\<close>)

lemma NewMeshCatalog_imported: "imported_services (NewMeshCatalog ic) = fsm_ListServices ic"
  by (simp add: imported_services_def NewMeshCatalog_def kube_service_provider_def fsm_service_provider_def
      kube_providerName_def fsm_ProviderName_def)

section \<open>Properties\<close>

text \<open>C6. While the policy of a service keeps it local, none of its traffic leaves the cluster: its
  upstream endpoints are the pods of the local service, none of them carries a cluster key, and
  the name of the service is not given to the DNS of the mesh.\<close>

theorem local_mode_stays_local:
  assumes "isLocality ic svc"
  shows "ListUpstreamEndpointsForService (NewMeshCatalog ic) svc = kube_ListEndpointsForService ic svc \<and>
     (\<forall>e \<in> set (ListUpstreamEndpointsForService (NewMeshCatalog ic) svc). ept_ClusterKey e = []) \<and>
     add_resolvable (NewMeshCatalog ic) svc m = m"
proof -
  note local = fsm_local [OF assms]
  have upstream: "ListUpstreamEndpointsForService (NewMeshCatalog ic) svc = kube_ListEndpointsForService ic svc"
    by (simp add: NewMeshCatalog_upstream local)
  have "\<not> dns_visible (NewMeshCatalog ic) svc"
    using kube_resolvable_local
    by (auto simp: dns_visible_def exist_mcs_endpoints_def list_ex_iff NewMeshCatalog_resolvable local)
  then show ?thesis
    using kube_ListEndpoints_in(3) by (auto simp: upstream add_resolvable_eq)
qed

theorem local_mode_stays_local_witness:
  "isLocality (sample_ic LocalityLbType) sample_imported_service \<and>
   length (ListUpstreamEndpointsForService (NewMeshCatalog (sample_ic LocalityLbType)) sample_imported_service) = 1"
proof
  show loc: "isLocality (sample_ic LocalityLbType) sample_imported_service" by code_simp
  show "length (ListUpstreamEndpointsForService (NewMeshCatalog (sample_ic LocalityLbType)) sample_imported_service) = 1"
    unfolding local_mode_stays_local [OF loc, THEN conjunct1] by code_simp
qed

text \<open>C7. The services of the mesh are the imported ones together with the local services that share
  name and namespace with an imported one; a local service that no other cluster exports is left
  alone.\<close>

theorem mesh_services:
  "svc \<in> set (ListOutboundServices (NewMeshCatalog ic)) \<longleftrightarrow>
     svc \<in> set (fsm_ListServices ic) \<or>
     (svc \<in> set (kube_ListServices ic) \<and>
      (svc_key svc \<in> svc_key ` set (fsm_ListServices ic)))"
  unfolding ListOutboundServices_def set_listMeshServices NewMeshCatalog_imported
  by (auto simp: NewMeshCatalog_def kube_service_provider_def fsm_service_provider_def
      kube_providerName_def fsm_ProviderName_def svc_key_def)

text \<open>C8. The outbound policy the catalog computes, field by field: per service of the mesh one
  traffic match and one cluster configuration, in the order of the services; under every port the
  policies of its HTTP services, each a single wildcard route to the cluster of its service.\<close>

theorem outbound_policy_fields:
  "omtp_TrafficMatches (GetOutboundMeshTrafficPolicy trustDomain mc) = map (traffic_match mc) (ListOutboundServices mc) \<and>
   omtp_ClustersConfigs (GetOutboundMeshTrafficPolicy trustDomain mc) = map cluster_config (ListOutboundServices mc) \<and>
   gmap_get (omtp_HTTPRouteConfigsPerPort (GetOutboundMeshTrafficPolicy trustDomain mc)) port =
     (let ps = http_policies_of_port trustDomain mc port (ListOutboundServices mc) in if ps = [] then None else Some ps)"
  by (simp add: GetOutboundMeshTrafficPolicy_eq get_fold_add_http_policy Let_def)

lemma get_put_all_last:
  "gmap_get (gm.put_all k v xs m) key =
     (if filter (\<lambda>x. k x = key) xs = [] then gmap_get m key else Some (v (last (filter (\<lambda>x. k x = key) xs))))"
  by (induction xs arbitrary: m) auto

lemma resolvable_entries:
  "gmap_get (omtp_ServicesResolvableSet (GetOutboundMeshTrafficPolicy trustDomain mc)) name =
     (case filter (\<lambda>svc. dns_visible mc svc \<and> FQDN svc = name) (ListOutboundServices mc) of
        [] \<Rightarrow> None
      | svcs \<Rightarrow> Some (resolvable_ip_set (getDNSResolvableServiceEndpoints mc (last svcs))))"
  by (simp add: GetOutboundMeshTrafficPolicy_eq fold_add_resolvable get_put_all_last conj_commute split: list.split)


text \<open>Every endpoint the catalog gives to the routes has an address that was parsed from text,
  and the port of the service it was asked for.\<close>

theorem upstream_endpoints_sound:
  assumes "e \<in> set (ListUpstreamEndpointsForService (NewMeshCatalog ic) svc)"
  shows "(\<exists>s. parse_ip s = Some (ept_IP e)) \<and> (ms_TargetPort svc \<noteq> 0 \<longrightarrow> ept_Port e = ucast (ms_TargetPort svc))"
  using ecnet.upstream_parsed [OF assms] ecnet.upstream_port [OF assms] by simp

theorem upstream_endpoints_sound_witness:
  "\<exists>e \<in> set (ListUpstreamEndpointsForService (NewMeshCatalog (sample_ic ActiveActiveLbType)) sample_imported_service).
     ept_Port e = 8080"
proof -
  let ?eps = "ListUpstreamEndpointsForService (NewMeshCatalog (sample_ic ActiveActiveLbType)) sample_imported_service"
  have "?eps \<noteq> []" by code_simp
  then have e: "hd ?eps \<in> set ?eps" by simp
  have "ept_Port (hd ?eps) = 8080"
    using upstream_endpoints_sound [OF e] by (simp add: sample_imported_service_def)
  with e show ?thesis by blast
qed

end
