(* ===== verification/TrafficRoutes.thy ===== *)
theory TrafficRoutes
  imports PipyConf Catalog
begin

text \<open>
  \<open>pkg/ecnet/bridge/ctrlplane/server/util.go\<close>: the translation of the mesh catalog's outbound
  policy into the proxy configuration, first the routes
  (\<open>generatePipyOutboundTrafficRoutePolicy\<close>), then the endpoints of the clusters they name
  (\<open>generatePipyOutboundTrafficBalancePolicy\<close>).
\<close>

section \<open>Names\<close>

datatype cluster_name_error = InvalidClusterName | InvalidClusterPort

definition clusterToMeshSvc :: "string \<Rightarrow> cluster_name_error + MeshService" where
  "clusterToMeshSvc cluster =
     (case fields_func (\<lambda>r. r = CHR ''/'' \<or> r = CHR ''|'') cluster of
        [ns, name, p] \<Rightarrow>
          (case parse_uint 16 p of
             (port, Some _) \<Rightarrow> Inl InvalidClusterPort
           | (port, None) \<Rightarrow>
               Inr (MeshService_zero\<lparr>ms_Namespace := ns, ms_Name := name, ms_TargetPort := word_of_nat port\<rparr>))
      | _ \<Rightarrow> Inl InvalidClusterName)"

definition trafficMatchToMeshSvc :: "TrafficMatch \<Rightarrow> MeshService option" where
  "trafficMatchToMeshSvc trafficMatch =
     (case fields_func (\<lambda>r. r = CHR ''_'') (tmt_Name trafficMatch) of
        [_, nn, _, _] \<Rightarrow>
          (case NamespacedNameFrom nn of
             None \<Rightarrow> None
           | Some (ns, name) \<Rightarrow>
               Some (MeshService_zero\<lparr>ms_Namespace := ns, ms_Name := name,
                 ms_Protocol := to_lower (tmt_DestinationProtocol trafficMatch),
                 ms_TargetPort := word_of_int (tmt_DestinationPort trafficMatch)\<rparr>))
      | _ \<Rightarrow> None)"

definition matchType :: "PathMatchType \<Rightarrow> string" where
  "matchType t = (case t of PathMatchExact \<Rightarrow> URI_PathMatchExact | PathMatchPrefix \<Rightarrow> URI_PathMatchPrefix
                  | _ \<Rightarrow> URI_PathMatchRegex)"

definition cluster_equal :: "WeightedCluster \<Rightarrow> WeightedCluster \<Rightarrow> bool" where
  "cluster_equal ca cb \<longleftrightarrow> wc_ClusterName ca = wc_ClusterName cb \<and> wc_Weight ca = wc_Weight cb"

definition arrayEqual :: "WeightedCluster list \<Rightarrow> WeightedCluster list \<Rightarrow> bool" where
  "arrayEqual a b \<longleftrightarrow>
     length a = length b \<and>
     list_all (\<lambda>ca. list_ex (\<lambda>cb. cluster_equal ca cb) b) a \<and>
     list_all (\<lambda>cb. list_ex (\<lambda>ca. cluster_equal cb ca) a) b"

definition getOutboundHTTPRouteConfigs ::
  "(int, OutboundTrafficPolicy list) gomap \<Rightarrow> int \<Rightarrow> string \<Rightarrow> WeightedCluster list \<Rightarrow> OutboundTrafficPolicy list" where
  "getOutboundHTTPRouteConfigs httpRouteConfigsPerPort targetPort upstreamSvcFQDN weightedClusters =
     (case gmap_get httpRouteConfigsPerPort targetPort of
        None \<Rightarrow> []
      | Some trafficPolicies \<Rightarrow>
          filter (\<lambda>trafficPolicy. otp_Name trafficPolicy = upstreamSvcFQDN \<and>
            list_ex (\<lambda>route. arrayEqual weightedClusters (rwc_WeightedClusters route)) (otp_Routes trafficPolicy))
            trafficPolicies)"

definition getMeshClusterConfigs :: "MeshClusterConfig list \<Rightarrow> string \<Rightarrow> MeshClusterConfig option" where
  "getMeshClusterConfigs clustersConfigs clusterName = find (\<lambda>c. clusterName = mcc_Name c) clustersConfigs"

definition getUpstreamEndpoints :: "MeshCatalog \<Rightarrow> string \<Rightarrow> Endpoint list" where
  "getUpstreamEndpoints meshCatalog clusterName =
     (case clusterToMeshSvc clusterName of
        Inr dstSvc \<Rightarrow> ListUpstreamEndpointsForService meshCatalog dstSvc
      | Inl _ \<Rightarrow> [])"

section \<open>Routes\<close>

type_synonym depend_clusters = "(string, WeightedCluster) gomap"

definition add_depend :: "WeightedCluster \<Rightarrow> depend_clusters \<Rightarrow> depend_clusters" where
  "add_depend c dependClusters =
     (case gmap_get dependClusters (wc_ClusterName c) of
        None \<Rightarrow> gmap_put dependClusters (wc_ClusterName c) c | Some _ \<Rightarrow> dependClusters)"

text \<open>The match rule built from a route.\<close>

definition http_match :: "HTTPRouteMatch \<Rightarrow> HTTPMatchRule" where
  "http_match m =
     (let hm = HTTPMatchRule_zero\<lparr>hmr_Path := hrm_Path m, hmr_Type := matchType (hrm_PathMatchType m)\<rparr>;
          hm = (if length (hmr_Type hm) = 0 then hm\<lparr>hmr_Type := URI_PathMatchRegex\<rparr> else hm);
          hm = (if length (hmr_Path hm) = 0 then hm\<lparr>hmr_Path := RegexMatchAll\<rparr> else hm);
          hm = fold (\<lambda>(k, v). addHeaderMatch k v) (entries (hrm_Headers m)) hm;
          methods = (case hrm_Methods m of None \<Rightarrow> [] | Some ms \<Rightarrow> ms)
      in if length methods = 0 then addMethodMatch ''*'' hm else fold addMethodMatch methods hm)"

text \<open>One route of a route config: its rule is looked up or appended under the rule name, and its
  clusters are added to the rule. With the empty rule name the rules are \<open>nil\<close> and reading
  them panics.\<close>

definition add_route ::
  "string \<Rightarrow> RouteWeightedClusters \<Rightarrow> OutboundTrafficMatch \<times> depend_clusters \<Rightarrow>
     (OutboundTrafficMatch \<times> depend_clusters) outcome" where
  "add_route ruleName route s =
     (let (tm, dependClusters) = s in
      if length ruleName = 0 then Panics
      else let rules = (case gmap_get (otm_HTTPServiceRouteRules tm) ruleName of None \<Rightarrow> [] | Some rs \<Rightarrow> rs);
               (rules, i, _) = newHTTPServiceRouteRule (http_match (rwc_HTTPRouteMatch route)) rules;
               hsrr = fold (\<lambda>c. http_addWeightedCluster (wc_ClusterName c) (word_of_int (wc_Weight c)))
                        (rwc_WeightedClusters route) (rules ! i)
           in Returns (tm\<lparr>otm_HTTPServiceRouteRules :=
                         gmap_put (otm_HTTPServiceRouteRules tm) ruleName (rules[i := hsrr])\<rparr>,
                       fold add_depend (rwc_WeightedClusters route) dependClusters))"

definition add_http_config ::
  "OutboundTrafficPolicy \<Rightarrow> OutboundTrafficMatch \<times> depend_clusters \<Rightarrow>
     (OutboundTrafficMatch \<times> depend_clusters) outcome" where
  "add_http_config httpRouteConfig s =
     (let (tm, dependClusters) = s; ruleName = otp_Name httpRouteConfig;
          (tm, _) = newHTTPServiceRouteRules ruleName tm;
          tm = fold (\<lambda>hostname. addHTTPHostPort2Service hostname ruleName) (otp_Hostnames httpRouteConfig) tm
      in outcome_fold (add_route ruleName) (otp_Routes httpRouteConfig) (tm, dependClusters))"

definition add_tcp_cluster ::
  "WeightedCluster \<Rightarrow> OutboundTrafficMatch \<times> depend_clusters \<Rightarrow> OutboundTrafficMatch \<times> depend_clusters" where
  "add_tcp_cluster c s =
     (tcp_addWeightedCluster (wc_ClusterName c) (word_of_int (wc_Weight c)) (fst s), add_depend c (snd s))"

text \<open>What a traffic match contributes to its (shared) match object: the body of the loop after the
  match object has been found or created. Reading \<open>FQDN\<close> of a \<open>nil\<close> service panics.\<close>

definition is_http_protocol :: "string \<Rightarrow> bool" where
  "is_http_protocol p \<longleftrightarrow> p = ProtocolHTTP \<or> p = ProtocolGRPC"

definition fill_match ::
  "OutboundMeshTrafficPolicy \<Rightarrow> TrafficMatch \<Rightarrow> OutboundTrafficMatch \<times> depend_clusters \<Rightarrow>
     (OutboundTrafficMatch \<times> depend_clusters) outcome" where
  "fill_match outboundPolicy trafficMatch s =
     (let destinationProtocol = to_lower (tmt_DestinationProtocol trafficMatch) in
      if is_http_protocol destinationProtocol then
        (case trafficMatchToMeshSvc trafficMatch of
           None \<Rightarrow> Panics
         | Some upstreamSvc \<Rightarrow>
             outcome_fold add_http_config
               (getOutboundHTTPRouteConfigs (omtp_HTTPRouteConfigsPerPort outboundPolicy)
                  (uint (ms_TargetPort upstreamSvc)) (FQDN upstreamSvc) (tmt_WeightedClusters trafficMatch)) s)
      else if destinationProtocol = ProtocolTCP \<or> destinationProtocol = ProtocolTCPServerFirst then
        Returns (fold add_tcp_cluster (tmt_WeightedClusters trafficMatch) (newTCPServiceRouteRules (fst s), snd s))
      else if destinationProtocol = ProtocolHTTPS then
        (case trafficMatchToMeshSvc trafficMatch of
           None \<Rightarrow> Panics
         | Some upstreamSvc \<Rightarrow>
             (let httpRouteConfigs = getOutboundHTTPRouteConfigs (omtp_HTTPRouteConfigsPerPort outboundPolicy)
                    (uint (ms_TargetPort upstreamSvc)) (FQDN upstreamSvc) (tmt_WeightedClusters trafficMatch)
              in if length httpRouteConfigs = 0 then Returns s
                 else Returns (fold add_tcp_cluster
                        [c. httpRouteConfig \<leftarrow> httpRouteConfigs, route \<leftarrow> otp_Routes httpRouteConfig,
                            c \<leftarrow> rwc_WeightedClusters route]
                        (newTCPServiceRouteRules (fst s), snd s))))
      else Returns s)"

definition match_name :: "TrafficMatch \<Rightarrow> string" where
  "match_name trafficMatch =
     (if is_http_protocol (to_lower (tmt_DestinationProtocol trafficMatch)) then ProtocolHTTP
      else tmt_Name trafficMatch)"

definition route_step ::
  "OutboundMeshTrafficPolicy \<Rightarrow> TrafficMatch \<Rightarrow> PipyOutbound \<times> depend_clusters \<Rightarrow>
     (PipyOutbound \<times> depend_clusters) outcome" where
  "route_step outboundPolicy trafficMatch s =
     (let (otp, dependClusters) = s; port = word_of_int (tmt_DestinationPort trafficMatch);
          (otp, tm, exist) = newTrafficMatch otp port (match_name trafficMatch);
          otp = (if exist then otp
                 else update_match tm (setPort port \<circ> setProtocol (to_lower (tmt_DestinationProtocol trafficMatch))) otp)
      in outcome_bind (fill_match outboundPolicy trafficMatch (po_store otp ! tm, dependClusters))
           (\<lambda>(m, dependClusters). Returns (update_match tm (\<lambda>_. m) otp, dependClusters)))"

definition generatePipyOutboundTrafficRoutePolicy ::
  "PipyConf \<Rightarrow> OutboundMeshTrafficPolicy \<Rightarrow> (PipyConf \<times> depend_clusters) outcome" where
  "generatePipyOutboundTrafficRoutePolicy pipyConf outboundPolicy =
     (if length (omtp_TrafficMatches outboundPolicy) = 0 then Returns (pipyConf, None)
      else let (pipyConf, otp) = newOutboundTrafficPolicy pipyConf
           in outcome_bind
                (outcome_fold (route_step outboundPolicy) (omtp_TrafficMatches outboundPolicy) (otp, gmap_empty))
                (\<lambda>(otp, dependClusters). Returns (pipyConf\<lparr>pc_Outbound := Some otp\<rparr>, dependClusters)))"

section \<open>Endpoints\<close>

definition endpoint_port :: "MeshClusterConfig \<Rightarrow> Endpoint \<Rightarrow> uint16" where
  "endpoint_port clusterConfig e =
     (if 0 < length (ept_ClusterKey e) \<and> 0 < ms_TargetPort (mcc_Service clusterConfig)
      then ms_TargetPort (mcc_Service clusterConfig) else ms_Port (mcc_Service clusterConfig))"

definition add_upstream_endpoint :: "MeshClusterConfig \<Rightarrow> Endpoint \<Rightarrow> ClusterConfigs \<Rightarrow> ClusterConfigs" where
  "add_upstream_endpoint clusterConfig e =
     addWeightedZoneEndpoint (ip_string (ept_IP e)) (endpoint_port clusterConfig e) (ept_Weight e)
       (ept_ClusterKey e) (ept_LBType e) (ept_Path e)"

definition balance_step ::
  "MeshCatalog \<Rightarrow> OutboundMeshTrafficPolicy \<Rightarrow> WeightedCluster \<Rightarrow> PipyOutbound \<times> bool \<Rightarrow> PipyOutbound \<times> bool" where
  "balance_step meshCatalog outboundPolicy cluster s =
     (let (otp, ready) = s in
      case getMeshClusterConfigs (omtp_ClustersConfigs outboundPolicy) (wc_ClusterName cluster) of
        None \<Rightarrow> (otp, False)
      | Some clusterConfig \<Rightarrow>
          (let (otp, clusterConfigs) = newClusterConfigs otp (wc_ClusterName cluster);
               upstreamEndpoints = getUpstreamEndpoints meshCatalog (wc_ClusterName cluster)
           in if length upstreamEndpoints = 0 then (otp, False)
              else (otp\<lparr>po_ClustersConfigs := gmap_put (po_ClustersConfigs otp) (wc_ClusterName cluster)
                          (fold (add_upstream_endpoint clusterConfig) upstreamEndpoints clusterConfigs)\<rparr>, ready)))"

definition generatePipyOutboundTrafficBalancePolicy ::
  "MeshCatalog \<Rightarrow> PipyConf \<Rightarrow> OutboundMeshTrafficPolicy \<Rightarrow> depend_clusters \<Rightarrow> PipyConf \<times> bool" where
  "generatePipyOutboundTrafficBalancePolicy meshCatalog pipyConf outboundPolicy dependClusters =
     (let (pipyConf, otp) = newOutboundTrafficPolicy pipyConf;
          (otp, ready) = fold (balance_step meshCatalog outboundPolicy) (map snd (entries dependClusters)) (otp, True)
      in (pipyConf\<lparr>pc_Outbound := Some otp\<rparr>, ready))"

section \<open>Names can be read back\<close>

text \<open>A format and its parser; \<open>norm\<close> is what the format keeps of a value.\<close>

locale name_codec =
  fixes fmt :: "'a \<Rightarrow> 'b" and parse :: "'b \<Rightarrow> 'a option" and valid :: "'a \<Rightarrow> bool" and norm :: "'a \<Rightarrow> 'a"
  assumes parse_fmt: "valid x \<Longrightarrow> parse (fmt x) = Some (norm x)"
begin

lemma fmt_inj: "valid x \<Longrightarrow> valid y \<Longrightarrow> fmt x = fmt y \<Longrightarrow> norm x = norm y"
  using parse_fmt [of x] parse_fmt [of y] by simp

lemma fmt_parsed: "valid x \<Longrightarrow> parse (fmt x) \<noteq> None"
  by (simp add: parse_fmt)

end

definition names_ok :: "MeshService \<Rightarrow> bool" where
  "names_ok svc \<longleftrightarrow> k8s_name (ms_Namespace svc) \<and> k8s_name (ms_Name svc)"

definition protocol_ok :: "MeshService \<Rightarrow> bool" where
  "protocol_ok svc \<longleftrightarrow> ms_Protocol svc \<noteq> [] \<and> CHR ''_'' \<notin> set (ms_Protocol svc)"

text \<open>What the cluster name and the traffic match keep of a mesh service.\<close>

definition cluster_part :: "MeshService \<Rightarrow> MeshService" where
  "cluster_part svc = MeshService_zero\<lparr>ms_Namespace := ms_Namespace svc, ms_Name := ms_Name svc,
     ms_TargetPort := ms_TargetPort svc\<rparr>"

definition match_part :: "MeshService \<Rightarrow> MeshService" where
  "match_part svc = MeshService_zero\<lparr>ms_Namespace := ms_Namespace svc, ms_Name := ms_Name svc,
     ms_Protocol := to_lower (ms_Protocol svc), ms_TargetPort := ms_Port svc\<rparr>"

lemma fmt_word_fields:
  "fmt_word w \<noteq> []" "\<not> is_digit c \<Longrightarrow> c \<notin> set (fmt_word w)"
  by (simp_all add: fmt_word_def itoa_no)

lemma separators_not_digits: "\<not> is_digit (CHR ''/'')" "\<not> is_digit (CHR ''|'')" "\<not> is_digit (CHR ''_'')"
  by (simp_all add: is_digit_def byte_def)

lemma clusterToMeshSvc_ClusterName':
  assumes ns: "ms_Namespace svc \<noteq> []" "\<forall>c \<in> set (ms_Namespace svc). \<not> (c = CHR ''/'' \<or> c = CHR ''|'')"
    and name: "ms_Name svc \<noteq> []" "\<forall>c \<in> set (ms_Name svc). \<not> (c = CHR ''/'' \<or> c = CHR ''|'')"
  shows "clusterToMeshSvc (ClusterName svc) = Inr (cluster_part svc)"
proof -
  let ?p = "\<lambda>r. r = CHR ''/'' \<or> r = CHR ''|''"
  have port: "\<forall>c \<in> set (fmt_word (ms_TargetPort svc)). \<not> ?p c"
    using fmt_word_fields(2) separators_not_digits by blast
  have "fields_func ?p (ClusterName svc) = [ms_Namespace svc, ms_Name svc, fmt_word (ms_TargetPort svc)]"
    unfolding ClusterName_def
    using fields_func_field [OF ns, of "CHR ''/''"] fields_func_field [OF name, of "CHR ''|''"]
      fields_func_last [OF fmt_word_fields(1) port] by simp
  moreover have "parse_uint 16 (fmt_word (ms_TargetPort svc)) = (unat (ms_TargetPort svc), None)"
    unfolding fmt_word_def by (rule parse_uint_itoa) (use unsigned_less [of "ms_TargetPort svc"] in simp)
  ultimately show ?thesis by (simp add: clusterToMeshSvc_def cluster_part_def)
qed

lemma clusterToMeshSvc_ClusterName: "names_ok svc \<Longrightarrow> clusterToMeshSvc (ClusterName svc) = Inr (cluster_part svc)"
  using k8s_name_no unfolding names_ok_def by (intro clusterToMeshSvc_ClusterName') blast+

lemma trafficMatchToMeshSvc_traffic_match:
  assumes "names_ok svc" and "protocol_ok svc"
  shows "trafficMatchToMeshSvc (traffic_match mc svc) = Some (match_part svc)"
proof -
  let ?p = "\<lambda>r. r = CHR ''_''" and ?nn = "MeshService_String svc"
  have nn: "?nn \<noteq> []" "\<forall>c \<in> set ?nn. \<not> ?p c" and slash: "CHR ''/'' \<notin> set (ms_Namespace svc)" "CHR ''/'' \<notin> set (ms_Name svc)"
    using assms(1) k8s_name_no unfolding names_ok_def MeshService_String_def by auto
  have port: "\<forall>c \<in> set (fmt_word (ms_Port svc)). \<not> ?p c"
    using fmt_word_fields(2) separators_not_digits by blast
  have proto: "ms_Protocol svc \<noteq> []" "\<forall>c \<in> set (ms_Protocol svc). \<not> ?p c"
    using assms(2) by (auto simp: protocol_ok_def)
  have ob: "\<forall>c \<in> set ''outbound''. \<not> ?p c" by simp
  have "fields_func ?p (OutboundTrafficMatchName svc) = [''outbound'', ?nn, fmt_word (ms_Port svc), ms_Protocol svc]"
    unfolding OutboundTrafficMatchName_def
    using fields_func_field [OF _ ob, of "CHR ''_''"] fields_func_field [OF nn, of "CHR ''_''"]
      fields_func_field [OF fmt_word_fields(1) port, of "CHR ''_''"] fields_func_last [OF proto] by simp
  then show ?thesis
    by (simp add: trafficMatchToMeshSvc_def traffic_match_def match_part_def NamespacedNameFrom_String slash)
qed

interpretation cluster_names: name_codec ClusterName
  "\<lambda>s. case clusterToMeshSvc s of Inr svc \<Rightarrow> Some svc | Inl _ \<Rightarrow> None" names_ok cluster_part
  by unfold_locales (simp add: clusterToMeshSvc_ClusterName)

interpretation match_names: name_codec "traffic_match mc" trafficMatchToMeshSvc
  "\<lambda>svc. names_ok svc \<and> protocol_ok svc" match_part for mc
  by unfold_locales (simp add: trafficMatchToMeshSvc_traffic_match)

section \<open>Properties\<close>

text \<open>C13. A cluster name can be read back: parsing the cluster name of a service gives the service's
  namespace, name and target port, and two services with the same cluster name agree on these.\<close>

theorem cluster_name_roundtrip:
  assumes "names_ok svc"
  shows "clusterToMeshSvc (ClusterName svc) = Inr (cluster_part svc) \<and>
     (\<forall>svc'. names_ok svc' \<longrightarrow> ClusterName svc' = ClusterName svc \<longrightarrow> cluster_part svc' = cluster_part svc)"
  using assms clusterToMeshSvc_ClusterName cluster_names.fmt_inj by blast

theorem cluster_name_roundtrip_witness:
  "clusterToMeshSvc ''shop/web|8080'' = Inr (cluster_part sample_imported_service)"
proof -
  have "names_ok sample_imported_service" by code_simp
  from cluster_name_roundtrip [OF this, THEN conjunct1]
  have "clusterToMeshSvc (ClusterName sample_imported_service) = Inr (cluster_part sample_imported_service)" .
  moreover have "ClusterName sample_imported_service = ''shop/web|8080''" by code_simp
  ultimately show ?thesis by (simp only:)
qed

text \<open>C14. A traffic match can be read back: from the match the catalog makes for a service, the server
  recovers the namespace and name of the service, its protocol in lower case and its port (as the
  target port). So the FQDN it looks the HTTP policies up by is the FQDN of the service.\<close>

theorem traffic_match_roundtrip:
  assumes "names_ok svc" and "protocol_ok svc"
  shows "\<exists>up. trafficMatchToMeshSvc (traffic_match mc svc) = Some up \<and> FQDN up = FQDN svc \<and>
     ms_TargetPort up = ms_Port svc \<and> ms_Protocol up = to_lower (ms_Protocol svc)"
  using match_names.parse_fmt [of svc mc] assms by (simp add: match_part_def FQDN_def)

theorem traffic_match_roundtrip_witness:
  "\<exists>up. trafficMatchToMeshSvc (traffic_match (NewMeshCatalog (sample_ic ActiveActiveLbType)) sample_imported_service) = Some up \<and>
     FQDN up = ''web.shop.svc.cluster.local''"
proof -
  have ok: "names_ok sample_imported_service" "protocol_ok sample_imported_service" by code_simp+
  have "FQDN sample_imported_service = ''web.shop.svc.cluster.local''" by code_simp
  with traffic_match_roundtrip [OF ok, of "NewMeshCatalog (sample_ic ActiveActiveLbType)"] show ?thesis by auto
qed

text \<open>Which texts pass as cluster names: exactly those with three fields whose last is a decimal
  number below \<open>2 ^ 16\<close>; four or two fields give the name error, any other last field the port
  error. An accepted text denotes the same service as the service's own cluster name.\<close>

theorem cluster_name_errors:
  "case fields_func (\<lambda>r. r = CHR ''/'' \<or> r = CHR ''|'') s of
     [ns, name, p] \<Rightarrow>
       if list_all is_digit p \<and> dec_value 0 p < 2 ^ 16
       then \<exists>svc. clusterToMeshSvc s = Inr svc \<and> ms_Namespace svc = ns \<and> ms_Name svc = name \<and>
              unat (ms_TargetPort svc) = dec_value 0 p \<and> clusterToMeshSvc (ClusterName svc) = Inr svc
       else clusterToMeshSvc s = Inl InvalidClusterPort
   | _ \<Rightarrow> clusterToMeshSvc s = Inl InvalidClusterName"
proof (cases "\<exists>ns name p. fields_func (\<lambda>r. r = CHR ''/'' \<or> r = CHR ''|'') s = [ns, name, p]")
  case False
  then show ?thesis unfolding clusterToMeshSvc_def by (auto split: list.split)
next
  case True
  then obtain ns name p where f: "fields_func (\<lambda>r. r = CHR ''/'' \<or> r = CHR ''|'') s = [ns, name, p]" by blast
  let ?svc = "MeshService_zero\<lparr>ms_Namespace := ns, ms_Name := name, ms_TargetPort := word_of_nat (dec_value 0 p)\<rparr>"
  have pieces: "x \<noteq> [] \<and> (\<forall>c \<in> set x. \<not> (c = CHR ''/'' \<or> c = CHR ''|''))" if "x \<in> {ns, name, p}" for x
    by (rule fields_func_pieces [where s = s]) (use that f in auto)
  show ?thesis
  proof (cases "list_all is_digit p \<and> dec_value 0 p < 2 ^ 16")
    case ok: True
    then have p: "parse_uint 16 p = (dec_value 0 p, None)"
      using pieces [of p] by (simp add: parse_uint_Some list_all_iff)
    have "clusterToMeshSvc s = Inr ?svc" by (simp add: clusterToMeshSvc_def f p)
    moreover have "unat (word_of_nat (dec_value 0 p) :: uint16) = dec_value 0 p"
      using ok by (simp add: unat_of_nat)
    moreover have "clusterToMeshSvc (ClusterName ?svc) = Inr ?svc"
      using clusterToMeshSvc_ClusterName' [of ?svc] pieces [of ns] pieces [of name] by (simp add: cluster_part_def MeshService_zero_def)
    ultimately show ?thesis using ok by (simp add: f)
  next
    case bad: False
    obtain v e where v: "parse_uint 16 p = (v, e)" by fastforce
    with bad have "e \<noteq> None" using parse_uint_Some [of 16 p v] by (auto simp: list_all_iff)
    with bad v show ?thesis by (auto simp: f clusterToMeshSvc_def)
  qed
qed

end
