(* ===== verification/RouteCorrectness.thy ===== *)
theory RouteCorrectness
  imports TrafficRoutes
begin

text \<open>
  What the route translation of \<open>TrafficRoutes\<close> publishes: the clusters, hosts and routes of a
  traffic match, how each step extends them, and that the clusters handed on to the endpoint
  translation are exactly the published ones.
\<close>

section \<open>What a traffic match publishes\<close>

definition rule_pairs :: "OutboundHTTPRouteRules \<Rightarrow> (HTTPMatchRule \<times> string) set" where
  "rule_pairs rules = {(mr, c). \<exists>i < length rules. hrr_HTTPMatchRule (rules ! i) = mr \<and>
     gmap_get (hrr_TargetClusters (rules ! i)) c \<noteq> None}"

definition routes_of :: "OutboundTrafficMatch \<Rightarrow> (string \<times> HTTPMatchRule \<times> string) set" where
  "routes_of m = {(n, mr, c). \<exists>rules. gmap_get (otm_HTTPServiceRouteRules m) n = Some rules \<and> (mr, c) \<in> rule_pairs rules}"

definition hosts_of :: "OutboundTrafficMatch \<Rightarrow> string set" where
  "hosts_of m = {h. gmap_get (otm_HTTPHostPort2Service m) h \<noteq> None}"

definition tcp_of :: "OutboundTrafficMatch \<Rightarrow> string set" where
  "tcp_of m = {c. \<exists>t. otm_TCPServiceRouteRules m = Some t \<and> gmap_get t c \<noteq> None}"

definition match_clusters :: "OutboundTrafficMatch \<Rightarrow> string set" where
  "match_clusters m = {c. \<exists>n mr. (n, mr, c) \<in> routes_of m} \<union> tcp_of m"

definition dep_keys :: "depend_clusters \<Rightarrow> string set" where
  "dep_keys d = {c. gmap_get d c \<noteq> None}"

definition cluster_names_of :: "WeightedCluster list \<Rightarrow> string set" where
  "cluster_names_of cs = wc_ClusterName ` set cs"

lemma dep_keys_empty [simp]: "dep_keys gmap_empty = {}" "dep_keys None = {}"
  by (simp_all add: dep_keys_def)

lemma dep_keys_add [simp]: "dep_keys (add_depend c d) = insert (wc_ClusterName c) (dep_keys d)"
  by (auto simp: dep_keys_def add_depend_def split: option.splits)

lemma dep_keys_fold [simp]: "dep_keys (fold add_depend cs d) = dep_keys d \<union> cluster_names_of cs"
  by (induction cs arbitrary: d) (auto simp: cluster_names_of_def)

section \<open>HTTP routes\<close>

abbreviation add_clusters :: "WeightedCluster list \<Rightarrow> OutboundHTTPRouteRule \<Rightarrow> OutboundHTTPRouteRule" where
  "add_clusters \<equiv> fold (\<lambda>c. http_addWeightedCluster (wc_ClusterName c) (word_of_int (wc_Weight c)))"

lemma fold_http_addWeightedCluster:
  "hrr_HTTPMatchRule (add_clusters cs r) = hrr_HTTPMatchRule r"
  "gmap_get (hrr_TargetClusters (add_clusters cs r)) c \<noteq> None \<longleftrightarrow>
     c \<in> cluster_names_of cs \<or> gmap_get (hrr_TargetClusters r) c \<noteq> None"
  by (induction cs arbitrary: r) (auto simp: http_addWeightedCluster_def cluster_names_of_def)

lemma rule_pairs_append [simp]: "rule_pairs (rules @ [\<lparr>hrr_HTTPMatchRule = m, hrr_TargetClusters = None\<rparr>]) = rule_pairs rules"
  by (force simp: rule_pairs_def nth_append less_Suc_eq)

lemma rule_pairs_update:
  assumes "i < length rules" and "hrr_HTTPMatchRule r = hrr_HTTPMatchRule (rules ! i)"
    and "\<And>c. gmap_get (hrr_TargetClusters r) c \<noteq> None \<longleftrightarrow> c \<in> C \<or> gmap_get (hrr_TargetClusters (rules ! i)) c \<noteq> None"
  shows "rule_pairs (rules[i := r]) = rule_pairs rules \<union> {hrr_HTTPMatchRule (rules ! i)} \<times> C"
proof -
  have "(mr, c) \<in> rule_pairs (rules[i := r]) \<longleftrightarrow>
      (mr, c) \<in> rule_pairs rules \<or> (mr = hrr_HTTPMatchRule (rules ! i) \<and> c \<in> C)" for mr c
    unfolding rule_pairs_def mem_Collect_eq case_prod_conv length_list_update
    using assms by (metis nth_list_update)
  then show ?thesis by auto
qed

text \<open>The rule a match is filed under: deeply equal to the match, and one of the rules.\<close>

lemma newHTTPServiceRouteRule_spec:
  assumes "newHTTPServiceRouteRule m rules = (rules', i, b)" and "gmap_deep_equal (hmr_Headers m) (hmr_Headers m)"
  shows "i < length rules'" and "rule_pairs rules' = rule_pairs rules"
    and "HTTPMatchRule_deep_equal m (hrr_HTTPMatchRule (rules' ! i))"
  using assms
  by (auto simp: newHTTPServiceRouteRule_def HTTPMatchRule_deep_equal_def split: option.splits dest: find_rule_Some)

lemma gmap_deep_equal_refl: "gmap_wf m \<Longrightarrow> gmap_deep_equal m m"
  by (auto simp: gmap_deep_equal_def list_all_iff intro: gmap_in_get)

lemma http_match_headers_wf: "gmap_wf (hmr_Headers (http_match m))"
proof -
  have hdr: "gmap_wf (hmr_Headers h) \<Longrightarrow> gmap_wf (hmr_Headers (fold (\<lambda>(k, v). addHeaderMatch k v) xs h))" for h xs
    by (induction xs arbitrary: h) (auto simp: addHeaderMatch_def)
  have meth: "hmr_Headers (fold addMethodMatch ms h) = hmr_Headers h" for ms h
    by (induction ms arbitrary: h) (auto simp: addMethodMatch_def)
  have any: "hmr_Headers (addMethodMatch a h) = hmr_Headers h" for a h
    by (simp add: addMethodMatch_def)
  show ?thesis
    by (simp add: http_match_def Let_def meth any HTTPMatchRule_zero_def hdr)
qed

lemmas http_match_refl = gmap_deep_equal_refl [OF http_match_headers_wf]

lemma add_route_spec:
  assumes "add_route n route (m, d) = Returns (m', d')"
  obtains mr where "HTTPMatchRule_deep_equal (http_match (rwc_HTTPRouteMatch route)) mr"
    and "routes_of m' = routes_of m \<union> {n} \<times> {mr} \<times> cluster_names_of (rwc_WeightedClusters route)"
    and "hosts_of m' = hosts_of m" and "tcp_of m' = tcp_of m"
    and "dep_keys d' = dep_keys d \<union> cluster_names_of (rwc_WeightedClusters route)"
proof -
  let ?rules = "case gmap_get (otm_HTTPServiceRouteRules m) n of None \<Rightarrow> [] | Some rs \<Rightarrow> rs"
    and ?cs = "rwc_WeightedClusters route"
  obtain rules i b where new: "newHTTPServiceRouteRule (http_match (rwc_HTTPRouteMatch route)) ?rules = (rules, i, b)"
    by (metis prod_cases3)
  note spec = newHTTPServiceRouteRule_spec [OF new http_match_refl]
  let ?r = "add_clusters ?cs (rules ! i)"
  have m': "m' = m\<lparr>otm_HTTPServiceRouteRules := gmap_put (otm_HTTPServiceRouteRules m) n (rules[i := ?r])\<rparr>"
    and d': "d' = fold add_depend ?cs d"
    using assms new by (auto simp: add_route_def Let_def split: if_splits)
  have pairs: "rule_pairs (rules[i := ?r]) =
      rule_pairs ?rules \<union> {hrr_HTTPMatchRule (rules ! i)} \<times> cluster_names_of ?cs"
    using rule_pairs_update [OF spec(1) fold_http_addWeightedCluster] spec(2) by simp
  have "routes_of m' = routes_of m \<union> {n} \<times> {hrr_HTTPMatchRule (rules ! i)} \<times> cluster_names_of ?cs"
  proof -
    have "rule_pairs [] = {}" by (simp add: rule_pairs_def)
    then have "(n', p) \<in> routes_of m' \<longleftrightarrow>
        (n', p) \<in> routes_of m \<or> n' = n \<and> p \<in> {hrr_HTTPMatchRule (rules ! i)} \<times> cluster_names_of ?cs" for n' p
      by (cases p; cases "n' = n"; cases "gmap_get (otm_HTTPServiceRouteRules m) n")
        (auto simp: routes_of_def m' pairs)
    then show ?thesis by auto
  qed
  moreover have "hosts_of m' = hosts_of m" "tcp_of m' = tcp_of m"
    by (simp_all add: m' hosts_of_def tcp_of_def)
  ultimately show ?thesis using that [OF spec(3)] d' by simp
qed

section \<open>Loops that only add\<close>

text \<open>A loop whose body may panic, and a preorder every iteration respects.\<close>

locale growing_loop =
  fixes body :: "'x \<Rightarrow> 's \<Rightarrow> 's outcome" and grows :: "'s \<Rightarrow> 's \<Rightarrow> bool"
  assumes grows_refl: "grows s s"
    and grows_trans: "grows s t \<Longrightarrow> grows t u \<Longrightarrow> grows s u"
    and body_grows: "body x s = Returns t \<Longrightarrow> grows s t"
begin

lemma loop_grows: "outcome_fold body xs s = Returns t \<Longrightarrow> grows s t"
  by (induction xs arbitrary: s) (auto simp: outcome_bind_Returns intro: grows_refl grows_trans body_grows)

lemma loop_establishes:
  assumes "outcome_fold body xs s = Returns t" and "x \<in> set xs"
    and est: "\<And>s t. body x s = Returns t \<Longrightarrow> Q t"
    and stable: "\<And>s t. Q s \<Longrightarrow> grows s t \<Longrightarrow> Q t"
  shows "Q t"
  using assms(1,2)
proof (induction xs arbitrary: s)
  case (Cons y ys)
  then obtain u where u: "body y s = Returns u" "outcome_fold body ys u = Returns t"
    by (auto simp: outcome_bind_Returns)
  show ?case
  proof (cases "x \<in> set ys")
    case True
    with Cons.IH u(2) show ?thesis by blast
  next
    case False
    with Cons.prems(2) u(1) have "Q u" using est by auto
    then show ?thesis using stable loop_grows [OF u(2)] by blast
  qed
qed simp

lemma loop_returns:
  assumes "\<And>x s. x \<in> set xs \<Longrightarrow> \<exists>t. body x s = Returns t"
  shows "\<exists>t. outcome_fold body xs s = Returns t"
  using assms
proof (induction xs arbitrary: s)
  case (Cons x xs)
  obtain u where "body x s = Returns u" using Cons.prems [of x] by auto
  with Cons show ?case by (auto simp: outcome_bind_Returns)
qed simp

end

text \<open>The preorder on a traffic match and the dependent clusters: nothing published is withdrawn,
  and the clusters added to one are added to the other.\<close>

definition match_grows :: "OutboundTrafficMatch \<Rightarrow> OutboundTrafficMatch \<Rightarrow> bool" where
  "match_grows m m' \<longleftrightarrow> routes_of m \<subseteq> routes_of m' \<and> hosts_of m \<subseteq> hosts_of m' \<and> tcp_of m \<subseteq> tcp_of m'"

fun fill_grows :: "OutboundTrafficMatch \<times> depend_clusters \<Rightarrow> OutboundTrafficMatch \<times> depend_clusters \<Rightarrow> bool" where
  "fill_grows (m, d) (m', d') \<longleftrightarrow>
     match_grows m m' \<and>
     (\<exists>S. match_clusters m' = match_clusters m \<union> S \<and> dep_keys d' = dep_keys d \<union> S)"

lemma match_grows_refl [simp]: "match_grows m m"
  by (simp add: match_grows_def)

lemma match_grows_trans: "match_grows a b \<Longrightarrow> match_grows b c \<Longrightarrow> match_grows a c"
  by (auto simp: match_grows_def)

lemma fill_grows_refl [simp]: "fill_grows s s"
  by (cases s) (auto intro!: exI [of _ "{}"])

lemma fill_grows_trans:
  assumes "fill_grows a b" and "fill_grows b c"
  shows "fill_grows a c"
proof -
  obtain m d m' d' m'' d'' where abc: "a = (m, d)" "b = (m', d')" "c = (m'', d'')" by fastforce
  obtain S T where "match_clusters m' = match_clusters m \<union> S" "dep_keys d' = dep_keys d \<union> S"
    "match_clusters m'' = match_clusters m' \<union> T" "dep_keys d'' = dep_keys d' \<union> T"
    using assms unfolding abc by auto
  then have "match_clusters m'' = match_clusters m \<union> (S \<union> T) \<and> dep_keys d'' = dep_keys d \<union> (S \<union> T)" by blast
  moreover have "match_grows m m''" using assms match_grows_trans unfolding abc fill_grows.simps by blast
  ultimately show ?thesis unfolding abc fill_grows.simps by blast
qed

lemma add_route_grows: "add_route n route s = Returns t \<Longrightarrow> fill_grows s t"
proof -
  assume ar: "add_route n route s = Returns t"
  obtain m d m' d' where st: "s = (m, d)" "t = (m', d')" by fastforce
  obtain mr where routes: "routes_of m' = routes_of m \<union> {n} \<times> {mr} \<times> cluster_names_of (rwc_WeightedClusters route)"
    and rest: "hosts_of m' = hosts_of m" "tcp_of m' = tcp_of m"
      "dep_keys d' = dep_keys d \<union> cluster_names_of (rwc_WeightedClusters route)"
    using ar unfolding st by (rule add_route_spec)
  have "match_clusters m' = match_clusters m \<union> cluster_names_of (rwc_WeightedClusters route)"
    unfolding match_clusters_def routes rest by blast
  then have "\<exists>S. match_clusters m' = match_clusters m \<union> S \<and> dep_keys d' = dep_keys d \<union> S" using rest by blast
  then show "fill_grows s t"
    unfolding st fill_grows.simps match_grows_def routes rest by blast
qed

interpretation routes: growing_loop "add_route n" fill_grows for n
  by (rule growing_loop.intro) (simp, erule (1) fill_grows_trans, erule add_route_grows)

text \<open>Preparing a match for a rule name, and naming the hosts.\<close>

lemma newHTTPServiceRouteRules_get:
  "gmap_get (otm_HTTPServiceRouteRules (fst (newHTTPServiceRouteRules n m))) n' =
     (if n' = n \<and> n \<noteq> [] \<and> gmap_get (otm_HTTPServiceRouteRules m) n = None then Some []
      else gmap_get (otm_HTTPServiceRouteRules m) n')"
proof -
  define hs where "hs = (case otm_HTTPServiceRouteRules m of None \<Rightarrow> gmap_empty | Some xs \<Rightarrow> Some xs)"
  have hs: "gmap_get hs k = gmap_get (otm_HTTPServiceRouteRules m) k" for k
    by (cases "otm_HTTPServiceRouteRules m") (simp_all add: hs_def)
  show ?thesis
    unfolding newHTTPServiceRouteRules_def Let_def hs_def [symmetric]
    by (cases "gmap_get hs n") (simp_all add: hs)
qed

lemma newHTTPServiceRouteRules_spec:
  "routes_of (fst (newHTTPServiceRouteRules n m)) = routes_of m"
  "hosts_of (fst (newHTTPServiceRouteRules n m)) = hosts_of m"
  "tcp_of (fst (newHTTPServiceRouteRules n m)) = tcp_of m"
proof -
  have "rule_pairs [] = {}" by (simp add: rule_pairs_def)
  then show "routes_of (fst (newHTTPServiceRouteRules n m)) = routes_of m"
    by (auto simp: routes_of_def newHTTPServiceRouteRules_get split: if_splits)
  show "hosts_of (fst (newHTTPServiceRouteRules n m)) = hosts_of m" "tcp_of (fst (newHTTPServiceRouteRules n m)) = tcp_of m"
    unfolding newHTTPServiceRouteRules_def Let_def hosts_of_def tcp_of_def
    by (cases "gmap_get (case otm_HTTPServiceRouteRules m of None \<Rightarrow> gmap_empty | Some xs \<Rightarrow> Some xs) n"; simp)+
qed

abbreviation add_hosts :: "string \<Rightarrow> string list \<Rightarrow> OutboundTrafficMatch \<Rightarrow> OutboundTrafficMatch" where
  "add_hosts n \<equiv> fold (\<lambda>h. addHTTPHostPort2Service h n)"

lemma add_hosts_spec:
  "routes_of (add_hosts n hs m) = routes_of m" "tcp_of (add_hosts n hs m) = tcp_of m"
  "hosts_of (add_hosts n hs m) = hosts_of m \<union> set hs"
proof -
  have 1: "routes_of (addHTTPHostPort2Service h n m) = routes_of m" "tcp_of (addHTTPHostPort2Service h n m) = tcp_of m"
    "hosts_of (addHTTPHostPort2Service h n m) = insert h (hosts_of m)" for h m
    by (auto simp: addHTTPHostPort2Service_def routes_of_def tcp_of_def hosts_of_def)
  show "routes_of (add_hosts n hs m) = routes_of m" "tcp_of (add_hosts n hs m) = tcp_of m"
    "hosts_of (add_hosts n hs m) = hosts_of m \<union> set hs"
    by (induction hs arbitrary: m) (auto simp: 1)
qed

lemma add_http_config_unfold:
  "add_http_config cfg (m, d) = outcome_fold (add_route (otp_Name cfg)) (otp_Routes cfg)
     (add_hosts (otp_Name cfg) (otp_Hostnames cfg) (fst (newHTTPServiceRouteRules (otp_Name cfg) m)), d)"
  by (simp add: add_http_config_def case_prod_beta Let_def)

lemma prepared_grows:
  "fill_grows (m, d) (add_hosts n hs (fst (newHTTPServiceRouteRules n m)), d)"
  by (simp add: match_grows_def match_clusters_def add_hosts_spec newHTTPServiceRouteRules_spec)
    (rule exI [of _ "{}"], simp)

lemma add_http_config_grows:
  assumes "add_http_config cfg s = Returns t"
  shows "fill_grows s t"
proof -
  obtain m d where s: "s = (m, d)" by fastforce
  note routes.loop_grows [OF assms [unfolded s add_http_config_unfold]]
  then show ?thesis unfolding s by (rule fill_grows_trans [OF prepared_grows])
qed

interpretation configs: growing_loop add_http_config fill_grows
  by (rule growing_loop.intro) (simp, erule (1) fill_grows_trans, erule add_http_config_grows)

text \<open>Every host and every route of a config is published under the config's name.\<close>

definition config_published :: "OutboundTrafficPolicy \<Rightarrow> OutboundTrafficMatch \<Rightarrow> bool" where
  "config_published cfg m \<longleftrightarrow>
     set (otp_Hostnames cfg) \<subseteq> hosts_of m \<and>
     (\<forall>route \<in> set (otp_Routes cfg). \<forall>c \<in> cluster_names_of (rwc_WeightedClusters route).
        \<exists>mr. HTTPMatchRule_deep_equal (http_match (rwc_HTTPRouteMatch route)) mr \<and> (otp_Name cfg, mr, c) \<in> routes_of m)"

lemma config_published_grows: "config_published cfg m \<Longrightarrow> match_grows m m' \<Longrightarrow> config_published cfg m'"
  unfolding config_published_def match_grows_def by blast

lemma add_http_config_published:
  assumes "add_http_config cfg s = Returns t"
  shows "config_published cfg (fst t)"
proof -
  obtain m d where s: "s = (m, d)" by fastforce
  let ?m = "add_hosts (otp_Name cfg) (otp_Hostnames cfg) (fst (newHTTPServiceRouteRules (otp_Name cfg) m))"
  have loop: "outcome_fold (add_route (otp_Name cfg)) (otp_Routes cfg) (?m, d) = Returns t"
    using assms by (simp add: s add_http_config_unfold)
  have "match_grows ?m (fst t)" using routes.loop_grows [OF loop] by (cases t) simp
  then have "set (otp_Hostnames cfg) \<subseteq> hosts_of (fst t)"
    by (auto simp: match_grows_def add_hosts_spec)
  moreover have "\<exists>mr. HTTPMatchRule_deep_equal (http_match (rwc_HTTPRouteMatch route)) mr \<and> (otp_Name cfg, mr, c) \<in> routes_of (fst t)"
    if "route \<in> set (otp_Routes cfg)" "c \<in> cluster_names_of (rwc_WeightedClusters route)" for route c
  proof (rule routes.loop_establishes [OF loop that(1)])
    fix u v assume "add_route (otp_Name cfg) route u = Returns v"
    then have "add_route (otp_Name cfg) route (fst u, snd u) = Returns (fst v, snd v)" by simp
    then obtain mr where "HTTPMatchRule_deep_equal (http_match (rwc_HTTPRouteMatch route)) mr"
      and "routes_of (fst v) = routes_of (fst u) \<union> {otp_Name cfg} \<times> {mr} \<times> cluster_names_of (rwc_WeightedClusters route)"
      by (rule add_route_spec)
    with that(2) show "\<exists>mr. HTTPMatchRule_deep_equal (http_match (rwc_HTTPRouteMatch route)) mr \<and> (otp_Name cfg, mr, c) \<in> routes_of (fst v)"
      by auto
  next
    fix u v :: "OutboundTrafficMatch \<times> depend_clusters"
    assume "\<exists>mr. HTTPMatchRule_deep_equal (http_match (rwc_HTTPRouteMatch route)) mr \<and> (otp_Name cfg, mr, c) \<in> routes_of (fst u)"
      and "fill_grows u v"
    then show "\<exists>mr. HTTPMatchRule_deep_equal (http_match (rwc_HTTPRouteMatch route)) mr \<and> (otp_Name cfg, mr, c) \<in> routes_of (fst v)"
      by (cases u; cases v) (auto simp: match_grows_def)
  qed
  ultimately show ?thesis by (simp add: config_published_def)
qed

section \<open>TCP routes\<close>

lemma add_tcp_cluster_spec:
  assumes "otm_TCPServiceRouteRules (fst s) \<noteq> None"
  shows "otm_TCPServiceRouteRules (fst (add_tcp_cluster c s)) \<noteq> None"
    and "tcp_of (fst (add_tcp_cluster c s)) = insert (wc_ClusterName c) (tcp_of (fst s))"
    and "routes_of (fst (add_tcp_cluster c s)) = routes_of (fst s)"
    and "hosts_of (fst (add_tcp_cluster c s)) = hosts_of (fst s)"
    and "dep_keys (snd (add_tcp_cluster c s)) = insert (wc_ClusterName c) (dep_keys (snd s))"
  using assms
  by (auto simp: add_tcp_cluster_def tcp_addWeightedCluster_def tcp_of_def routes_of_def hosts_of_def)

lemma fold_add_tcp_cluster:
  assumes "otm_TCPServiceRouteRules (fst s) \<noteq> None"
  shows "tcp_of (fst (fold add_tcp_cluster cs s)) = tcp_of (fst s) \<union> cluster_names_of cs \<and>
    routes_of (fst (fold add_tcp_cluster cs s)) = routes_of (fst s) \<and>
    hosts_of (fst (fold add_tcp_cluster cs s)) = hosts_of (fst s) \<and>
    dep_keys (snd (fold add_tcp_cluster cs s)) = dep_keys (snd s) \<union> cluster_names_of cs"
  using assms
proof (induction cs arbitrary: s)
  case (Cons c cs)
  show ?case
    using Cons.IH [OF add_tcp_cluster_spec(1) [OF Cons.prems], of c]
    by (simp add: add_tcp_cluster_spec [OF Cons.prems] cluster_names_of_def)
qed (simp add: cluster_names_of_def)

lemma newTCPServiceRouteRules_spec:
  "otm_TCPServiceRouteRules (newTCPServiceRouteRules m) \<noteq> None"
  "tcp_of (newTCPServiceRouteRules m) = tcp_of m" "routes_of (newTCPServiceRouteRules m) = routes_of m"
  "hosts_of (newTCPServiceRouteRules m) = hosts_of m"
  by (auto simp: newTCPServiceRouteRules_def tcp_of_def routes_of_def hosts_of_def)

lemma tcp_clusters_grows: "fill_grows s (fold add_tcp_cluster cs (newTCPServiceRouteRules (fst s), snd s))"
proof -
  let ?t = "fold add_tcp_cluster cs (newTCPServiceRouteRules (fst s), snd s)"
  have pre: "otm_TCPServiceRouteRules (fst (newTCPServiceRouteRules (fst s), snd s)) \<noteq> None"
    using newTCPServiceRouteRules_spec(1) by simp
  have t: "tcp_of (fst ?t) = tcp_of (fst s) \<union> cluster_names_of cs" "routes_of (fst ?t) = routes_of (fst s)"
    "hosts_of (fst ?t) = hosts_of (fst s)" "dep_keys (snd ?t) = dep_keys (snd s) \<union> cluster_names_of cs"
    using fold_add_tcp_cluster [OF pre, of cs] by (simp_all add: newTCPServiceRouteRules_spec)
  have "match_clusters (fst ?t) = match_clusters (fst s) \<union> cluster_names_of cs"
    unfolding match_clusters_def t by blast
  then have "\<exists>S. match_clusters (fst ?t) = match_clusters (fst s) \<union> S \<and> dep_keys (snd ?t) = dep_keys (snd s) \<union> S"
    using t(4) by blast
  moreover have "match_grows (fst s) (fst ?t)" unfolding match_grows_def t by blast
  ultimately have "fill_grows (fst s, snd s) (fst ?t, snd ?t)" unfolding fill_grows.simps by blast
  then show ?thesis by simp
qed

section \<open>One traffic match of the catalog\<close>

lemma fill_match_grows: "fill_match pol tm s = Returns t \<Longrightarrow> fill_grows s t"
  by (auto simp: fill_match_def Let_def tcp_clusters_grows dest: configs.loop_grows split: if_splits option.splits)

lemma fill_match_published:
  assumes "fill_match pol tm s = Returns t"
    and "is_http_protocol (to_lower (tmt_DestinationProtocol tm))" and "trafficMatchToMeshSvc tm = Some svc"
    and "cfg \<in> set (getOutboundHTTPRouteConfigs (omtp_HTTPRouteConfigsPerPort pol) (uint (ms_TargetPort svc)) (FQDN svc)
           (tmt_WeightedClusters tm))"
  shows "config_published cfg (fst t)"
proof -
  have loop: "outcome_fold add_http_config (getOutboundHTTPRouteConfigs (omtp_HTTPRouteConfigsPerPort pol)
      (uint (ms_TargetPort svc)) (FQDN svc) (tmt_WeightedClusters tm)) s = Returns t"
    using assms(1-3) by (simp add: fill_match_def)
  show ?thesis
  proof (rule configs.loop_establishes [OF loop assms(4)])
    fix u v :: "OutboundTrafficMatch \<times> depend_clusters"
    assume "config_published cfg (fst u)" and "fill_grows u v"
    then show "config_published cfg (fst v)"
      by (cases u; cases v) (auto intro: config_published_grows)
  qed (rule add_http_config_published)
qed

lemma add_route_returns: "n \<noteq> [] \<Longrightarrow> \<exists>t. add_route n route s = Returns t"
  by (auto simp: add_route_def Let_def split: prod.splits)

lemma FQDN_nonempty [simp]: "FQDN svc \<noteq> []" "[] \<noteq> FQDN svc"
  by (simp_all add: FQDN_def)

lemma fill_match_returns:
  assumes "trafficMatchToMeshSvc tm \<noteq> None"
  shows "\<exists>t. fill_match pol tm s = Returns t"
proof -
  obtain svc where svc: "trafficMatchToMeshSvc tm = Some svc" using assms by auto
  have "\<exists>t. outcome_fold add_http_config (getOutboundHTTPRouteConfigs (omtp_HTTPRouteConfigsPerPort pol)
      (uint (ms_TargetPort svc)) (FQDN svc) (tmt_WeightedClusters tm)) s = Returns t"
  proof (rule configs.loop_returns)
    fix cfg u
    assume "cfg \<in> set (getOutboundHTTPRouteConfigs (omtp_HTTPRouteConfigsPerPort pol)
      (uint (ms_TargetPort svc)) (FQDN svc) (tmt_WeightedClusters tm))"
    then have "otp_Name cfg \<noteq> []" by (auto simp: getOutboundHTTPRouteConfigs_def split: option.splits)
    then show "\<exists>t. add_http_config cfg u = Returns t"
      using routes.loop_returns [OF add_route_returns] by (cases u) (simp only: add_http_config_unfold)
  qed
  then show ?thesis by (auto simp: fill_match_def svc Let_def)
qed

section \<open>The whole policy\<close>

definition outbound_clusters :: "PipyOutbound \<Rightarrow> string set" where
  "outbound_clusters otp = (\<Union>m \<in> set (po_store otp). match_clusters m)"

lemma outbound_clusters_nth:
  "c \<in> outbound_clusters otp \<longleftrightarrow> (\<exists>l < length (po_store otp). c \<in> match_clusters (po_store otp ! l))"
  unfolding outbound_clusters_def by (metis UN_iff in_set_conv_nth)

text \<open>A way to show that a cluster is published, by evaluation.\<close>

definition names_cluster :: "string \<Rightarrow> string \<Rightarrow> OutboundTrafficMatch \<Rightarrow> bool" where
  "names_cluster n c m \<longleftrightarrow>
     (case gmap_get (otm_HTTPServiceRouteRules m) n of
        None \<Rightarrow> False
      | Some rules \<Rightarrow> list_ex (\<lambda>r. gmap_get (hrr_TargetClusters r) c \<noteq> None) rules)"

lemma names_cluster_outbound:
  assumes "list_ex (names_cluster n c) (po_store otp)"
  shows "c \<in> outbound_clusters otp"
proof -
  obtain m rules r where m: "m \<in> set (po_store otp)" "gmap_get (otm_HTTPServiceRouteRules m) n = Some rules"
      "r \<in> set rules" "gmap_get (hrr_TargetClusters r) c \<noteq> None"
    using assms by (auto simp: list_ex_iff names_cluster_def split: option.splits)
  then have "(hrr_HTTPMatchRule r, c) \<in> rule_pairs rules"
    unfolding rule_pairs_def by (auto simp: in_set_conv_nth)
  with m(1,2) show ?thesis
    unfolding outbound_clusters_def match_clusters_def routes_of_def by blast
qed

definition store_grows :: "PipyOutbound \<Rightarrow> PipyOutbound \<Rightarrow> bool" where
  "store_grows otp otp' \<longleftrightarrow>
     outbound_ok otp' \<and>
     (\<forall>l < length (po_store otp). l < length (po_store otp') \<and> match_grows (po_store otp ! l) (po_store otp' ! l)) \<and>
     (\<forall>p. set (listed otp p) \<subseteq> set (listed otp' p))"

fun outbound_grows :: "PipyOutbound \<times> depend_clusters \<Rightarrow> PipyOutbound \<times> depend_clusters \<Rightarrow> bool" where
  "outbound_grows (otp, d) (otp', d') \<longleftrightarrow>
     (outbound_ok otp \<longrightarrow> store_grows otp otp' \<and>
       (\<exists>S. outbound_clusters otp' = outbound_clusters otp \<union> S \<and> dep_keys d' = dep_keys d \<union> S))"

lemma outbound_grows_refl [simp]: "outbound_grows s s"
  by (cases s) (auto simp: store_grows_def)

lemma store_grows_trans:
  assumes "store_grows a b" and "store_grows b c"
  shows "store_grows a c"
  unfolding store_grows_def
proof (intro conjI allI impI)
  show "outbound_ok c" using assms unfolding store_grows_def by blast
next
  fix p show "set (listed a p) \<subseteq> set (listed c p)" using assms unfolding store_grows_def by blast
next
  fix l assume "l < length (po_store a)"
  with assms have b: "l < length (po_store b)" "match_grows (po_store a ! l) (po_store b ! l)"
    unfolding store_grows_def by blast+
  with assms have c: "l < length (po_store c)" "match_grows (po_store b ! l) (po_store c ! l)"
    unfolding store_grows_def by blast+
  show "l < length (po_store c)" by (rule c)
  show "match_grows (po_store a ! l) (po_store c ! l)" by (rule match_grows_trans [OF b(2) c(2)])
qed

lemma outbound_grows_trans:
  assumes "outbound_grows a b" and "outbound_grows b c"
  shows "outbound_grows a c"
proof -
  obtain o1 d1 o2 d2 o3 d3 where abc: "a = (o1, d1)" "b = (o2, d2)" "c = (o3, d3)" by fastforce
  show ?thesis
    unfolding abc outbound_grows.simps
  proof
    assume "outbound_ok o1"
    with assms obtain S where 1: "store_grows o1 o2" "outbound_clusters o2 = outbound_clusters o1 \<union> S"
      "dep_keys d2 = dep_keys d1 \<union> S" unfolding abc outbound_grows.simps by blast
    then have "outbound_ok o2" unfolding store_grows_def by blast
    with assms obtain T where 2: "store_grows o2 o3" "outbound_clusters o3 = outbound_clusters o2 \<union> T"
      "dep_keys d3 = dep_keys d2 \<union> T" unfolding abc outbound_grows.simps by blast
    have "outbound_clusters o3 = outbound_clusters o1 \<union> (S \<union> T) \<and> dep_keys d3 = dep_keys d1 \<union> (S \<union> T)"
      using 1 2 by blast
    with store_grows_trans [OF 1(1) 2(1)]
    show "store_grows o1 o3 \<and> (\<exists>S. outbound_clusters o3 = outbound_clusters o1 \<union> S \<and> dep_keys d3 = dep_keys d1 \<union> S)"
      by blast
  qed
qed

lemma match_zero: "match_clusters OutboundTrafficMatch_zero = {}"
  by (simp add: match_clusters_def routes_of_def tcp_of_def OutboundTrafficMatch_zero_def)

lemma newTrafficMatch_grows:
  assumes "newTrafficMatch otp port name = (otp', l, b)"
  shows "outbound_grows (otp, d) (otp', d)"
proof (cases "gmap_get (po_namedTrafficMatches otp) (named_port port name)")
  case (Some l')
  with assms have "otp' = otp" by (simp add: newTrafficMatch_existing)
  then show ?thesis by (simp only: outbound_grows_refl)
next
  case None
  have "outbound_clusters otp' = outbound_clusters otp"
    using assms newTrafficMatch_fresh [OF None]
    by (auto simp: outbound_clusters_def match_zero)
  moreover have "store_grows otp otp'" if "outbound_ok otp"
    using newTrafficMatch_outbound_ok [OF that assms] assms newTrafficMatch_fresh [OF None]
    by (auto simp: store_grows_def nth_append listed_def)
  ultimately show ?thesis unfolding outbound_grows.simps by blast
qed

lemma update_match_grows:
  assumes "l < length (po_store otp)" and "fill_grows (po_store otp ! l, d) (f (po_store otp ! l), d')"
  shows "outbound_grows (otp, d) (update_match l f otp, d')"
proof -
  let ?otp' = "update_match l f otp"
  obtain S where S: "match_clusters (f (po_store otp ! l)) = match_clusters (po_store otp ! l) \<union> S"
    "dep_keys d' = dep_keys d \<union> S" and m: "match_grows (po_store otp ! l) (f (po_store otp ! l))"
    using assms(2) by auto
  have "c \<in> outbound_clusters ?otp' \<longleftrightarrow> c \<in> outbound_clusters otp \<or> c \<in> S" for c
    using assms(1) S(1) unfolding outbound_clusters_nth update_match_def
    by (auto simp: nth_list_update split: if_splits)
  then have "outbound_clusters ?otp' = outbound_clusters otp \<union> S" by blast
  moreover have "store_grows otp ?otp'" if "outbound_ok otp"
    using that m assms(1) by (auto simp: store_grows_def update_match_def nth_list_update listed_def)
      (simp add: outbound_ok_def listed_def)
  ultimately show ?thesis unfolding outbound_grows.simps using S(2) by blast
qed

lemma set_port_protocol_grows: "fill_grows (m, d) ((setPort port \<circ> setProtocol proto) m, d)"
  by (simp add: match_grows_def match_clusters_def setPort_def setProtocol_def routes_of_def hosts_of_def tcp_of_def Let_def)
    (rule exI [of _ "{}"], simp)

text \<open>An iteration of the loop over the traffic matches: it finds or creates the match object, and
  fills it.\<close>

lemma route_step_cases:
  assumes "route_step pol tm (otp, d) = Returns t" and ok: "outbound_ok otp"
  obtains otp2 l m d' where "outbound_grows (otp, d) (otp2, d)" and "l < length (po_store otp2)"
    and "l \<in> set (listed otp2 (word_of_int (tmt_DestinationPort tm)))"
    and "fill_match pol tm (po_store otp2 ! l, d) = Returns (m, d')" and "t = (update_match l (\<lambda>_. m) otp2, d')"
proof -
  let ?port = "word_of_int (tmt_DestinationPort tm)"
  let ?f = "setPort ?port \<circ> setProtocol (to_lower (tmt_DestinationProtocol tm))"
  obtain otp1 l b where new: "newTrafficMatch otp ?port (match_name tm) = (otp1, l, b)" by (metis prod_cases3)
  note l = newTrafficMatch_location [OF ok new]
  define otp2 where "otp2 = (if b then otp1 else update_match l ?f otp1)"
  have "outbound_grows (otp1, d) (otp2, d)"
    unfolding otp2_def
    using update_match_grows [where f = ?f, OF l(1) set_port_protocol_grows]
    by (simp del: outbound_grows.simps comp_apply)
  then have grows: "outbound_grows (otp, d) (otp2, d)"
    by (rule outbound_grows_trans [OF newTrafficMatch_grows [OF new]])
  have l2: "l < length (po_store otp2)" "l \<in> set (listed otp2 ?port)"
    using l by (simp_all add: otp2_def update_match_def listed_def)
  obtain m d' where "fill_match pol tm (po_store otp2 ! l, d) = Returns (m, d')" "t = (update_match l (\<lambda>_. m) otp2, d')"
    using assms(1) by (auto simp: route_step_def new otp2_def outcome_bind_Returns Let_def)
  then show ?thesis using that grows l2 by blast
qed

lemma route_step_grows:
  assumes "route_step pol tm s = Returns t"
  shows "outbound_grows s t"
proof -
  obtain otp d where s: "s = (otp, d)" by fastforce
  show ?thesis
  proof (cases "outbound_ok otp")
    case True
    from assms True show ?thesis
      unfolding s
    proof (rule route_step_cases)
      fix otp2 l m d'
      assume a: "outbound_grows (otp, d) (otp2, d)" "l < length (po_store otp2)"
        "fill_match pol tm (po_store otp2 ! l, d) = Returns (m, d')" "t = (update_match l (\<lambda>_. m) otp2, d')"
      have "outbound_grows (otp2, d) t"
        unfolding a(4) by (rule update_match_grows [where f = "\<lambda>_. m", OF a(2) fill_match_grows [OF a(3)]])
      with a(1) show "outbound_grows (otp, d) t" by (rule outbound_grows_trans)
    qed
  qed (cases t, simp add: s)
qed

interpretation matches: growing_loop "route_step pol" outbound_grows for pol
  by (rule growing_loop.intro) (simp, erule (1) outbound_grows_trans, erule route_step_grows)

definition published :: "OutboundTrafficPolicy \<Rightarrow> uint16 \<Rightarrow> PipyOutbound \<Rightarrow> bool" where
  "published cfg port otp \<longleftrightarrow>
     (\<exists>l \<in> set (listed otp port). l < length (po_store otp) \<and> config_published cfg (po_store otp ! l))"

lemma published_grows: "published cfg port otp \<Longrightarrow> store_grows otp otp' \<Longrightarrow> published cfg port otp'"
  unfolding published_def store_grows_def using config_published_grows by blast

lemma route_step_published:
  assumes "route_step pol tm (otp, d) = Returns (otp', d')" and "outbound_ok otp"
    and "is_http_protocol (to_lower (tmt_DestinationProtocol tm))" and "trafficMatchToMeshSvc tm = Some svc"
    and "cfg \<in> set (getOutboundHTTPRouteConfigs (omtp_HTTPRouteConfigsPerPort pol) (uint (ms_TargetPort svc)) (FQDN svc)
           (tmt_WeightedClusters tm))"
  shows "published cfg (word_of_int (tmt_DestinationPort tm)) otp'"
  using assms(1,2)
proof (rule route_step_cases)
  fix otp2 l m d2
  assume a: "l < length (po_store otp2)" "l \<in> set (listed otp2 (word_of_int (tmt_DestinationPort tm)))"
    "fill_match pol tm (po_store otp2 ! l, d) = Returns (m, d2)" "(otp', d') = (update_match l (\<lambda>_. m) otp2, d2)"
  have "config_published cfg m" using fill_match_published [OF a(3) assms(3-5)] by simp
  with a show ?thesis by (auto simp: published_def update_match_def listed_def intro!: bexI [of _ l])
qed

text \<open>From the first traffic match on, the configuration is well formed, its clusters are the
  dependent ones, and what has been published stays.\<close>

lemma route_loop:
  assumes "outcome_fold (route_step pol) tms (PipyOutbound_zero, gmap_empty) = Returns (otp, d)"
  shows "outbound_ok otp" and "outbound_clusters otp = dep_keys d"
proof -
  have "outbound_grows (PipyOutbound_zero, gmap_empty) (otp, d)" by (rule matches.loop_grows [OF assms])
  moreover have "outbound_clusters PipyOutbound_zero = {}" by (simp add: outbound_clusters_def PipyOutbound_zero_def)
  ultimately show "outbound_ok otp" and "outbound_clusters otp = dep_keys d" by (auto simp: store_grows_def)
qed

lemma route_loop_published:
  assumes "outcome_fold (route_step pol) tms (PipyOutbound_zero, gmap_empty) = Returns (otp, d)"
    and "tm \<in> set tms"
    and "is_http_protocol (to_lower (tmt_DestinationProtocol tm))" and "trafficMatchToMeshSvc tm = Some svc"
    and "cfg \<in> set (getOutboundHTTPRouteConfigs (omtp_HTTPRouteConfigsPerPort pol) (uint (ms_TargetPort svc)) (FQDN svc)
           (tmt_WeightedClusters tm))"
  shows "published cfg (word_of_int (tmt_DestinationPort tm)) otp"
proof -
  obtain xs ys where tms: "tms = xs @ tm # ys" using split_list [OF assms(2)] by blast
  have "outcome_fold f (xs @ zs) s = outcome_bind (outcome_fold f xs s) (outcome_fold f zs)"
    for f :: "TrafficMatch \<Rightarrow> PipyOutbound \<times> depend_clusters \<Rightarrow> (PipyOutbound \<times> depend_clusters) outcome" and xs zs s
  proof (induction xs arbitrary: s)
    case (Cons x xs)
    then show ?case by (cases "f x s") auto
  qed simp
  then obtain o1 d1 o2 d2 where loops: "outcome_fold (route_step pol) xs (PipyOutbound_zero, gmap_empty) = Returns (o1, d1)"
      "route_step pol tm (o1, d1) = Returns (o2, d2)" "outcome_fold (route_step pol) ys (o2, d2) = Returns (otp, d)"
    using assms(1) unfolding tms by (auto simp: outcome_bind_Returns)
  have ok1: "outbound_ok o1" by (rule route_loop(1) [OF loops(1)])
  have "outbound_ok o2" using route_step_grows [OF loops(2)] ok1 by (simp add: store_grows_def)
  then have "store_grows o2 otp" using matches.loop_grows [OF loops(3)] by simp
  with route_step_published [OF loops(2) ok1 assms(3-5)] show ?thesis by (rule published_grows)
qed

end
