(* ===== verification/BalanceCorrectness.thy ===== *)
theory BalanceCorrectness
  imports RouteCorrectness
begin

text \<open>
  The endpoint translation: which clusters get endpoints, when the configuration is ready, and
  which weights the endpoints have after rebalancing.
\<close>

section \<open>The dependent clusters\<close>

text \<open>The map of dependent clusters is keyed by the clusters' own names.\<close>

definition dep_wf :: "depend_clusters \<Rightarrow> bool" where
  "dep_wf d \<longleftrightarrow> gmap_wf d \<and> (\<forall>(k, c) \<in> set (entries d). wc_ClusterName c = k)"

lemma dep_wf_empty [simp]: "dep_wf gmap_empty" "dep_wf None"
  by (simp_all add: dep_wf_def)

lemma dep_wf_add: "dep_wf d \<Longrightarrow> dep_wf (add_depend c d)"
  using set_entries_put [of d "wc_ClusterName c" c]
  by (auto simp: dep_wf_def add_depend_def split: option.splits)

lemma dep_wf_fold: "dep_wf d \<Longrightarrow> dep_wf (fold add_depend cs d)"
  by (induction cs arbitrary: d) (auto intro: dep_wf_add)

definition keeps_dep_wf :: "'a \<times> depend_clusters \<Rightarrow> 'a \<times> depend_clusters \<Rightarrow> bool" where
  "keeps_dep_wf s t \<longleftrightarrow> (dep_wf (snd s) \<longrightarrow> dep_wf (snd t))"

lemma keeps_dep_wf_preorder: "keeps_dep_wf s s" "keeps_dep_wf s t \<Longrightarrow> keeps_dep_wf t u \<Longrightarrow> keeps_dep_wf s u"
  by (auto simp: keeps_dep_wf_def)

lemma add_route_dep_wf: "add_route n route s = Returns t \<Longrightarrow> keeps_dep_wf s t"
  by (auto simp: add_route_def keeps_dep_wf_def Let_def dep_wf_fold split: prod.splits if_splits)

interpretation dep_routes: growing_loop "add_route n" keeps_dep_wf for n
  by (rule growing_loop.intro) (rule keeps_dep_wf_preorder, erule (1) keeps_dep_wf_preorder, erule add_route_dep_wf)

lemma add_http_config_dep_wf: "add_http_config cfg s = Returns t \<Longrightarrow> keeps_dep_wf s t"
  using dep_routes.loop_grows by (cases s) (fastforce simp: add_http_config_unfold keeps_dep_wf_def)

interpretation dep_configs: growing_loop add_http_config keeps_dep_wf
  by (rule growing_loop.intro) (rule keeps_dep_wf_preorder, erule (1) keeps_dep_wf_preorder, erule add_http_config_dep_wf)

lemma fold_add_tcp_cluster_dep: "snd (fold add_tcp_cluster cs s) = fold add_depend cs (snd s)"
  by (induction cs arbitrary: s) (simp_all add: add_tcp_cluster_def)

lemma fill_match_dep_wf: "fill_match pol tm s = Returns t \<Longrightarrow> keeps_dep_wf s t"
  by (auto simp: fill_match_def Let_def keeps_dep_wf_def fold_add_tcp_cluster_dep dep_wf_fold
      dest: dep_configs.loop_grows split: if_splits option.splits)

lemma route_step_dep_wf:
  assumes "route_step pol tm s = Returns t"
  shows "keeps_dep_wf s t"
proof -
  have "\<exists>m m'. fill_match pol tm (m, snd s) = Returns (m', snd t)"
    using assms
    by (auto simp: route_step_def outcome_bind_Returns Let_def split: prod.splits if_splits) blast+
  then obtain m m' where "fill_match pol tm (m, snd s) = Returns (m', snd t)" by blast
  from fill_match_dep_wf [OF this] show ?thesis by (simp add: keeps_dep_wf_def)
qed

interpretation dep_matches: growing_loop "route_step pol" keeps_dep_wf for pol
  by (rule growing_loop.intro) (rule keeps_dep_wf_preorder, erule (1) keeps_dep_wf_preorder, erule route_step_dep_wf)

lemma route_loop_dep_wf:
  "outcome_fold (route_step pol) tms (otp, gmap_empty) = Returns (otp', d) \<Longrightarrow> dep_wf d"
  by (drule dep_matches.loop_grows) (simp add: keeps_dep_wf_def)

section \<open>Endpoints of a cluster\<close>

definition cluster_endpoint :: "Endpoint \<Rightarrow> WeightedZoneEndpoint" where
  "cluster_endpoint e = \<lparr>wze_Weight = ept_Weight e, wze_Cluster = ept_ClusterKey e, wze_LBType = ept_LBType e,
     wze_ContextPath = ept_Path e\<rparr>"

definition endpoint_key :: "MeshClusterConfig \<Rightarrow> Endpoint \<Rightarrow> string" where
  "endpoint_key cc e = endpoint_host_port (ip_string (ept_IP e)) (endpoint_port cc e)"

lemma fold_add_upstream_endpoint:
  "fold (add_upstream_endpoint cc) es c = c\<lparr>cc_Endpoints := gm.put_all (endpoint_key cc) cluster_endpoint es (cc_Endpoints c)\<rparr>"
  by (induction es arbitrary: c)
    (simp_all add: add_upstream_endpoint_def addWeightedZoneEndpoint_def endpoint_key_def cluster_endpoint_def)

definition upstream_config :: "MeshCatalog \<Rightarrow> MeshClusterConfig \<Rightarrow> string \<Rightarrow> ClusterConfigs" where
  "upstream_config mc cc c =
     \<lparr>cc_Endpoints = gm.put_all (endpoint_key cc) cluster_endpoint (getUpstreamEndpoints mc c) None\<rparr>"

definition cluster_ready :: "MeshCatalog \<Rightarrow> OutboundMeshTrafficPolicy \<Rightarrow> string \<Rightarrow> bool" where
  "cluster_ready mc pol c \<longleftrightarrow>
     getMeshClusterConfigs (omtp_ClustersConfigs pol) c \<noteq> None \<and> getUpstreamEndpoints mc c \<noteq> []"

lemma put_all_nonempty: "xs \<noteq> [] \<Longrightarrow> entries (gm.put_all key val xs m) \<noteq> []"
proof (induction xs arbitrary: m)
  case (Cons x xs)
  then show ?case by (cases xs) auto
qed simp

text \<open>One dependent cluster.\<close>

lemma balance_step_get:
  assumes "gmap_get (po_ClustersConfigs otp) (wc_ClusterName c) = None"
  shows "gmap_get (po_ClustersConfigs (fst (balance_step mc pol c (otp, r)))) k =
     (if k = wc_ClusterName c
      then map_option (\<lambda>cc. upstream_config mc cc k) (getMeshClusterConfigs (omtp_ClustersConfigs pol) k)
      else gmap_get (po_ClustersConfigs otp) k)"
  using assms
  by (auto simp: balance_step_def newClusterConfigs_def upstream_config_def fold_add_upstream_endpoint Let_def
      split: option.splits)

lemma balance_step_other:
  "snd (balance_step mc pol c s) \<longleftrightarrow> snd s \<and> cluster_ready mc pol (wc_ClusterName c)"
  "po_store (fst (balance_step mc pol c s)) = po_store (fst s)"
  "po_namedTrafficMatches (fst (balance_step mc pol c s)) = po_namedTrafficMatches (fst s)"
  "po_TrafficMatches (fst (balance_step mc pol c s)) = po_TrafficMatches (fst s)"
  by (cases s; auto simp: balance_step_def newClusterConfigs_def cluster_ready_def Let_def split: option.splits)+

lemma fold_balance_step_other:
  "snd (fold (balance_step mc pol) cs s) \<longleftrightarrow> snd s \<and> (\<forall>c \<in> set cs. cluster_ready mc pol (wc_ClusterName c))"
  "po_store (fst (fold (balance_step mc pol) cs s)) = po_store (fst s)"
  "po_namedTrafficMatches (fst (fold (balance_step mc pol) cs s)) = po_namedTrafficMatches (fst s)"
  "po_TrafficMatches (fst (fold (balance_step mc pol) cs s)) = po_TrafficMatches (fst s)"
  by (induction cs arbitrary: s) (auto simp: balance_step_other)

lemma fold_balance_step_get:
  assumes "distinct (map wc_ClusterName cs)" and "\<forall>c \<in> set cs. gmap_get (po_ClustersConfigs otp) (wc_ClusterName c) = None"
  shows "gmap_get (po_ClustersConfigs (fst (fold (balance_step mc pol) cs (otp, r)))) k =
     (if k \<in> wc_ClusterName ` set cs
      then map_option (\<lambda>cc. upstream_config mc cc k) (getMeshClusterConfigs (omtp_ClustersConfigs pol) k)
      else gmap_get (po_ClustersConfigs otp) k)"
  using assms
proof (induction cs arbitrary: otp r)
  case (Cons c cs)
  obtain otp' r' where step: "balance_step mc pol c (otp, r) = (otp', r')" by fastforce
  have get: "gmap_get (po_ClustersConfigs otp') k =
     (if k = wc_ClusterName c
      then map_option (\<lambda>cc. upstream_config mc cc k) (getMeshClusterConfigs (omtp_ClustersConfigs pol) k)
      else gmap_get (po_ClustersConfigs otp) k)" for k
    using balance_step_get [of otp c mc pol r k] Cons.prems(2) step by simp
  have "\<forall>c \<in> set cs. gmap_get (po_ClustersConfigs otp') (wc_ClusterName c) = None"
    using Cons.prems by (auto simp: get) (metis image_eqI)
  then show ?case using Cons.IH [of otp' r'] Cons.prems(1) by (auto simp: step get)
qed simp

end
