(* ===== verification/Configurator.thy ===== *)
theory Configurator
  imports K8sTypes GoTime
begin

text \<open>
  \<open>pkg/ecnet/configurator\<close>: the configuration of the control plane, read from the cached
  \<open>EcnetConfig\<close> object. The process environment (\<open>os.Getenv\<close>) is a function from variable names;
  durations are in nanoseconds; \<open>json.MarshalIndent\<close> is a parameter.
\<close>

record configurator_Client =
  cfg_ecnetNamespace :: string
  cfg_informers :: InformerCollection
  cfg_ecnetConfigName :: string

definition getEcnetConfigCacheKey :: "configurator_Client \<Rightarrow> string" where
  "getEcnetConfigCacheKey c = cfg_ecnetNamespace c @ ''/'' @ cfg_ecnetConfigName c"

definition getEcnetConfig :: "configurator_Client \<Rightarrow> EcnetConfig" where
  "getEcnetConfig c =
     (case GetByKey (ic_EcnetConfig (cfg_informers c)) (getEcnetConfigCacheKey c) of
        Inl _ \<Rightarrow> EcnetConfig_zero
      | Inr None \<Rightarrow> EcnetConfig_zero
      | Inr (Some item) \<Rightarrow> item)"

definition GetEcnetConfig :: "configurator_Client \<Rightarrow> EcnetConfig" where
  "GetEcnetConfig c = getEcnetConfig c"

definition GetEcnetNamespace :: "configurator_Client \<Rightarrow> string" where
  "GetEcnetNamespace c = cfg_ecnetNamespace c"

definition GetEcnetConfigJSON :: "(EcnetConfigSpec \<Rightarrow> 'e + string) \<Rightarrow> configurator_Client \<Rightarrow> 'e + string" where
  "GetEcnetConfigJSON marshalConfigToJSON c = marshalConfigToJSON (ec_Spec (getEcnetConfig c))"

definition GetSidecarLogLevel :: "configurator_Client \<Rightarrow> string" where
  "GetSidecarLogLevel c =
     (let logLevel = sc_LogLevel (ecs_Sidecar (ec_Spec (getEcnetConfig c)))
      in if logLevel \<noteq> [] then logLevel else DefaultSidecarLogLevel)"

definition GetProxyServerPort :: "configurator_Client \<Rightarrow> uint32" where
  "GetProxyServerPort c = sc_ProxyServerPort (ecs_Sidecar (ec_Spec (getEcnetConfig c)))"

definition GetRepoServerIPAddr :: "(string \<Rightarrow> string) \<Rightarrow> configurator_Client \<Rightarrow> string" where
  "GetRepoServerIPAddr getenv c =
     (let ipAddr = getenv ''ECNET_REPO_SERVER_IPADDR'';
          ipAddr = (if length ipAddr = 0 then rs_IPAddr (ecs_RepoServer (ec_Spec (getEcnetConfig c))) else ipAddr)
      in if length ipAddr = 0 then ''127.0.0.1'' else ipAddr)"

definition GetRepoServerCodebase :: "(string \<Rightarrow> string) \<Rightarrow> configurator_Client \<Rightarrow> string" where
  "GetRepoServerCodebase getenv c =
     (let codebase = getenv ''ECNET_REPO_SERVER_CODEBASE'';
          codebase = (if length codebase = 0 then rs_Codebase (ecs_RepoServer (ec_Spec (getEcnetConfig c))) else codebase);
          codebase = (if 0 < length codebase \<and> has_suffix codebase ''/'' then trim_suffix codebase ''/'' else codebase)
      in if 0 < length codebase \<and> has_prefix codebase ''/'' then trim_prefix codebase ''/'' else codebase)"

definition GetConfigResyncInterval :: "configurator_Client \<Rightarrow> int" where
  "GetConfigResyncInterval c =
     (case ParseDuration (sc_ConfigResyncInterval (ecs_Sidecar (ec_Spec (getEcnetConfig c)))) of
        None \<Rightarrow> 0 | Some duration \<Rightarrow> duration)"

section \<open>Plugin chains\<close>

record Plugin =
  plg_Name :: string
  plg_Priority :: rat
  plg_Script :: string
  plg_BuildIn :: bool

text \<open>The loop over one chain of the specification.\<close>

definition chain_plugins :: "PluginChainSpec list option \<Rightarrow> Plugin list" where
  "chain_plugins chain =
     fold (\<lambda>plugin plugins. if pcs_Disable plugin then plugins
             else plugins @ [\<lparr>plg_Name = pcs_Plugin plugin, plg_Priority = pcs_Priority plugin, plg_Script = [], plg_BuildIn = True\<rparr>])
       (case chain of None \<Rightarrow> [] | Some ps \<Rightarrow> ps) []"

definition GetGlobalPluginChains :: "configurator_Client \<Rightarrow> (string, Plugin list) gomap" where
  "GetGlobalPluginChains c =
     (let pluginChainMap = gmap_empty; pluginChainSpec = ecs_PluginChains (ec_Spec (getEcnetConfig c));
          pluginChainMap = gmap_put pluginChainMap ''inbound-tcp'' (chain_plugins (pcs_InboundTCPChains pluginChainSpec));
          pluginChainMap = gmap_put pluginChainMap ''inbound-http'' (chain_plugins (pcs_InboundHTTPChains pluginChainSpec));
          pluginChainMap = gmap_put pluginChainMap ''outbound-tcp'' (chain_plugins (pcs_OutboundTCPChains pluginChainSpec))
      in gmap_put pluginChainMap ''outbound-http'' (chain_plugins (pcs_OutboundHTTPChains pluginChainSpec)))"

text \<open>The chain of the specification behind a mount point.\<close>

definition mount_chain :: "PluginChainsSpec \<Rightarrow> string \<Rightarrow> PluginChainSpec list option" where
  "mount_chain spec mountPoint =
     (if mountPoint = ''inbound-tcp'' then pcs_InboundTCPChains spec
      else if mountPoint = ''inbound-http'' then pcs_InboundHTTPChains spec
      else if mountPoint = ''outbound-tcp'' then pcs_OutboundTCPChains spec
      else if mountPoint = ''outbound-http'' then pcs_OutboundHTTPChains spec
      else None)"

definition enabled :: "PluginChainSpec list option \<Rightarrow> PluginChainSpec list" where
  "enabled chain = filter (\<lambda>p. \<not> pcs_Disable p) (case chain of None \<Rightarrow> [] | Some ps \<Rightarrow> ps)"

definition built_in :: "PluginChainSpec \<Rightarrow> Plugin" where
  "built_in p = \<lparr>plg_Name = pcs_Plugin p, plg_Priority = pcs_Priority p, plg_Script = [], plg_BuildIn = True\<rparr>"

lemma chain_plugins_eq: "chain_plugins chain = map built_in (enabled chain)"
proof -
  have "fold (\<lambda>plugin plugins. if pcs_Disable plugin then plugins
         else plugins @ [\<lparr>plg_Name = pcs_Plugin plugin, plg_Priority = pcs_Priority plugin, plg_Script = [], plg_BuildIn = True\<rparr>])
       ps acc = acc @ map built_in (filter (\<lambda>p. \<not> pcs_Disable p) ps)" for ps acc
    by (induction ps arbitrary: acc) (simp_all add: built_in_def)
  then show ?thesis by (simp add: chain_plugins_def enabled_def)
qed

lemma GetGlobalPluginChains_entries:
  fixes c :: configurator_Client
  defines "spec \<equiv> ecs_PluginChains (ec_Spec (getEcnetConfig c))"
  shows "entries (GetGlobalPluginChains c) =
    [(''inbound-tcp'', map built_in (enabled (pcs_InboundTCPChains spec))),
     (''inbound-http'', map built_in (enabled (pcs_InboundHTTPChains spec))),
     (''outbound-tcp'', map built_in (enabled (pcs_OutboundTCPChains spec))),
     (''outbound-http'', map built_in (enabled (pcs_OutboundHTTPChains spec)))]"
  by (simp add: GetGlobalPluginChains_def gmap_put_def entries_def Let_def chain_plugins_eq spec_def)

end
