(* ===== verification/GoSort.thy ===== *)
theory GoSort
  imports GoStrings
begin

text \<open>
  \<open>sort.Sort\<close> and \<open>strings.Compare\<close> of Go's standard library. Up to twelve elements \<open>sort.Sort\<close> is
  insertion sort, which is modelled here; longer slices go to the library's pattern-defeating
  quicksort, which is a parameter (\<open>pdq\<close>) with the documented behaviour of \<open>sort.Sort\<close> as its
  contract: the elements are kept, and the result is ordered when \<open>Less\<close> is a strict weak order.
\<close>

section \<open>Insertion sort\<close>

text \<open>The inner loop moves an element to the left past every element it is less than; \<open>done\<close> is
  the part to its left, last element first.\<close>

fun sift :: "('a \<Rightarrow> 'a \<Rightarrow> bool) \<Rightarrow> 'a \<Rightarrow> 'a list \<Rightarrow> 'a list" where
  "sift lt x [] = [x]"
| "sift lt x (y # ys) = (if lt x y then y # sift lt x ys else x # y # ys)"

definition insertionSort :: "('a \<Rightarrow> 'a \<Rightarrow> bool) \<Rightarrow> 'a list \<Rightarrow> 'a list" where
  "insertionSort lt xs = rev (fold (sift lt) xs [])"

definition sort_Sort :: "(('a \<Rightarrow> 'a \<Rightarrow> bool) \<Rightarrow> 'a list \<Rightarrow> 'a list) \<Rightarrow> ('a \<Rightarrow> 'a \<Rightarrow> bool) \<Rightarrow> 'a list \<Rightarrow> 'a list" where
  "sort_Sort pdq lt xs = (if length xs \<le> 12 then insertionSort lt xs else pdq lt xs)"

section \<open>Strict weak orders\<close>

definition ordered_by :: "('a \<Rightarrow> 'a \<Rightarrow> bool) \<Rightarrow> 'a list \<Rightarrow> bool" where
  "ordered_by lt xs \<longleftrightarrow> sorted_wrt (\<lambda>a b. \<not> lt b a) xs"

definition strict_weak :: "('a \<Rightarrow> 'a \<Rightarrow> bool) \<Rightarrow> bool" where
  "strict_weak lt \<longleftrightarrow> (\<forall>a b. lt a b \<longrightarrow> \<not> lt b a) \<and> (\<forall>a b c. \<not> lt a b \<longrightarrow> \<not> lt b c \<longrightarrow> \<not> lt a c)"

text \<open>The documented behaviour of \<open>sort.Sort\<close>.\<close>

definition sorts :: "(('a \<Rightarrow> 'a \<Rightarrow> bool) \<Rightarrow> 'a list \<Rightarrow> 'a list) \<Rightarrow> bool" where
  "sorts srt \<longleftrightarrow> (\<forall>lt xs. mset (srt lt xs) = mset xs \<and> (strict_weak lt \<longrightarrow> ordered_by lt (srt lt xs)))"

lemma mset_sift [simp]: "mset (sift lt x ys) = add_mset x (mset ys)"
  by (induction ys) auto

lemma mset_insertionSort [simp]: "mset (insertionSort lt xs) = mset xs"
proof -
  have "mset (fold (sift lt) xs ys) = mset xs + mset ys" for ys
    by (induction xs arbitrary: ys) auto
  then show ?thesis by (simp add: insertionSort_def)
qed

lemma set_sift [simp]: "set (sift lt x ys) = insert x (set ys)"
  by (induction ys) auto

locale weak_order =
  fixes lt :: "'a \<Rightarrow> 'a \<Rightarrow> bool"
  assumes asym: "lt a b \<Longrightarrow> \<not> lt b a"
    and neg_trans: "\<not> lt a b \<Longrightarrow> \<not> lt b c \<Longrightarrow> \<not> lt a c"
begin

lemma is_strict_weak: "strict_weak lt"
  unfolding strict_weak_def using asym neg_trans by blast

lemma sift_ordered:
  "sorted_wrt (\<lambda>a b. \<not> lt a b) ys \<Longrightarrow> sorted_wrt (\<lambda>a b. \<not> lt a b) (sift lt x ys)"
proof (induction ys)
  case (Cons y ys)
  then have y: "\<And>z. z \<in> set ys \<Longrightarrow> \<not> lt y z" and ys: "sorted_wrt (\<lambda>a b. \<not> lt a b) ys" by simp_all
  show ?case
  proof (cases "lt x y")
    case True
    then have "\<not> lt y x" by (rule asym)
    with True y Cons.IH [OF ys] show ?thesis by simp
  next
    case False
    then have "\<not> lt x z" if "z \<in> set ys" for z using y [OF that] by (rule neg_trans)
    with False y ys show ?thesis by simp
  qed
qed simp

lemma insertionSort_ordered: "ordered_by lt (insertionSort lt xs)"
proof -
  have "sorted_wrt (\<lambda>a b. \<not> lt a b) (fold (sift lt) xs ys)"
    if "sorted_wrt (\<lambda>a b. \<not> lt a b) ys" for ys
    using that by (induction xs arbitrary: ys) (auto simp: sift_ordered)
  then show ?thesis by (simp add: ordered_by_def insertionSort_def sorted_wrt_rev)
qed

lemma sort_Sort_sorts:
  assumes "sorts pdq"
  shows "mset (sort_Sort pdq lt xs) = mset xs \<and> ordered_by lt (sort_Sort pdq lt xs)"
  using assms is_strict_weak insertionSort_ordered unfolding sorts_def sort_Sort_def by simp

end

text \<open>Insertion sort has the documented behaviour itself.\<close>

lemma insertionSort_sorts: "sorts insertionSort"
proof -
  have "ordered_by lt (insertionSort lt xs)" if "strict_weak lt" for lt :: "'a \<Rightarrow> 'a \<Rightarrow> bool" and xs
  proof -
    from that have "weak_order lt" unfolding strict_weak_def by (intro weak_order.intro) blast+
    then show ?thesis by (rule weak_order.insertionSort_ordered)
  qed
  then show ?thesis by (simp add: sorts_def)
qed

lemma mset_sort_Sort: "sorts pdq \<Longrightarrow> mset (sort_Sort pdq lt xs) = mset xs"
  by (simp add: sort_Sort_def sorts_def)

lemma sort_Sort_short [simp]: "sort_Sort pdq lt [] = []" "sort_Sort pdq lt [x] = [x]"
  by (simp_all add: sort_Sort_def insertionSort_def)

section \<open>strings.Compare\<close>

fun strings_Compare :: "string \<Rightarrow> string \<Rightarrow> int" where
  "strings_Compare [] [] = 0"
| "strings_Compare [] (b # bs) = - 1"
| "strings_Compare (a # as) [] = 1"
| "strings_Compare (a # as) (b # bs) =
     (if byte a < byte b then - 1 else if byte b < byte a then 1 else strings_Compare as bs)"

end
