(* ===== verification/Chains.thy ===== *)
theory Chains
  imports PipyConf Configurator GoSort
begin

text \<open>
  \<open>bridge/ctrlplane/server/plugin.go\<close>, the sort methods of \<open>policy.go\<close> and the step \<open>reorder\<close> of
  \<open>jobs.go\<close>: the plugin chains of the proxy and the order of its route rules.
\<close>

section \<open>Plugin chains\<close>

definition getPluginURI :: "string \<Rightarrow> string" where
  "getPluginURI name = ''plugins/'' @ name @ ''.js''"

text \<open>\<open>PluginSlice.Less\<close>.\<close>

definition plugin_less :: "Plugin \<Rightarrow> Plugin \<Rightarrow> bool" where
  "plugin_less a b \<longleftrightarrow> plg_Priority b < plg_Priority a"

definition plugin_uri :: "Plugin \<Rightarrow> string" where
  "plugin_uri pluginItem = (if plg_BuildIn pluginItem then plg_Name pluginItem @ ''.js'' else getPluginURI (plg_Name pluginItem))"

type_synonym 'a sorter = "('a \<Rightarrow> 'a \<Rightarrow> bool) \<Rightarrow> 'a list \<Rightarrow> 'a list"

text \<open>The slice that is sorted and the slice that is read share their elements.\<close>

definition setSidecarChain :: "Plugin sorter \<Rightarrow> configurator_Client \<Rightarrow> PipyConf \<Rightarrow> PipyConf" where
  "setSidecarChain pdq cfg pipyConf =
     pipyConf\<lparr>pc_Chains :=
       fold (\<lambda>(mountPoint, pluginItems) chains.
               if 0 < length pluginItems
               then gmap_put chains mountPoint (map plugin_uri (sort_Sort pdq plugin_less pluginItems)) else chains)
         (entries (GetGlobalPluginChains cfg)) gmap_empty\<rparr>"

interpretation plugins: weak_order plugin_less
  by unfold_locales (auto simp: plugin_less_def)

section \<open>Route rules\<close>

text \<open>\<open>OutboundHTTPRouteRuleSlice.Less\<close> and \<open>sort\<close>.\<close>

definition rule_less :: "OutboundHTTPRouteRule \<Rightarrow> OutboundHTTPRouteRule \<Rightarrow> bool" where
  "rule_less a b \<longleftrightarrow>
     (if hmr_Path (hrr_HTTPMatchRule a) = RegexMatchAll then False
      else strings_Compare (hmr_Path (hrr_HTTPMatchRule a)) (hmr_Path (hrr_HTTPMatchRule b)) = - 1)"

definition sort_rules :: "OutboundHTTPRouteRule sorter \<Rightarrow> OutboundHTTPRouteRules \<Rightarrow> OutboundHTTPRouteRules" where
  "sort_rules pdq hrrs = (if 1 < length hrrs then sort_Sort pdq rule_less hrrs else hrrs)"

definition reorder_match :: "OutboundHTTPRouteRule sorter \<Rightarrow> OutboundTrafficMatch \<Rightarrow> OutboundTrafficMatch" where
  "reorder_match pdq trafficMatch =
     trafficMatch\<lparr>otm_HTTPServiceRouteRules := gmap_map_values (sort_rules pdq) (otm_HTTPServiceRouteRules trafficMatch)\<rparr>"

definition reorder :: "OutboundHTTPRouteRule sorter \<Rightarrow> PipyConf \<Rightarrow> PipyConf" where
  "reorder pdq pipyConf =
     (case pc_Outbound pipyConf of
        None \<Rightarrow> pipyConf
      | Some otp \<Rightarrow>
          pipyConf\<lparr>pc_Outbound := Some (fold (\<lambda>(_, trafficMatches). fold (\<lambda>l. update_match l (reorder_match pdq)) trafficMatches)
            (entries (po_TrafficMatches otp)) otp)\<rparr>)"

text \<open>With at most one rule per name, reordering changes nothing.\<close>

definition single_rules :: "OutboundTrafficMatch \<Rightarrow> bool" where
  "single_rules m \<longleftrightarrow> (\<forall>(n, rules) \<in> set (entries (otm_HTTPServiceRouteRules m)). length rules \<le> 1)"

lemma reorder_match_single: "single_rules m \<Longrightarrow> reorder_match pdq m = m"
proof -
  assume "single_rules m"
  then have "gmap_map_values (sort_rules pdq) (otm_HTTPServiceRouteRules m) = otm_HTTPServiceRouteRules m"
    by (cases "otm_HTTPServiceRouteRules m")
      (auto simp: gmap_map_values_def single_rules_def sort_rules_def entries_def intro!: map_idI)
  then show ?thesis by (simp add: reorder_match_def)
qed

lemma update_match_single:
  assumes "\<forall>m \<in> set (po_store otp). single_rules m"
  shows "update_match l (reorder_match pdq) otp = otp"
proof (cases "l < length (po_store otp)")
  case True
  with assms have "reorder_match pdq (po_store otp ! l) = po_store otp ! l" by (simp add: reorder_match_single)
  then show ?thesis by (simp add: update_match_def)
qed (simp add: update_match_def list_update_beyond)

lemma reorder_single:
  assumes "\<forall>otp m. pc_Outbound conf = Some otp \<longrightarrow> m \<in> set (po_store otp) \<longrightarrow> single_rules m"
  shows "reorder pdq conf = conf"
proof (cases "pc_Outbound conf")
  case (Some otp)
  with assms have single: "update_match l (reorder_match pdq) otp = otp" for l
    by (intro update_match_single) auto
  have "fold (\<lambda>l. update_match l (reorder_match pdq)) ls otp = otp" for ls
    by (induction ls) (simp_all add: single)
  then have "fold (\<lambda>(_, trafficMatches). fold (\<lambda>l. update_match l (reorder_match pdq)) trafficMatches) es otp = otp"
    for es :: "(uint16 \<times> nat list) list"
    by (induction es) (auto simp: case_prod_beta)
  then show ?thesis using Some by (simp add: reorder_def)
qed (simp add: reorder_def)

section \<open>Properties\<close>

lemma get_fold_put_nonempty:
  assumes "distinct (map fst es)"
  shows "gmap_get (fold (\<lambda>(k, v) m. if 0 < length v then gmap_put m k (g v) else m) es m) k =
     (case map_of es k of None \<Rightarrow> gmap_get m k | Some v \<Rightarrow> if v = [] then gmap_get m k else Some (g v))"
  using assms
proof (induction es arbitrary: m)
  case (Cons e es)
  obtain k' v where e: "e = (k', v)" by fastforce
  have "map_of es k' = None" using Cons.prems by (simp add: e map_of_eq_None_iff)
  then show ?case using Cons by (auto simp: e split: option.split)
qed simp

lemma setSidecarChain_get:
  "gmap_get (pc_Chains (setSidecarChain pdq cfg conf)) mountPoint =
     (let ps = map built_in (enabled (mount_chain (ecs_PluginChains (ec_Spec (getEcnetConfig cfg))) mountPoint))
      in if ps = [] then None else Some (map plugin_uri (sort_Sort pdq plugin_less ps)))"
proof -
  let ?es = "entries (GetGlobalPluginChains cfg)" and ?spec = "ecs_PluginChains (ec_Spec (getEcnetConfig cfg))"
  have "distinct (map fst ?es)" by (simp add: GetGlobalPluginChains_entries)
  from get_fold_put_nonempty [OF this, of "\<lambda>ps. map plugin_uri (sort_Sort pdq plugin_less ps)" gmap_empty mountPoint]
  have "gmap_get (pc_Chains (setSidecarChain pdq cfg conf)) mountPoint =
      (case map_of ?es mountPoint of None \<Rightarrow> None
       | Some ps \<Rightarrow> if ps = [] then None else Some (map plugin_uri (sort_Sort pdq plugin_less ps)))"
    by (simp add: setSidecarChain_def split: option.split)
  moreover have "map_of ?es mountPoint = Some (map built_in (enabled (mount_chain ?spec mountPoint))) \<or>
      map_of ?es mountPoint = None \<and> mount_chain ?spec mountPoint = None"
    unfolding GetGlobalPluginChains_entries mount_chain_def by simp
  ultimately show ?thesis by (auto simp: enabled_def)
qed

text \<open>C24. The plugin chain of a mount point holds exactly the plugins that the configuration enables
  there, each as its script name, in order of falling priority; a mount point without enabled
  plugins has no chain, and there are no other mount points. (\<open>sort.Sort\<close> is assumed to sort.)\<close>

theorem plugin_chains:
  assumes "sorts pdq"
  shows "\<exists>ps. mset ps = mset (enabled (mount_chain (ecs_PluginChains (ec_Spec (getEcnetConfig cfg))) mountPoint)) \<and>
     sorted_wrt (\<lambda>a b. pcs_Priority b \<le> pcs_Priority a) ps \<and>
     gmap_get (pc_Chains (setSidecarChain pdq cfg conf)) mountPoint =
       (if ps = [] then None else Some (map (\<lambda>p. pcs_Plugin p @ ''.js'') ps))"
proof -
  let ?en = "enabled (mount_chain (ecs_PluginChains (ec_Spec (getEcnetConfig cfg))) mountPoint)"
  let ?qs = "sort_Sort pdq plugin_less (map built_in ?en)"
  define spec where "spec = (\<lambda>q :: Plugin. \<lparr>pcs_Plugin = plg_Name q, pcs_Priority = plg_Priority q, pcs_Disable = False\<rparr>)"
  have q: "mset ?qs = mset (map built_in ?en)" "ordered_by plugin_less ?qs"
    using plugins.sort_Sort_sorts [OF assms, of "map built_in ?en"] by simp_all
  have "spec (built_in p) = p" if "p \<in> set ?en" for p
    using that by (simp add: spec_def built_in_def enabled_def)
  then have en: "map (spec \<circ> built_in) ?en = ?en" by (simp add: map_idI)
  have "mset (map spec ?qs) = mset (map spec (map built_in ?en))" by (metis q(1) mset_map)
  then have "mset (map spec ?qs) = mset ?en" by (simp only: map_map en)
  moreover have "sorted_wrt (\<lambda>a b. pcs_Priority b \<le> pcs_Priority a) (map spec ?qs)"
    using q(2) by (simp add: ordered_by_def plugin_less_def sorted_wrt_map spec_def not_less)
  moreover have "gmap_get (pc_Chains (setSidecarChain pdq cfg conf)) mountPoint =
      (if map spec ?qs = [] then None else Some (map (\<lambda>p. pcs_Plugin p @ ''.js'') (map spec ?qs)))"
  proof -
    have "set ?qs = built_in ` set ?en" using q(1) by (metis set_map set_mset_mset)
    then have "map plugin_uri ?qs = map (\<lambda>p. pcs_Plugin p @ ''.js'') (map spec ?qs)"
      by (auto simp: plugin_uri_def spec_def built_in_def)
    moreover have "?qs = [] \<longleftrightarrow> ?en = []" using q(1) by (metis map_is_Nil_conv mset_zero_iff)
    ultimately show ?thesis by (simp add: setSidecarChain_get Let_def)
  qed
  ultimately show ?thesis by blast
qed

definition sample_config :: EcnetConfig where
  "sample_config = EcnetConfig_zero\<lparr>ec_Spec := (ec_Spec EcnetConfig_zero)\<lparr>ecs_PluginChains :=
     \<lparr>pcs_InboundTCPChains = None, pcs_InboundHTTPChains = None, pcs_OutboundTCPChains = None,
      pcs_OutboundHTTPChains = Some
       [\<lparr>pcs_Plugin = ''modules/outbound-http-default'', pcs_Priority = 110, pcs_Disable = False\<rparr>,
        \<lparr>pcs_Plugin = ''modules/outbound-tracing-http'', pcs_Priority = 150, pcs_Disable = True\<rparr>,
        \<lparr>pcs_Plugin = ''modules/outbound-http-routing'', pcs_Priority = 160, pcs_Disable = False\<rparr>]\<rparr>\<rparr>\<rparr>"

definition sample_cfg :: configurator_Client where
  "sample_cfg = \<lparr>cfg_ecnetNamespace = [],
     cfg_informers = \<lparr>ic_Namespace = None, ic_Service = None, ic_Pod = None, ic_Endpoints = None, ic_ServiceAccount = None,
       ic_ServiceImport = None, ic_GlobalTrafficPolicy = None,
       ic_EcnetConfig = Some (list_store (\<lambda>e. ec_Namespace e @ ''/'' @ ec_Name e) [sample_config])\<rparr>,
     cfg_ecnetConfigName = []\<rparr>"

theorem plugin_chains_witness:
  "\<exists>ps :: PluginChainSpec list. map pcs_Plugin ps = [''modules/outbound-http-routing'', ''modules/outbound-http-default''] \<and>
     gmap_get (pc_Chains (setSidecarChain insertionSort sample_cfg PipyConf_zero)) ''outbound-http'' =
       Some (map (\<lambda>p. pcs_Plugin p @ ''.js'') ps)"
proof -
  define a b where "a = \<lparr>pcs_Plugin = ''modules/outbound-http-default'', pcs_Priority = 110, pcs_Disable = False\<rparr>"
    and "b = \<lparr>pcs_Plugin = ''modules/outbound-http-routing'', pcs_Priority = 160, pcs_Disable = False\<rparr>"
  have en: "enabled (mount_chain (ecs_PluginChains (ec_Spec (getEcnetConfig sample_cfg))) ''outbound-http'') = [a, b]"
    by (simp add: enabled_def mount_chain_def getEcnetConfig_def GetByKey_def sample_cfg_def sample_config_def
        EcnetConfig_zero_def list_store_def getEcnetConfigCacheKey_def a_def b_def)
  obtain ps where ps: "mset ps = mset [a, b]" "sorted_wrt (\<lambda>a b. pcs_Priority b \<le> pcs_Priority a) ps"
    and get: "gmap_get (pc_Chains (setSidecarChain insertionSort sample_cfg PipyConf_zero)) ''outbound-http'' =
       (if ps = [] then None else Some (map (\<lambda>p. pcs_Plugin p @ ''.js'') ps))"
    using plugin_chains [OF insertionSort_sorts, of sample_cfg "''outbound-http''" PipyConf_zero] unfolding en by blast
  have "length ps = 2" using arg_cong [OF ps(1), of size] by simp
  then obtain x y where xy: "ps = [x, y]" by (auto simp: numeral_2_eq_2 length_Suc_conv)
  have "pcs_Priority a < pcs_Priority b" by (simp add: a_def b_def)
  with ps have "ps = [b, a]" unfolding xy by (auto simp: add_eq_conv_ex)
  with get have "gmap_get (pc_Chains (setSidecarChain insertionSort sample_cfg PipyConf_zero)) ''outbound-http'' =
      Some (map (\<lambda>p. pcs_Plugin p @ ''.js'') [b, a])" by simp
  moreover have "map pcs_Plugin [b, a] = [''modules/outbound-http-routing'', ''modules/outbound-http-default'']"
    by (simp add: a_def b_def)
  ultimately show ?thesis by (intro exI [of _ "[b, a]"] conjI)
qed

text \<open>The order of route rules does not put the catch-all path last, as its special case intends:
  against a path that begins with a slash, the catch-all is not greater, so sorting leaves a
  catch-all rule in front of it; and \<open>Less\<close> is no strict weak order, which \<open>sort.Sort\<close> requires.\<close>

theorem catch_all_not_last:
  assumes "hmr_Path (hrr_HTTPMatchRule r) = CHR ''/'' # p" and "hmr_Path (hrr_HTTPMatchRule wild) = RegexMatchAll"
  shows "sort_rules pdq [wild, r] = [wild, r] \<and> \<not> strict_weak rule_less"
proof
  have less: "\<not> rule_less r wild" using assms by (simp add: rule_less_def RegexMatchAll_def byte_def)
  then show "sort_rules pdq [wild, r] = [wild, r]" by (simp add: sort_rules_def sort_Sort_def insertionSort_def)
  let ?rule = "\<lambda>path. r\<lparr>hrr_HTTPMatchRule := (hrr_HTTPMatchRule r)\<lparr>hmr_Path := path\<rparr>\<rparr>"
  have "\<not> rule_less (?rule ''/a'') (?rule ''.*'')" "\<not> rule_less (?rule ''.*'') (?rule ''/b'')"
    "rule_less (?rule ''/a'') (?rule ''/b'')"
    by (simp_all add: rule_less_def RegexMatchAll_def byte_def)
  then show "\<not> strict_weak rule_less" unfolding strict_weak_def by blast
qed

theorem catch_all_not_last_witness:
  "\<exists>wild r. hmr_Path (hrr_HTTPMatchRule wild) = ''.*'' \<and> hmr_Path (hrr_HTTPMatchRule r) = ''/a'' \<and>
     sort_rules insertionSort [wild, r] = [wild, r]"
proof -
  let ?rule = "\<lambda>path. \<lparr>hrr_HTTPMatchRule = HTTPMatchRule_zero\<lparr>hmr_Path := path\<rparr>, hrr_TargetClusters = None\<rparr>"
  have "sort_rules insertionSort [?rule ''.*'', ?rule ''/a''] = [?rule ''.*'', ?rule ''/a'']"
    by (rule catch_all_not_last [where p = "''a''", THEN conjunct1]) (simp_all add: RegexMatchAll_def)
  then show ?thesis by (intro exI [of _ "?rule ''.*''"] exI [of _ "?rule ''/a''"]) simp
qed

end
