(* ===== verification/HostRouting.thy ===== *)
theory HostRouting
  imports BalanceCorrectness Chains
begin

text \<open>
  Hostnames in the published configuration: every hostname of a traffic match leads to a rule
  name with exactly one rule, which matches everything and has a target cluster. The reason is that
  the catalog's HTTP policies have a single wildcard route.
\<close>

section \<open>Routable matches\<close>

definition catch_all :: "OutboundHTTPRouteRules \<Rightarrow> bool" where
  "catch_all rules \<longleftrightarrow> (\<exists>r. rules = [r] \<and> HTTPMatchRule_deep_equal (http_match WildCardRouteMatch) (hrr_HTTPMatchRule r) \<and>
     entries (hrr_TargetClusters r) \<noteq> [])"

definition routable :: "OutboundTrafficMatch \<Rightarrow> bool" where
  "routable m \<longleftrightarrow>
     (\<forall>(n, rules) \<in> set (entries (otm_HTTPServiceRouteRules m)). catch_all rules) \<and>
     (\<forall>(h, n) \<in> set (entries (otm_HTTPHostPort2Service m)). gmap_get (otm_HTTPServiceRouteRules m) n \<noteq> None)"

definition wild_config :: "OutboundTrafficPolicy \<Rightarrow> bool" where
  "wild_config cfg \<longleftrightarrow> (\<exists>ws. otp_Routes cfg = [\<lparr>rwc_HTTPRouteMatch = WildCardRouteMatch, rwc_WeightedClusters = ws\<rparr>] \<and> ws \<noteq> [])"

definition wild_policy :: "OutboundMeshTrafficPolicy \<Rightarrow> bool" where
  "wild_policy pol \<longleftrightarrow> (\<forall>port ps. gmap_get (omtp_HTTPRouteConfigsPerPort pol) port = Some ps \<longrightarrow> (\<forall>cfg \<in> set ps. wild_config cfg))"

lemma routable_zero [simp]: "routable OutboundTrafficMatch_zero"
  by (simp add: routable_def OutboundTrafficMatch_zero_def)

lemma routable_setters [simp]:
  "routable (setPort p m) = routable m" "routable (setProtocol q m) = routable m"
  "routable (newTCPServiceRouteRules m) = routable m" "routable (tcp_addWeightedCluster c w m) = routable m"
  by (simp_all add: routable_def setPort_def setProtocol_def newTCPServiceRouteRules_def tcp_addWeightedCluster_def
      Let_def split: option.split)

section \<open>One route config\<close>

lemma fold_addWeightedCluster_rule:
  "hrr_HTTPMatchRule (fold (\<lambda>c. http_addWeightedCluster (wc_ClusterName c) (w c)) cs r) = hrr_HTTPMatchRule r"
  "cs \<noteq> [] \<Longrightarrow> entries (hrr_TargetClusters (fold (\<lambda>c. http_addWeightedCluster (wc_ClusterName c) (w c)) cs r)) \<noteq> []"
proof -
  show "hrr_HTTPMatchRule (fold (\<lambda>c. http_addWeightedCluster (wc_ClusterName c) (w c)) cs r) = hrr_HTTPMatchRule r"
    by (induction cs arbitrary: r) (simp_all add: http_addWeightedCluster_def)
  have "entries (hrr_TargetClusters r) \<noteq> [] \<Longrightarrow>
      entries (hrr_TargetClusters (fold (\<lambda>c. http_addWeightedCluster (wc_ClusterName c) (w c)) cs r)) \<noteq> []" for cs r
    by (induction cs arbitrary: r) (simp_all add: http_addWeightedCluster_def)
  then show "cs \<noteq> [] \<Longrightarrow> entries (hrr_TargetClusters (fold (\<lambda>c. http_addWeightedCluster (wc_ClusterName c) (w c)) cs r)) \<noteq> []"
    by (cases cs) (simp_all add: http_addWeightedCluster_def)
qed

lemma HTTPMatchRule_deep_equal_refl: "HTTPMatchRule_deep_equal (http_match WildCardRouteMatch) (http_match WildCardRouteMatch)"
  by (simp add: HTTPMatchRule_deep_equal_def gmap_deep_equal_def http_match_def WildCardRouteMatch_def
      WildcardHTTPMethod_def HTTPMatchRule_zero_def addMethodMatch_def Let_def)

lemma newHTTPServiceRouteRule_catch_all:
  assumes "rules = [] \<or> catch_all rules" and "newHTTPServiceRouteRule (http_match WildCardRouteMatch) rules = (rules', i, b)"
  shows "\<exists>r. rules' = [r] \<and> i = 0 \<and> HTTPMatchRule_deep_equal (http_match WildCardRouteMatch) (hrr_HTTPMatchRule r)"
  using assms HTTPMatchRule_deep_equal_refl by (auto simp: newHTTPServiceRouteRule_def catch_all_def)

lemma add_route_catch_all:
  assumes "add_route n \<lparr>rwc_HTTPRouteMatch = WildCardRouteMatch, rwc_WeightedClusters = ws\<rparr> (m, d) = Returns (m', d')"
    and "ws \<noteq> []" and "\<forall>rules. gmap_get (otm_HTTPServiceRouteRules m) n = Some rules \<longrightarrow> rules = [] \<or> catch_all rules"
  shows "\<exists>rules. catch_all rules \<and> m' = m\<lparr>otm_HTTPServiceRouteRules := gmap_put (otm_HTTPServiceRouteRules m) n rules\<rparr>"
proof -
  define rules where "rules = (case gmap_get (otm_HTTPServiceRouteRules m) n of None \<Rightarrow> [] | Some rs \<Rightarrow> rs)"
  obtain rules1 i b where new: "newHTTPServiceRouteRule (http_match WildCardRouteMatch) rules = (rules1, i, b)"
    by (metis prod_cases3)
  have "rules = [] \<or> catch_all rules" using assms(3) by (auto simp: rules_def split: option.splits)
  from newHTTPServiceRouteRule_catch_all [OF this new] obtain r where r: "rules1 = [r]" "i = 0"
    "HTTPMatchRule_deep_equal (http_match WildCardRouteMatch) (hrr_HTTPMatchRule r)" by blast
  let ?r = "fold (\<lambda>c. http_addWeightedCluster (wc_ClusterName c) (word_of_int (wc_Weight c))) ws r"
  have "catch_all [?r]" using r(3) assms(2) by (simp add: catch_all_def fold_addWeightedCluster_rule)
  moreover have "m' = m\<lparr>otm_HTTPServiceRouteRules := gmap_put (otm_HTTPServiceRouteRules m) n [?r]\<rparr>"
    using assms(1) new r(1,2) by (auto simp: add_route_def rules_def [symmetric] Let_def split: if_splits)
  ultimately show ?thesis by blast
qed

lemma add_hosts_other:
  "otm_HTTPServiceRouteRules (add_hosts n hs m) = otm_HTTPServiceRouteRules m"
  "set (entries (otm_HTTPHostPort2Service (add_hosts n hs m))) \<subseteq> set (entries (otm_HTTPHostPort2Service m)) \<union> set hs \<times> {n}"
proof -
  show "otm_HTTPServiceRouteRules (add_hosts n hs m) = otm_HTTPServiceRouteRules m"
    by (induction hs arbitrary: m) (simp_all add: addHTTPHostPort2Service_def)
  show "set (entries (otm_HTTPHostPort2Service (add_hosts n hs m))) \<subseteq> set (entries (otm_HTTPHostPort2Service m)) \<union> set hs \<times> {n}"
  proof (induction hs arbitrary: m)
    case (Cons h hs)
    show ?case
      using Cons.IH [of "addHTTPHostPort2Service h n m"] set_entries_put [of "otm_HTTPHostPort2Service m" h n]
      by (auto simp: addHTTPHostPort2Service_def)
  qed simp
qed

lemma newHTTPServiceRouteRules_other:
  "otm_HTTPHostPort2Service (fst (newHTTPServiceRouteRules n m)) = otm_HTTPHostPort2Service m"
  "set (entries (otm_HTTPServiceRouteRules (fst (newHTTPServiceRouteRules n m)))) \<subseteq>
     insert (n, []) (set (entries (otm_HTTPServiceRouteRules m)))"
proof -
  define hs where "hs = (case otm_HTTPServiceRouteRules m of None \<Rightarrow> gmap_empty | Some xs \<Rightarrow> Some xs)"
  have hs: "entries hs = entries (otm_HTTPServiceRouteRules m)"
    by (cases "otm_HTTPServiceRouteRules m") (simp_all add: hs_def)
  show "otm_HTTPHostPort2Service (fst (newHTTPServiceRouteRules n m)) = otm_HTTPHostPort2Service m"
    unfolding newHTTPServiceRouteRules_def Let_def hs_def [symmetric] by (cases "gmap_get hs n") simp_all
  show "set (entries (otm_HTTPServiceRouteRules (fst (newHTTPServiceRouteRules n m)))) \<subseteq>
     insert (n, []) (set (entries (otm_HTTPServiceRouteRules m)))"
    unfolding newHTTPServiceRouteRules_def Let_def hs_def [symmetric]
    using set_entries_put [of hs n "[]"] by (cases "gmap_get hs n") (auto simp: hs)
qed

text \<open>Replacing the rules of a name leaves only that name's entry and the old entries of others.\<close>

lemma entries_put_other:
  assumes "gmap_wf m" and "(k', v') \<in> set (entries (gmap_put m k v))"
  shows "(k' = k \<and> v' = v) \<or> (k' \<noteq> k \<and> (k', v') \<in> set (entries m))"
proof -
  have "gmap_get (gmap_put m k v) k' = Some v'" using assms by (intro gmap_in_get) auto
  then show ?thesis by (auto split: if_splits dest: gmap_get_in)
qed

lemma newHTTPServiceRouteRules_wf:
  "gmap_wf (otm_HTTPServiceRouteRules m) \<Longrightarrow> gmap_wf (otm_HTTPServiceRouteRules (fst (newHTTPServiceRouteRules n m)))"
  by (cases "otm_HTTPServiceRouteRules m")
    (auto simp: newHTTPServiceRouteRules_def Let_def split: option.split)

text \<open>The invariant of the loop: routable matches whose rule maps have no duplicate names.\<close>

definition match_inv :: "OutboundTrafficMatch \<Rightarrow> bool" where
  "match_inv m \<longleftrightarrow> routable m \<and> gmap_wf (otm_HTTPServiceRouteRules m)"

lemma match_inv_simps [simp]:
  "match_inv OutboundTrafficMatch_zero"
  "match_inv (setPort p m) = match_inv m" "match_inv (setProtocol q m) = match_inv m"
  "match_inv (newTCPServiceRouteRules m) = match_inv m" "match_inv (tcp_addWeightedCluster c w m) = match_inv m"
  by (auto simp: match_inv_def OutboundTrafficMatch_zero_def setPort_def setProtocol_def newTCPServiceRouteRules_def
      tcp_addWeightedCluster_def routable_def Let_def split: option.split)

lemma add_http_config_inv:
  assumes "add_http_config cfg (m, d) = Returns (m', d')" and "match_inv m" and "wild_config cfg"
  shows "match_inv m'"
proof -
  let ?n = "otp_Name cfg"
  define m1 where "m1 = add_hosts ?n (otp_Hostnames cfg) (fst (newHTTPServiceRouteRules ?n m))"
  obtain ws where ws: "otp_Routes cfg = [\<lparr>rwc_HTTPRouteMatch = WildCardRouteMatch, rwc_WeightedClusters = ws\<rparr>]" "ws \<noteq> []"
    using assms(3) by (auto simp: wild_config_def)
  have step: "add_route ?n \<lparr>rwc_HTTPRouteMatch = WildCardRouteMatch, rwc_WeightedClusters = ws\<rparr> (m1, d) = Returns (m', d')"
    using assms(1) by (auto simp: add_http_config_unfold ws m1_def outcome_bind_Returns)
  have rules1: "otm_HTTPServiceRouteRules m1 = otm_HTTPServiceRouteRules (fst (newHTTPServiceRouteRules ?n m))"
    by (simp add: m1_def add_hosts_other)
  have wf1: "gmap_wf (otm_HTTPServiceRouteRules m1)"
    using assms(2) by (simp add: rules1 match_inv_def newHTTPServiceRouteRules_wf)
  have ent1: "set (entries (otm_HTTPServiceRouteRules m1)) \<subseteq> insert (?n, []) (set (entries (otm_HTTPServiceRouteRules m)))"
    by (simp add: rules1 newHTTPServiceRouteRules_other)
  have old: "catch_all rules" if "(n, rules) \<in> set (entries (otm_HTTPServiceRouteRules m))" for n rules
    using that assms(2) by (auto simp: match_inv_def routable_def)
  have "rules = [] \<or> catch_all rules" if "gmap_get (otm_HTTPServiceRouteRules m1) ?n = Some rules" for rules
    using gmap_get_in [OF that] ent1 old by blast
  with add_route_catch_all [OF step ws(2)] obtain rules where
    rules: "catch_all rules" and m': "m' = m1\<lparr>otm_HTTPServiceRouteRules := gmap_put (otm_HTTPServiceRouteRules m1) ?n rules\<rparr>"
    by blast
  have all: "catch_all rs" if "(n, rs) \<in> set (entries (otm_HTTPServiceRouteRules m'))" for n rs
    using that entries_put_other [OF wf1, of n rs ?n rules] ent1 old rules by (auto simp: m')
  have hosts: "gmap_get (otm_HTTPServiceRouteRules m') n \<noteq> None" if "(h, n) \<in> set (entries (otm_HTTPHostPort2Service m'))" for h n
  proof -
    have "(h, n) \<in> set (entries (otm_HTTPHostPort2Service m)) \<or> n = ?n"
      using that add_hosts_other(2) [of ?n "otp_Hostnames cfg" "fst (newHTTPServiceRouteRules ?n m)"]
      by (auto simp: m' m1_def newHTTPServiceRouteRules_other)
    then have "gmap_get (otm_HTTPServiceRouteRules m) n \<noteq> None \<or> n = ?n"
      using assms(2) by (auto simp: match_inv_def routable_def)
    then show ?thesis by (auto simp: m' rules1 newHTTPServiceRouteRules_get)
  qed
  have "gmap_wf (otm_HTTPServiceRouteRules m')" using wf1 by (simp add: m')
  with all hosts show ?thesis unfolding match_inv_def routable_def by blast
qed

section \<open>The whole translation\<close>

lemma fold_add_tcp_cluster_inv: "match_inv (fst (fold add_tcp_cluster cs s)) = match_inv (fst s)"
  by (induction cs arbitrary: s) (simp_all add: add_tcp_cluster_def)

lemma configs_wild:
  "wild_policy pol \<Longrightarrow> cfg \<in> set (getOutboundHTTPRouteConfigs (omtp_HTTPRouteConfigsPerPort pol) p n ws) \<Longrightarrow> wild_config cfg"
  by (cases "gmap_get (omtp_HTTPRouteConfigsPerPort pol) p") (auto simp: wild_policy_def getOutboundHTTPRouteConfigs_def)

lemma fill_match_inv:
  assumes "fill_match pol tm s = Returns t" and "wild_policy pol" and "match_inv (fst s)"
  shows "match_inv (fst t)"
proof -
  have "match_inv (fst t)"
    if "outcome_fold add_http_config (getOutboundHTTPRouteConfigs (omtp_HTTPRouteConfigsPerPort pol) p n ws) s = Returns t" for p n ws
    using that assms(3)
  proof (rule outcome_fold_invariant)
    fix cfg u v
    assume "cfg \<in> set (getOutboundHTTPRouteConfigs (omtp_HTTPRouteConfigsPerPort pol) p n ws)"
      and inv: "match_inv (fst u)" and step: "add_http_config cfg u = Returns v"
    then have "wild_config cfg" using configs_wild [OF assms(2)] by blast
    with add_http_config_inv [of cfg "fst u" "snd u" "fst v" "snd v"] inv step show "match_inv (fst v)" by simp
  qed
  with assms(1,3) show ?thesis
    by (auto simp: fill_match_def Let_def fold_add_tcp_cluster_inv split: if_splits option.splits)
qed

definition store_inv :: "PipyOutbound \<Rightarrow> bool" where
  "store_inv otp \<longleftrightarrow> (\<forall>m \<in> set (po_store otp). match_inv m)"

lemma store_inv_update: "store_inv otp \<Longrightarrow> match_inv (f (po_store otp ! l)) \<Longrightarrow> store_inv (update_match l f otp)"
  using set_update_subset_insert [of "po_store otp" l] by (fastforce simp: store_inv_def update_match_def)

lemma newTrafficMatch_inv:
  "store_inv otp \<Longrightarrow> newTrafficMatch otp port name = (otp', l, b) \<Longrightarrow> store_inv otp'"
  by (auto simp: newTrafficMatch_def store_inv_def Let_def split: option.splits)

lemma route_step_inv:
  assumes "route_step pol tm (otp, d) = Returns (otp', d')" and "wild_policy pol" and "outbound_ok otp" and "store_inv otp"
  shows "store_inv otp'"
proof -
  let ?port = "word_of_int (tmt_DestinationPort tm)"
  let ?f = "setPort ?port \<circ> setProtocol (to_lower (tmt_DestinationProtocol tm))"
  obtain otp1 l b where new: "newTrafficMatch otp ?port (match_name tm) = (otp1, l, b)" by (metis prod_cases3)
  define otp2 where "otp2 = (if b then otp1 else update_match l ?f otp1)"
  obtain m where m: "fill_match pol tm (po_store otp2 ! l, d) = Returns (m, d')" "otp' = update_match l (\<lambda>_. m) otp2"
    using assms(1) by (auto simp: route_step_def new otp2_def outcome_bind_Returns Let_def)
  have inv1: "store_inv otp1" by (rule newTrafficMatch_inv [OF assms(4) new])
  have l: "l < length (po_store otp1)" by (rule newTrafficMatch_location [OF assms(3) new])
  with inv1 have "match_inv (po_store otp1 ! l)" by (simp add: store_inv_def)
  then have inv2: "store_inv otp2" using inv1 store_inv_update [where f = ?f] by (simp add: otp2_def)
  have "l < length (po_store otp2)" using l by (simp add: otp2_def update_match_def)
  with inv2 have "match_inv (po_store otp2 ! l)" by (simp add: store_inv_def)
  with fill_match_inv [OF m(1) assms(2)] have "match_inv m" by simp
  then show ?thesis unfolding m(2) by (rule store_inv_update [OF inv2])
qed

lemma route_loop_inv:
  assumes "outcome_fold (route_step pol) tms (PipyOutbound_zero, gmap_empty) = Returns (otp, d)" and "wild_policy pol"
  shows "store_inv otp"
proof -
  have "outbound_ok (fst (otp, d)) \<and> store_inv (fst (otp, d))"
    using assms(1)
  proof (rule outcome_fold_invariant)
    fix tm s t
    assume inv: "outbound_ok (fst s) \<and> store_inv (fst s)" and step: "route_step pol tm s = Returns t"
    have "outbound_grows s t" by (rule route_step_grows [OF step])
    with inv have "outbound_ok (fst t)" by (cases s; cases t) (simp add: store_grows_def)
    moreover have "store_inv (fst t)"
      using route_step_inv [OF _ assms(2), of tm "fst s" "snd s" "fst t" "snd t"] inv step by simp
    ultimately show "outbound_ok (fst t) \<and> store_inv (fst t)" by blast
  next
    have "store_inv PipyOutbound_zero" by (simp add: store_inv_def PipyOutbound_zero_def)
    then show "outbound_ok (fst (PipyOutbound_zero, gmap_empty)) \<and> store_inv (fst (PipyOutbound_zero, gmap_empty))" by simp
  qed
  then show ?thesis by simp
qed

text \<open>The catalog's policy has wildcard routes only.\<close>

lemma catalog_policy_wild: "wild_policy (GetOutboundMeshTrafficPolicy td mc)"
  unfolding wild_policy_def
proof (intro allI impI)
  fix port ps
  assume "gmap_get (omtp_HTTPRouteConfigsPerPort (GetOutboundMeshTrafficPolicy td mc)) port = Some ps"
  then have "ps = http_policies_of_port td mc port (ListOutboundServices mc)"
    by (auto simp: GetOutboundMeshTrafficPolicy_eq get_fold_add_http_policy Let_def split: if_splits)
  then show "\<forall>cfg \<in> set ps. wild_config cfg"
    by (auto simp: http_policies_of_port_def wild_config_def wildcard_policy_def)
qed

lemma match_inv_host:
  assumes "match_inv m" and "gmap_get (otm_HTTPHostPort2Service m) h = Some n"
  shows "\<exists>rules. gmap_get (otm_HTTPServiceRouteRules m) n = Some rules \<and> catch_all rules"
proof -
  obtain rules where rules: "gmap_get (otm_HTTPServiceRouteRules m) n = Some rules"
    using assms gmap_get_in [OF assms(2)] by (auto simp: match_inv_def routable_def)
  with assms(1) gmap_get_in [OF rules] show ?thesis by (auto simp: match_inv_def routable_def)
qed

lemma match_inv_single: "match_inv m \<Longrightarrow> single_rules m"
  by (fastforce simp: match_inv_def routable_def single_rules_def catch_all_def)

end
