(* ===== verification/Jobs.thy ===== *)
theory Jobs
  imports HostRouting
begin

text \<open>
  \<open>pkg/ecnet/bridge/ctrlplane/server/jobs.go\<close>: the steps of \<open>PipyConfGeneratorJob.Run\<close> that build the
  outbound configuration from the mesh catalog. The result of \<^term>\<open>outbound\<close> also says whether
  the job asked for another run (\<open>s.retryProxiesJob()\<close>).
\<close>

section \<open>Definitions\<close>

record outbound_result =
  or_conf :: PipyConf
  or_ready :: bool
  or_retried :: bool

definition set_dns_resolve_db :: "OutboundMeshTrafficPolicy \<Rightarrow> PipyConf \<Rightarrow> PipyConf" where
  "set_dns_resolve_db outboundTrafficPolicy pipyConf =
     (if 0 < length (entries (omtp_ServicesResolvableSet outboundTrafficPolicy))
      then pipyConf\<lparr>pc_DNSResolveDB := omtp_ServicesResolvableSet outboundTrafficPolicy\<rparr> else pipyConf)"

definition outbound_endpoints ::
  "MeshCatalog \<Rightarrow> OutboundMeshTrafficPolicy \<Rightarrow> bool \<Rightarrow> PipyConf \<times> depend_clusters \<Rightarrow> outbound_result" where
  "outbound_endpoints cataloger outboundTrafficPolicy has_retryProxiesJob s =
     (let (pipyConf, outboundDependClusters) = s in
      if 0 < length (entries outboundDependClusters)
      then let (pipyConf, ready) = generatePipyOutboundTrafficBalancePolicy cataloger pipyConf
                 outboundTrafficPolicy outboundDependClusters
           in \<lparr>or_conf = pipyConf, or_ready = ready, or_retried = \<not> ready \<and> has_retryProxiesJob\<rparr>
      else \<lparr>or_conf = pipyConf, or_ready = True, or_retried = False\<rparr>)"

definition outbound :: "string \<Rightarrow> MeshCatalog \<Rightarrow> bool \<Rightarrow> PipyConf \<Rightarrow> outbound_result outcome" where
  "outbound trustDomain cataloger has_retryProxiesJob pipyConf =
     (let outboundTrafficPolicy = GetOutboundMeshTrafficPolicy trustDomain cataloger
      in outcome_bind
           (generatePipyOutboundTrafficRoutePolicy (set_dns_resolve_db outboundTrafficPolicy pipyConf) outboundTrafficPolicy)
           (\<lambda>s. Returns (outbound_endpoints cataloger outboundTrafficPolicy has_retryProxiesJob s)))"

definition balance :: "PipyConf \<Rightarrow> PipyConf" where
  "balance pipyConf = rebalancedOutboundClusters pipyConf"

section \<open>The two translations composed\<close>

lemma entries_Nil_dep_keys: "dep_keys d = {} \<longleftrightarrow> entries d = []"
proof
  assume "dep_keys d = {}"
  then have "gmap_get d k = None" for k by (auto simp: dep_keys_def)
  then have "k \<notin> fst ` set (entries d)" for k by (simp add: gmap_get_None)
  then show "entries d = []" by (cases "entries d") auto
qed (simp add: dep_keys_def entries_Nil_get)

lemma routes_of_new_conf:
  assumes "generatePipyOutboundTrafficRoutePolicy conf pol = Returns (conf', d)" and "pc_Outbound conf = None"
  shows "(omtp_TrafficMatches pol = [] \<and> conf' = conf \<and> d = None) \<or>
    (\<exists>otp. conf' = conf\<lparr>pc_Outbound := Some otp\<rparr> \<and>
       outcome_fold (route_step pol) (omtp_TrafficMatches pol) (PipyOutbound_zero, gmap_empty) = Returns (otp, d))"
  using assms
  by (auto simp: generatePipyOutboundTrafficRoutePolicy_def newOutboundTrafficPolicy_def outcome_bind_Returns
      split: if_splits)

lemma route_step_configs:
  "route_step pol tm (otp, d) = Returns (otp', d') \<Longrightarrow> po_ClustersConfigs otp' = po_ClustersConfigs otp"
  by (auto simp: route_step_def newTrafficMatch_def update_match_def outcome_bind_Returns Let_def
      split: option.splits prod.splits if_splits)

lemma route_loop_configs:
  "outcome_fold (route_step pol) tms (otp, d) = Returns (otp', d') \<Longrightarrow> po_ClustersConfigs otp' = po_ClustersConfigs otp"
proof (induction tms arbitrary: otp d)
  case (Cons tm tms)
  then obtain otp1 d1 where "route_step pol tm (otp, d) = Returns (otp1, d1)"
    and "outcome_fold (route_step pol) tms (otp1, d1) = Returns (otp', d')" by (auto simp: outcome_bind_Returns)
  with Cons.IH [of otp1 d1] show ?case by (simp add: route_step_configs)
qed simp

lemma outbound_store_cong:
  "po_store otp = po_store otp' \<Longrightarrow> po_namedTrafficMatches otp = po_namedTrafficMatches otp' \<Longrightarrow>
     po_TrafficMatches otp = po_TrafficMatches otp' \<Longrightarrow>
     outbound_ok otp = outbound_ok otp' \<and> outbound_clusters otp = outbound_clusters otp' \<and>
     published cfg port otp = published cfg port otp'"
  by (simp add: outbound_ok_def listed_def outbound_clusters_def published_def)

lemma dep_entries:
  assumes "dep_wf d"
  shows "distinct (map wc_ClusterName (map snd (entries d)))"
    and "wc_ClusterName ` set (map snd (entries d)) = dep_keys d"
proof -
  have names: "map wc_ClusterName (map snd (entries d)) = map fst (entries d)"
    using assms by (auto simp: dep_wf_def)
  show "distinct (map wc_ClusterName (map snd (entries d)))"
    unfolding names using assms by (simp add: dep_wf_def gmap_wf_def)
  have "dep_keys d = fst ` set (entries d)"
    using gmap_get_None [of d] by (auto simp: dep_keys_def)
  then show "wc_ClusterName ` set (map snd (entries d)) = dep_keys d"
    using arg_cong [OF names, of set] by (simp add: image_image)
qed

text \<open>What the endpoint translation does to an outbound policy without cluster configs: the
  traffic matches stay, every dependent cluster with a config gets its endpoints, and the
  result is ready when no dependent cluster lacks a config or endpoints.\<close>

definition endpoints_added ::
  "MeshCatalog \<Rightarrow> OutboundMeshTrafficPolicy \<Rightarrow> depend_clusters \<Rightarrow> PipyOutbound \<Rightarrow> PipyOutbound \<Rightarrow> bool \<Rightarrow> bool" where
  "endpoints_added mc pol d otp otp' ready \<longleftrightarrow>
     po_store otp' = po_store otp \<and> po_namedTrafficMatches otp' = po_namedTrafficMatches otp \<and>
     po_TrafficMatches otp' = po_TrafficMatches otp \<and>
     (ready \<longleftrightarrow> (\<forall>c \<in> dep_keys d. cluster_ready mc pol c)) \<and>
     (\<forall>c \<in> dep_keys d. gmap_get (po_ClustersConfigs otp') c =
        map_option (\<lambda>cc. upstream_config mc cc c) (getMeshClusterConfigs (omtp_ClustersConfigs pol) c))"

lemma outbound_endpoints_fresh:
  assumes "dep_wf d" and "pc_Outbound conf = Some otp" and "po_ClustersConfigs otp = None"
  shows "\<exists>otp'. pc_Outbound (or_conf (outbound_endpoints mc pol b (conf, d))) = Some otp' \<and>
     endpoints_added mc pol d otp otp' (or_ready (outbound_endpoints mc pol b (conf, d)))"
proof -
  let ?s = "fold (balance_step mc pol) (map snd (entries d)) (otp, True)"
  note dep = dep_entries [OF assms(1)]
  have r: "pc_Outbound (or_conf (outbound_endpoints mc pol b (conf, d))) = Some (fst ?s)"
      "or_ready (outbound_endpoints mc pol b (conf, d)) = snd ?s"
    using assms(2)
    by (simp_all add: outbound_endpoints_def generatePipyOutboundTrafficBalancePolicy_def newOutboundTrafficPolicy_def
        case_prod_beta Let_def)
  have none: "\<forall>c \<in> set (map snd (entries d)). gmap_get (po_ClustersConfigs otp) (wc_ClusterName c) = None"
    by (simp add: assms(3))
  have "endpoints_added mc pol d otp (fst ?s) (snd ?s)"
    unfolding endpoints_added_def fold_balance_step_get [OF dep(1) none]
    by (simp add: fold_balance_step_other dep(2) flip: dep(2))
  with r show ?thesis by simp
qed

text \<open>What one run over a fresh configuration leaves behind.\<close>

lemma outbound_fresh:
  fixes td :: string and mc :: MeshCatalog
  defines "pol \<equiv> GetOutboundMeshTrafficPolicy td mc"
  assumes run: "outbound td mc b conf = Returns r" and "pc_Outbound conf = None" and "omtp_TrafficMatches pol \<noteq> []"
  obtains otp otp' d where "pc_Outbound (or_conf r) = Some otp'"
    and "outcome_fold (route_step pol) (omtp_TrafficMatches pol) (PipyOutbound_zero, gmap_empty) = Returns (otp, d)"
    and "endpoints_added mc pol d otp otp' (or_ready r)"
proof -
  obtain conf2 d where gen: "generatePipyOutboundTrafficRoutePolicy (set_dns_resolve_db pol conf) pol = Returns (conf2, d)"
    and r: "r = outbound_endpoints mc pol b (conf2, d)"
    using run by (auto simp: outbound_def pol_def [symmetric] outcome_bind_Returns Let_def)
  have "pc_Outbound (set_dns_resolve_db pol conf) = None" using assms(3) by (simp add: set_dns_resolve_db_def)
  from routes_of_new_conf [OF gen this] assms(4) obtain otp where
    conf2: "pc_Outbound conf2 = Some otp" and
    loop: "outcome_fold (route_step pol) (omtp_TrafficMatches pol) (PipyOutbound_zero, gmap_empty) = Returns (otp, d)"
    by auto
  have "po_ClustersConfigs otp = None" using route_loop_configs [OF loop] by (simp add: PipyOutbound_zero_def)
  with outbound_endpoints_fresh [OF route_loop_dep_wf [OF loop] conf2] loop that show ?thesis
    unfolding r by blast
qed

section \<open>Services of the catalog in the configuration\<close>

lemma http_protocol_not_tcp:
  "is_http_protocol (to_lower (ms_Protocol svc)) \<Longrightarrow> is_http svc"
proof -
  have "\<not> is_http_protocol (to_lower ProtocolTCP)" "\<not> is_http_protocol (to_lower ProtocolTCPServerFirst)"
    by (simp_all add: is_http_protocol_def protocol_defs to_lower_def lower_byte_def byte_def)
  then show "is_http_protocol (to_lower (ms_Protocol svc)) \<Longrightarrow> is_http svc"
    by (auto simp: is_http_def)
qed

lemma http_protocol_ok: "is_http_protocol (to_lower (ms_Protocol svc)) \<Longrightarrow> protocol_ok svc"
proof -
  assume http: "is_http_protocol (to_lower (ms_Protocol svc))"
  have "CHR ''_'' \<in> set (to_lower p)" if "CHR ''_'' \<in> set p" for p
  proof -
    have "lower_byte (CHR ''_'') = CHR ''_''" by (simp add: lower_byte_def byte_def)
    with that show ?thesis unfolding to_lower_def by (metis image_eqI list.set_map)
  qed
  moreover have "CHR ''_'' \<notin> set q \<and> q \<noteq> []" if "is_http_protocol q" for q
    using that by (auto simp: is_http_protocol_def protocol_defs)
  moreover have "to_lower p \<noteq> [] \<Longrightarrow> p \<noteq> []" for p by (auto simp: to_lower_def)
  ultimately show "protocol_ok svc" using http unfolding protocol_ok_def by blast
qed

lemma wildcard_in_configs:
  assumes "svc \<in> set (ListOutboundServices mc)" and "is_http svc"
  shows "wildcard_policy td mc svc \<in> set (getOutboundHTTPRouteConfigs
     (omtp_HTTPRouteConfigsPerPort (GetOutboundMeshTrafficPolicy td mc)) (uint (ms_Port svc)) (FQDN svc)
     (tmt_WeightedClusters (traffic_match mc svc)))"
proof -
  let ?ps = "http_policies_of_port td mc (uint (ms_Port svc)) (ListOutboundServices mc)"
  have "wildcard_policy td mc svc \<in> set ?ps" using assms by (auto simp: http_policies_of_port_def)
  moreover from this have "gmap_get (omtp_HTTPRouteConfigsPerPort (GetOutboundMeshTrafficPolicy td mc)) (uint (ms_Port svc)) = Some ?ps"
    by (auto simp: GetOutboundMeshTrafficPolicy_eq get_fold_add_http_policy Let_def)
  ultimately show ?thesis
    by (auto simp: getOutboundHTTPRouteConfigs_def arrayEqual_def cluster_equal_def wildcard_policy_def traffic_match_def)
qed

lemma outbound_published:
  assumes svc: "svc \<in> set (ListOutboundServices mc)" "names_ok svc" "is_http_protocol (to_lower (ms_Protocol svc))"
    and run: "outbound td mc b PipyConf_zero = Returns r"
  shows "\<exists>otp. pc_Outbound (or_conf r) = Some otp \<and> published (wildcard_policy td mc svc) (ms_Port svc) otp"
proof -
  let ?pol = "GetOutboundMeshTrafficPolicy td mc"
  have tm: "traffic_match mc svc \<in> set (omtp_TrafficMatches ?pol)" using svc(1) by (simp add: GetOutboundMeshTrafficPolicy_eq)
  then have matches: "omtp_TrafficMatches ?pol \<noteq> []" by auto
  have new: "pc_Outbound PipyConf_zero = None" by (simp add: PipyConf_zero_def)
  obtain otp otp' d where otp': "pc_Outbound (or_conf r) = Some otp'"
    and loop: "outcome_fold (route_step ?pol) (omtp_TrafficMatches ?pol) (PipyOutbound_zero, gmap_empty) = Returns (otp, d)"
    and added: "endpoints_added mc ?pol d otp otp' (or_ready r)"
    by (rule outbound_fresh [OF run new matches])
  have http: "is_http_protocol (to_lower (tmt_DestinationProtocol (traffic_match mc svc)))"
    using svc(3) by (simp add: traffic_match_def)
  have parsed: "trafficMatchToMeshSvc (traffic_match mc svc) = Some (match_part svc)"
    by (rule match_names.parse_fmt) (simp add: svc http_protocol_ok)
  have "wildcard_policy td mc svc \<in> set (getOutboundHTTPRouteConfigs (omtp_HTTPRouteConfigsPerPort ?pol)
      (uint (ms_TargetPort (match_part svc))) (FQDN (match_part svc)) (tmt_WeightedClusters (traffic_match mc svc)))"
    using wildcard_in_configs [OF svc(1) http_protocol_not_tcp [OF svc(3)]]
    by (simp add: match_part_def MeshService_zero_def FQDN_def)
  from route_loop_published [OF loop tm http parsed this]
  have "published (wildcard_policy td mc svc) (ms_Port svc) otp" by (simp add: traffic_match_def)
  then have "published (wildcard_policy td mc svc) (ms_Port svc) otp'"
    using added outbound_store_cong [of otp' otp] by (simp add: endpoints_added_def)
  with otp' show ?thesis by blast
qed

lemma route_step_returns: "trafficMatchToMeshSvc tm \<noteq> None \<Longrightarrow> \<exists>t. route_step pol tm s = Returns t"
proof -
  assume tm: "trafficMatchToMeshSvc tm \<noteq> None"
  obtain otp d where s: "s = (otp, d)" by fastforce
  obtain otp1 l e where new: "newTrafficMatch otp (word_of_int (tmt_DestinationPort tm)) (match_name tm) = (otp1, l, e)"
    by (metis prod_cases3)
  let ?otp2 = "if e then otp1 else update_match l (setPort (word_of_int (tmt_DestinationPort tm)) \<circ>
      setProtocol (to_lower (tmt_DestinationProtocol tm))) otp1"
  obtain m d' where "fill_match pol tm (po_store ?otp2 ! l, d) = Returns (m, d')"
    using fill_match_returns [OF tm, of pol] by fastforce
  then show "\<exists>t. route_step pol tm s = Returns t" by (simp add: route_step_def s new Let_def)
qed

lemma outbound_returns:
  assumes "\<forall>svc \<in> set (ListOutboundServices mc). names_ok svc \<and> protocol_ok svc"
  shows "\<exists>r. outbound td mc b conf = Returns r"
proof -
  let ?pol = "GetOutboundMeshTrafficPolicy td mc"
  have "\<exists>t. outcome_fold (route_step ?pol) (omtp_TrafficMatches ?pol) s = Returns t" for s
  proof (rule matches.loop_returns)
    fix tm s assume "tm \<in> set (omtp_TrafficMatches ?pol)"
    then obtain svc where "svc \<in> set (ListOutboundServices mc)" and tm: "tm = traffic_match mc svc"
      by (auto simp: GetOutboundMeshTrafficPolicy_eq)
    with assms have "trafficMatchToMeshSvc tm \<noteq> None" unfolding tm by (intro match_names.fmt_parsed) blast
    then show "\<exists>t. route_step ?pol tm s = Returns t" by (rule route_step_returns)
  qed
  moreover define c1 otp where "c1 = fst (newOutboundTrafficPolicy (set_dns_resolve_db ?pol conf))"
    and "otp = snd (newOutboundTrafficPolicy (set_dns_resolve_db ?pol conf))"
  ultimately obtain otp' d where "outcome_fold (route_step ?pol) (omtp_TrafficMatches ?pol) (otp, gmap_empty) = Returns (otp', d)"
    by (metis surj_pair)
  then have "\<exists>s. generatePipyOutboundTrafficRoutePolicy (set_dns_resolve_db ?pol conf) ?pol = Returns s"
    by (simp add: generatePipyOutboundTrafficRoutePolicy_def case_prod_beta otp_def)
  then show ?thesis by (auto simp: outbound_def outcome_bind_Returns Let_def)
qed

section \<open>Endpoints of a published configuration\<close>

lemma outbound_has_matches:
  assumes "outbound td mc b PipyConf_zero = Returns r" and "pc_Outbound (or_conf r) = Some otp"
  shows "omtp_TrafficMatches (GetOutboundMeshTrafficPolicy td mc) \<noteq> []"
proof
  assume "omtp_TrafficMatches (GetOutboundMeshTrafficPolicy td mc) = []"
  then have "pc_Outbound (or_conf r) = None"
    using assms(1) by (auto simp: outbound_def generatePipyOutboundTrafficRoutePolicy_def outbound_endpoints_def
        set_dns_resolve_db_def PipyConf_zero_def Let_def)
  with assms(2) show False by simp
qed

text \<open>The clusters of the configuration, each with the endpoints the catalog has for it.\<close>

lemma outbound_cluster_configs:
  fixes td :: string and mc :: MeshCatalog
  defines "pol \<equiv> GetOutboundMeshTrafficPolicy td mc"
  assumes run: "outbound td mc b PipyConf_zero = Returns r" and otp: "pc_Outbound (or_conf r) = Some otp'"
    and c: "c \<in> outbound_clusters otp'"
  shows "gmap_get (po_ClustersConfigs otp') c =
       map_option (\<lambda>cc. upstream_config mc cc c) (getMeshClusterConfigs (omtp_ClustersConfigs pol) c)"
    and "or_ready r \<Longrightarrow> cluster_ready mc pol c"
proof -
  have new: "pc_Outbound PipyConf_zero = None" by (simp add: PipyConf_zero_def)
  obtain otp otp'' d where "pc_Outbound (or_conf r) = Some otp''"
    and loop: "outcome_fold (route_step pol) (omtp_TrafficMatches pol) (PipyOutbound_zero, gmap_empty) = Returns (otp, d)"
    and "endpoints_added mc pol d otp otp'' (or_ready r)"
    unfolding pol_def by (rule outbound_fresh [OF run new outbound_has_matches [OF run otp]])
  with otp have added: "endpoints_added mc pol d otp otp' (or_ready r)" by simp
  have "outbound_clusters otp' = outbound_clusters otp"
    using added by (simp add: endpoints_added_def outbound_clusters_def)
  with c have "c \<in> dep_keys d" using route_loop(2) [OF loop] by simp
  with added show "gmap_get (po_ClustersConfigs otp') c =
       map_option (\<lambda>cc. upstream_config mc cc c) (getMeshClusterConfigs (omtp_ClustersConfigs pol) c)"
    and "or_ready r \<Longrightarrow> cluster_ready mc pol c" by (simp_all add: endpoints_added_def)
qed

lemma outbound_ready_endpoints:
  assumes "outbound td mc b PipyConf_zero = Returns r" and "pc_Outbound (or_conf r) = Some otp"
    and "or_ready r" and "c \<in> outbound_clusters otp"
  shows "\<exists>cc. gmap_get (po_ClustersConfigs otp) c = Some cc \<and> entries (cc_Endpoints cc) \<noteq> []"
proof -
  note configs = outbound_cluster_configs [OF assms(1,2,4)]
  obtain mcc where mcc: "getMeshClusterConfigs (omtp_ClustersConfigs (GetOutboundMeshTrafficPolicy td mc)) c = Some mcc"
    "getUpstreamEndpoints mc c \<noteq> []" using configs(2) [OF assms(3)] by (auto simp: cluster_ready_def)
  have "entries (cc_Endpoints (upstream_config mc mcc c)) \<noteq> []"
    using put_all_nonempty [OF mcc(2)] by (simp add: upstream_config_def)
  with configs(1) mcc(1) show ?thesis by simp
qed

text \<open>Conversely, when every published cluster lists an endpoint, the result is ready.\<close>

lemma outbound_ready_iff:
  assumes run: "outbound td mc b PipyConf_zero = Returns r"
  shows "or_ready r \<longleftrightarrow> (\<forall>otp c. pc_Outbound (or_conf r) = Some otp \<longrightarrow> c \<in> outbound_clusters otp \<longrightarrow>
     (\<exists>cc. gmap_get (po_ClustersConfigs otp) c = Some cc \<and> entries (cc_Endpoints cc) \<noteq> []))" (is "_ \<longleftrightarrow> ?listed")
proof (rule iffI)
  assume "or_ready r"
  then show ?listed by (intro allI impI outbound_ready_endpoints [OF run])
next
  let ?pol = "GetOutboundMeshTrafficPolicy td mc"
  assume listed: ?listed
  show "or_ready r"
  proof (cases "omtp_TrafficMatches ?pol = []")
    case True
    then have "generatePipyOutboundTrafficRoutePolicy conf ?pol = Returns (conf, None)" for conf
      by (simp add: generatePipyOutboundTrafficRoutePolicy_def)
    then show ?thesis using run by (auto simp: outbound_def outbound_endpoints_def Let_def)
  next
    case False
    have new: "pc_Outbound PipyConf_zero = None" by (simp add: PipyConf_zero_def)
    obtain otp otp' d where otp': "pc_Outbound (or_conf r) = Some otp'"
      and loop: "outcome_fold (route_step ?pol) (omtp_TrafficMatches ?pol) (PipyOutbound_zero, gmap_empty) = Returns (otp, d)"
      and added: "endpoints_added mc ?pol d otp otp' (or_ready r)"
      by (rule outbound_fresh [OF run new False])
    have clusters: "outbound_clusters otp' = dep_keys d"
      using added route_loop(2) [OF loop] by (simp add: endpoints_added_def outbound_clusters_def)
    have "cluster_ready mc ?pol c" if c: "c \<in> dep_keys d" for c
    proof -
      obtain cc where cc: "gmap_get (po_ClustersConfigs otp') c = Some cc" "entries (cc_Endpoints cc) \<noteq> []"
        using listed [rule_format, OF otp', unfolded clusters, OF c] by blast
      have "gmap_get (po_ClustersConfigs otp') c =
          map_option (\<lambda>cc. upstream_config mc cc c) (getMeshClusterConfigs (omtp_ClustersConfigs ?pol) c)"
        using added c by (simp add: endpoints_added_def)
      then obtain mcc where mcc: "getMeshClusterConfigs (omtp_ClustersConfigs ?pol) c = Some mcc" "cc = upstream_config mc mcc c"
        using cc(1) by (cases "getMeshClusterConfigs (omtp_ClustersConfigs ?pol) c") auto
      have "getUpstreamEndpoints mc c \<noteq> []"
      proof
        assume "getUpstreamEndpoints mc c = []"
        then have "entries (cc_Endpoints cc) = []" by (simp add: mcc(2) upstream_config_def)
        with cc(2) show False by simp
      qed
      with mcc(1) show ?thesis by (simp add: cluster_ready_def)
    qed
    with added show ?thesis by (simp add: endpoints_added_def)
  qed
qed

lemma outbound_lists_endpoint:
  assumes "outbound td mc b PipyConf_zero = Returns r" and "pc_Outbound (or_conf r) = Some otp"
    and "c \<in> outbound_clusters otp" and "e \<in> set (getUpstreamEndpoints mc c)"
    and "getMeshClusterConfigs (omtp_ClustersConfigs (GetOutboundMeshTrafficPolicy td mc)) c = Some mcc"
  shows "\<exists>cc w. gmap_get (po_ClustersConfigs otp) c = Some cc \<and> gmap_get (cc_Endpoints cc) (endpoint_key mcc e) = Some w"
proof -
  have "gmap_get (cc_Endpoints (upstream_config mc mcc c)) (endpoint_key mcc e) \<noteq> None"
    using assms(4) by (auto simp: upstream_config_def get_put_all_last filter_empty_conv split: list.split)
  with outbound_cluster_configs(1) [OF assms(1-3)] assms(5) show ?thesis by simp
qed

section \<open>Hostnames of a published configuration\<close>

lemma outbound_store_inv:
  assumes run: "outbound td mc b PipyConf_zero = Returns r" and "pc_Outbound (or_conf r) = Some otp"
  shows "store_inv otp"
proof -
  let ?pol = "GetOutboundMeshTrafficPolicy td mc"
  have new: "pc_Outbound PipyConf_zero = None" by (simp add: PipyConf_zero_def)
  obtain otp0 otp' d where "pc_Outbound (or_conf r) = Some otp'"
    and loop: "outcome_fold (route_step ?pol) (omtp_TrafficMatches ?pol) (PipyOutbound_zero, gmap_empty) = Returns (otp0, d)"
    and "endpoints_added mc ?pol d otp0 otp' (or_ready r)"
    by (rule outbound_fresh [OF run new outbound_has_matches [OF assms]])
  with assms(2) have "po_store otp = po_store otp0" by (simp add: endpoints_added_def)
  with route_loop_inv [OF loop catalog_policy_wild] show ?thesis by (simp add: store_inv_def)
qed

lemma balance_store:
  "pc_Outbound (balance conf) = map_option (\<lambda>otp. otp\<lparr>po_ClustersConfigs := gmap_map_values rebalance_cluster (po_ClustersConfigs otp)\<rparr>)
     (pc_Outbound conf)"
proof (cases "pc_Outbound conf")
  case None
  then show ?thesis by (simp add: balance_def rebalancedOutboundClusters_def)
next
  case (Some otp)
  then show ?thesis by (simp add: balance_def rebalance_clusters)
qed

text \<open>Balancing changes weights only.\<close>

definition lists_endpoint :: "PipyOutbound \<Rightarrow> string \<Rightarrow> bool" where
  "lists_endpoint otp c \<longleftrightarrow> (\<exists>cc. gmap_get (po_ClustersConfigs otp) c = Some cc \<and> entries (cc_Endpoints cc) \<noteq> [])"

lemma balance_lists:
  assumes "pc_Outbound conf = Some otp"
  shows "\<exists>otp'. pc_Outbound (balance conf) = Some otp' \<and> po_store otp' = po_store otp \<and> po_TrafficMatches otp' = po_TrafficMatches otp \<and>
     po_namedTrafficMatches otp' = po_namedTrafficMatches otp \<and> lists_endpoint otp' = lists_endpoint otp"
proof -
  let ?otp = "otp\<lparr>po_ClustersConfigs := gmap_map_values rebalance_cluster (po_ClustersConfigs otp)\<rparr>"
  have "lists_endpoint ?otp c = lists_endpoint otp c" for c
    by (cases "gmap_get (po_ClustersConfigs otp) c") (simp_all add: lists_endpoint_def rebalance_cluster_eq)
  with assms show ?thesis by (auto simp: balance_store)
qed

lemma balance_frame: "balance conf = conf\<lparr>pc_Outbound := pc_Outbound (balance conf)\<rparr>"
  by (cases "pc_Outbound conf") (simp_all add: balance_def rebalancedOutboundClusters_def Let_def)

lemma reorder_balanced:
  assumes "outbound td mc b PipyConf_zero = Returns r" and "pc_Outbound conf = pc_Outbound (or_conf r)"
  shows "reorder pdq (balance conf) = balance conf"
proof (rule reorder_single, intro allI impI)
  fix otp m
  assume "pc_Outbound (balance conf) = Some otp" and m: "m \<in> set (po_store otp)"
  then obtain otp0 where "pc_Outbound (or_conf r) = Some otp0" and "po_store otp = po_store otp0"
    using assms(2) by (auto simp: balance_store)
  with outbound_store_inv [OF assms(1)] m show "single_rules m" by (simp add: store_inv_def match_inv_single)
qed

lemma outbound_retried:
  assumes "outbound td mc b conf = Returns r"
  shows "or_retried r = (\<not> or_ready r \<and> b)"
proof -
  have "or_retried (outbound_endpoints mc pol b s) = (\<not> or_ready (outbound_endpoints mc pol b s) \<and> b)" for pol s
    by (simp add: outbound_endpoints_def Let_def split: prod.split)
  with assms show ?thesis by (auto simp: outbound_def outcome_bind_Returns Let_def)
qed

end
