(* ===== verification/RepoClient.thy ===== *)
theory RepoClient
  imports GoStrings
begin

text \<open>
  \<open>pkg/ecnet/pipy/repo/client\<close>: the REST client of the pipy repo, the server that hands configurations
  to the proxies. The HTTP exchange is a parameter: a function that takes the state of the server
  and a request, and gives a transport error or a response, and the next state. The client's
  methods are written over it, every early return and error of the source a branch.
\<close>

section \<open>Types\<close>

record Codebase =
  cb_Version :: string
  cb_Path :: string
  cb_Main :: string
  cb_Base :: string
  cb_Files :: "string list"
  cb_EditFiles :: "string list"
  cb_ErasedFiles :: "string list"
  cb_Derived :: "string list"

definition Codebase_zero :: Codebase where
  "Codebase_zero = \<lparr>cb_Version = [], cb_Path = [], cb_Main = [], cb_Base = [], cb_Files = [], cb_EditFiles = [],
     cb_ErasedFiles = [], cb_Derived = []\<rparr>"

record BatchItem =
  bi_Obsolete :: bool
  bi_Path :: string
  bi_Filename :: string
  bi_Content :: string

record Batch =
  b_Basepath :: string
  b_Items :: "BatchItem list"

datatype http_method = GET | POST | PATCH | DELETE

datatype http_body = NoBody | CodebaseBody Codebase | ContentBody string string

record http_request =
  rq_method :: http_method
  rq_uri :: string
  rq_body :: http_body

record http_response =
  rsp_StatusCode :: nat
  rsp_Result :: Codebase

type_synonym 's http_server = "'s \<Rightarrow> http_request \<Rightarrow> (string + http_response) \<times> 's"

text \<open>The errors of the client, by the place that makes them.\<close>

datatype repo_error =
    TransportError string
  | CreatingCodebase string nat
  | DerivingCodebase string string nat
  | UpsertingFile string nat
  | DeletingCodebase string nat
  | CommittingCodebase string nat
  | BadVersion num_error

section \<open>Addresses\<close>

definition relativeRepoPath :: string where "relativeRepoPath = ''repo''"

definition relativeRepoFilePath :: string where "relativeRepoFilePath = ''repo-files''"

definition relativeProgPath :: string where "relativeProgPath = ''program''"

record repoAPIURI =
  api_serverAddr :: string
  api_serverPort :: uint16
  api_schema :: string
  api_version :: string
  api_apiURI :: string
  api_progURI :: string
  api_repoURI :: string
  api_repoFilesURI :: string
  api_baseURI :: string

definition init_uri :: "repoAPIURI \<Rightarrow> repoAPIURI" where
  "init_uri api = api\<lparr>api_baseURI := api_schema api @ ''://'' @ api_serverAddr api @ '':'' @ fmt_word (api_serverPort api) @
     ''/'' @ api_apiURI api @ ''/'' @ api_version api\<rparr>"

definition newRepoAPIURI :: "string \<Rightarrow> uint16 \<Rightarrow> repoAPIURI" where
  "newRepoAPIURI serverAddr serverPort = init_uri
     \<lparr>api_serverAddr = serverAddr, api_serverPort = serverPort, api_schema = ''http'', api_version = ''v1'',
      api_apiURI = ''api'', api_progURI = relativeProgPath, api_repoURI = relativeRepoPath,
      api_repoFilesURI = relativeRepoFilePath, api_baseURI = []\<rparr>"

definition repo_uri :: "string \<Rightarrow> string" where
  "repo_uri codebaseName = relativeRepoPath @ ''/'' @ codebaseName"

definition file_uri :: "string \<Rightarrow> string" where
  "file_uri path = relativeRepoFilePath @ ''/'' @ path"

definition is_success :: "http_response \<Rightarrow> bool" where
  "is_success resp \<longleftrightarrow> 200 \<le> rsp_StatusCode resp \<and> rsp_StatusCode resp \<le> 299"

section \<open>Requests\<close>

definition get_codebase_at :: "'s http_server \<Rightarrow> string \<Rightarrow> 's \<Rightarrow> (bool \<times> Codebase option \<times> repo_error option) \<times> 's" where
  "get_codebase_at http uri s =
     (case http s \<lparr>rq_method = GET, rq_uri = uri, rq_body = NoBody\<rparr> of
        (Inl e, s') \<Rightarrow> ((False, None, Some (TransportError e)), s')
      | (Inr resp, s') \<Rightarrow> ((True, if rsp_StatusCode resp = 200 then Some (rsp_Result resp) else None, None), s'))"

definition isCodebaseExists :: "'s http_server \<Rightarrow> string \<Rightarrow> 's \<Rightarrow> (bool \<times> Codebase option \<times> repo_error option) \<times> 's" where
  "isCodebaseExists http codebaseName = get_codebase_at http (repo_uri codebaseName)"

definition GetCodebase :: "'s http_server \<Rightarrow> string \<Rightarrow> 's \<Rightarrow> (bool \<times> Codebase option \<times> repo_error option) \<times> 's" where
  "GetCodebase http codebaseName =
     get_codebase_at http (if length codebaseName > 1 then repo_uri codebaseName else relativeRepoPath @ ''/'')"

definition createCodebase ::
  "'s http_server \<Rightarrow> string \<Rightarrow> string \<Rightarrow> 's \<Rightarrow> (bool \<times> Codebase option \<times> repo_error option) \<times> 's" where
  "createCodebase http version codebaseName s =
     (case http s \<lparr>rq_method = POST, rq_uri = repo_uri codebaseName,
         rq_body = CodebaseBody (Codebase_zero\<lparr>cb_Version := version\<rparr>)\<rparr> of
        (Inl e, s') \<Rightarrow> ((False, None, Some (TransportError e)), s')
      | (Inr resp, s') \<Rightarrow>
          if rsp_StatusCode resp \<in> {200, 201} then GetCodebase http codebaseName s'
          else ((False, None, Some (CreatingCodebase codebaseName (rsp_StatusCode resp))), s'))"

definition deriveCodebase ::
  "'s http_server \<Rightarrow> string \<Rightarrow> string \<Rightarrow> uint64 \<Rightarrow> 's \<Rightarrow> (bool \<times> Codebase option \<times> repo_error option) \<times> 's" where
  "deriveCodebase http codebaseName base version s =
     (case http s \<lparr>rq_method = POST, rq_uri = repo_uri codebaseName,
         rq_body = CodebaseBody (Codebase_zero\<lparr>cb_Version := fmt_word version, cb_Base := base\<rparr>)\<rparr> of
        (Inl e, s') \<Rightarrow> ((False, None, Some (TransportError e)), s')
      | (Inr resp, s') \<Rightarrow>
          if rsp_StatusCode resp \<in> {200, 201} then GetCodebase http codebaseName s'
          else ((True, None, Some (DerivingCodebase codebaseName base (rsp_StatusCode resp))), s'))"

definition RunCodebase :: "'s http_server \<Rightarrow> string \<Rightarrow> 's \<Rightarrow> repo_error option \<times> 's" where
  "RunCodebase http codebaseName s =
     (case http s \<lparr>rq_method = POST, rq_uri = relativeProgPath, rq_body = ContentBody ''text/plain'' (''/'' @ codebaseName)\<rparr> of
        (Inl e, s') \<Rightarrow> (Some (TransportError e), s')
      | (Inr _, s') \<Rightarrow> (None, s'))"

text \<open>The three requests that succeed on any 2xx status.\<close>

definition send_checked ::
  "'s http_server \<Rightarrow> http_request \<Rightarrow> (nat \<Rightarrow> repo_error) \<Rightarrow> 's \<Rightarrow> (bool \<times> repo_error option) \<times> 's" where
  "send_checked http rq failure s =
     (case http s rq of
        (Inl e, s') \<Rightarrow> ((False, Some (TransportError e)), s')
      | (Inr resp, s') \<Rightarrow>
          ((if is_success resp then (True, None) else (False, Some (failure (rsp_StatusCode resp)))), s'))"

definition upsertFile :: "'s http_server \<Rightarrow> string \<Rightarrow> string \<Rightarrow> 's \<Rightarrow> (bool \<times> repo_error option) \<times> 's" where
  "upsertFile http path content =
     (let contentType = (if has_suffix path ''.json'' then ''application/json'' else ''text/plain'') in
      send_checked http \<lparr>rq_method = POST, rq_uri = file_uri path, rq_body = ContentBody contentType content\<rparr>
        (UpsertingFile path))"

definition Delete :: "'s http_server \<Rightarrow> string \<Rightarrow> 's \<Rightarrow> (bool \<times> repo_error option) \<times> 's" where
  "Delete http codebaseName =
     send_checked http \<lparr>rq_method = DELETE, rq_uri = repo_uri codebaseName, rq_body = NoBody\<rparr> (DeletingCodebase codebaseName)"

definition deleteFile :: "'s http_server \<Rightarrow> string \<Rightarrow> 's \<Rightarrow> (bool \<times> repo_error option) \<times> 's" where
  "deleteFile http fileName =
     send_checked http \<lparr>rq_method = DELETE, rq_uri = file_uri fileName, rq_body = NoBody\<rparr> (DeletingCodebase fileName)"

definition commit :: "'s http_server \<Rightarrow> string \<Rightarrow> string \<Rightarrow> 's \<Rightarrow> (bool \<times> repo_error option) \<times> 's" where
  "commit http codebaseName version s =
     (case parse_uint 64 version of
        (_, Some e) \<Rightarrow> ((False, Some (BadVersion e)), s)
      | (etag, None) \<Rightarrow>
          send_checked http \<lparr>rq_method = PATCH, rq_uri = repo_uri codebaseName,
              rq_body = CodebaseBody (Codebase_zero\<lparr>cb_Version := fmt_word (word_of_nat etag + 1 :: uint64)\<rparr>)\<rparr>
            (CommittingCodebase codebaseName) s)"

section \<open>Batches\<close>

text \<open>The inner loop over the items. \<open>Some\<close> is an early return of the whole method; a file that
  cannot be deleted is only logged.\<close>

fun batch_items :: "'s http_server \<Rightarrow> string \<Rightarrow> BatchItem list \<Rightarrow> 's \<Rightarrow> (bool \<times> repo_error option) option \<times> 's" where
  "batch_items http basepath [] s = (None, s)"
| "batch_items http basepath (item # items) s =
     (let fullPath = basepath @ bi_Path item @ ''/'' @ bi_Filename item in
      if bi_Obsolete item then batch_items http basepath items (snd (deleteFile http fullPath s))
      else
        let ((success, err), s') = upsertFile http fullPath (bi_Content item) s in
        if err \<noteq> None \<or> \<not> success then (Some (success, err), s') else batch_items http basepath items s')"

text \<open>Steps 2 and 3 for a codebase that is there.\<close>

definition batch_upload :: "'s http_server \<Rightarrow> Batch \<Rightarrow> string \<Rightarrow> 's \<Rightarrow> (bool \<times> repo_error option) \<times> 's" where
  "batch_upload http batch codebaseV s =
     (case batch_items http (b_Basepath batch) (b_Items batch) s of
        (Some r, s') \<Rightarrow> (r, s')
      | (None, s') \<Rightarrow> commit http (b_Basepath batch) codebaseV s')"

text \<open>One batch, with whether the method goes on to the next one.\<close>

definition batch_step :: "'s http_server \<Rightarrow> string \<Rightarrow> Batch \<Rightarrow> 's \<Rightarrow> bool \<times> (bool \<times> repo_error option) \<times> 's" where
  "batch_step http version batch s =
     (let ((success, codebase, err), s1) = isCodebaseExists http (b_Basepath batch) s in
      if err \<noteq> None then (False, (success, err), s1)
      else
        let ((success, codebase, err), s2) =
          (if codebase = None then createCodebase http version (b_Basepath batch) s1 else ((success, codebase, err), s1)) in
        case codebase of
          None \<Rightarrow> (False, (success, err), s2)
        | Some cb \<Rightarrow>
            if err \<noteq> None \<or> \<not> success then (False, (success, err), s2)
            else let ((success, err), s3) = batch_upload http batch (cb_Version cb) s2 in
              (err = None \<and> success, (success, err), s3))"

fun batch_loop :: "'s http_server \<Rightarrow> string \<Rightarrow> Batch list \<Rightarrow> bool \<times> repo_error option \<Rightarrow> 's \<Rightarrow> (bool \<times> repo_error option) \<times> 's" where
  "batch_loop http version [] r s = (r, s)"
| "batch_loop http version (batch # batches) r s =
     (let (continue, r', s') = batch_step http version batch s in
      if continue then batch_loop http version batches r' s' else (r', s'))"

definition BatchUpload :: "'s http_server \<Rightarrow> string \<Rightarrow> Batch list \<Rightarrow> 's \<Rightarrow> (bool \<times> repo_error option) \<times> 's" where
  "BatchUpload http version batches s =
     (if length batches = 0 then ((False, None), s) else batch_loop http version batches (False, None) s)"

text \<open>\<open>DeriveCodebase\<close> dereferences the codebase it just derived, which is nil when the server
  answers the read after the creation with another status than 200.\<close>

definition DeriveCodebase ::
  "'s http_server \<Rightarrow> string \<Rightarrow> string \<Rightarrow> uint64 \<Rightarrow> 's \<Rightarrow> ((bool \<times> repo_error option) \<times> 's) outcome" where
  "DeriveCodebase http codebaseName base version s =
     (let ((success, codebase, err), s1) = isCodebaseExists http codebaseName s in
      if err \<noteq> None \<or> codebase \<noteq> None then Returns ((success, err), s1)
      else
        let ((success, codebase, err), s2) = deriveCodebase http codebaseName base version s1 in
        if err \<noteq> None then Returns ((success, err), s2)
        else case codebase of None \<Rightarrow> Panics | Some cb \<Rightarrow> Returns (commit http codebaseName (cb_Version cb) s2))"

definition IsRepoUp :: "'s http_server \<Rightarrow> 's \<Rightarrow> (bool \<times> repo_error option) \<times> 's" where
  "IsRepoUp http s = (let ((success, _, err), s') = GetCodebase http ''/'' s in ((success, err), s'))"

section \<open>One batch\<close>

lemma BatchUpload_single: "BatchUpload http version [batch] s = snd (batch_step http version batch s)"
  by (simp add: BatchUpload_def case_prod_beta Let_def)

text \<open>The codebase a batch works on: the one that exists, or the one it creates.\<close>

definition batch_codebase ::
  "'s http_server \<Rightarrow> string \<Rightarrow> Batch \<Rightarrow> 's \<Rightarrow> (bool \<times> Codebase option \<times> repo_error option) \<times> 's" where
  "batch_codebase http version batch s =
     (case isCodebaseExists http (b_Basepath batch) s of
        ((_, None, None), s1) \<Rightarrow> createCodebase http version (b_Basepath batch) s1
      | r \<Rightarrow> r)"

lemma batch_step_eq:
  "snd (batch_step http version batch s) =
     (case batch_codebase http version batch s of
        ((True, Some cb, None), s2) \<Rightarrow> batch_upload http batch (cb_Version cb) s2
      | ((success, _, err), s2) \<Rightarrow> ((success, err), s2))"
  by (simp add: batch_step_def batch_codebase_def case_prod_beta Let_def split: option.split bool.split)

section \<open>Every request on the wire\<close>

text \<open>A server that also keeps the requests it got, oldest first.\<close>

definition recorded :: "'s http_server \<Rightarrow> (http_request list \<times> 's) http_server" where
  "recorded http ts rq = (let (r, s') = http (snd ts) rq in (r, (fst ts @ [rq], s')))"

definition item_request :: "string \<Rightarrow> BatchItem \<Rightarrow> http_request" where
  "item_request basepath item =
     (let fullPath = basepath @ bi_Path item @ ''/'' @ bi_Filename item in
      if bi_Obsolete item then \<lparr>rq_method = DELETE, rq_uri = file_uri fullPath, rq_body = NoBody\<rparr>
      else \<lparr>rq_method = POST, rq_uri = file_uri fullPath,
        rq_body = ContentBody (if has_suffix fullPath ''.json'' then ''application/json'' else ''text/plain'') (bi_Content item)\<rparr>)"

definition patches :: "http_request list \<Rightarrow> http_request list" where
  "patches tr = filter (\<lambda>rq. rq_method rq = PATCH) tr"

lemma patches_simps [simp]:
  "patches [] = []" "patches (xs @ ys) = patches xs @ patches ys"
  "patches (rq # rqs) = (if rq_method rq = PATCH then rq # patches rqs else patches rqs)"
  by (simp_all add: patches_def)

lemma send_checked_recorded:
  "fst (snd (send_checked (recorded http) rq f ts)) = fst ts @ [rq]"
  by (simp add: send_checked_def recorded_def case_prod_beta Let_def split: sum.split)

lemma get_codebase_at_recorded:
  "fst (snd (get_codebase_at (recorded http) uri ts)) = fst ts @ [\<lparr>rq_method = GET, rq_uri = uri, rq_body = NoBody\<rparr>]"
  by (simp add: get_codebase_at_def recorded_def case_prod_beta Let_def split: sum.split)

lemma createCodebase_recorded:
  "patches (fst (snd (createCodebase (recorded http) v n ts))) = patches (fst ts)"
proof (cases "fst (http (snd ts) \<lparr>rq_method = POST, rq_uri = repo_uri n, rq_body = CodebaseBody (Codebase_zero\<lparr>cb_Version := v\<rparr>)\<rparr>)")
  case (Inl e)
  then show ?thesis by (simp add: createCodebase_def recorded_def case_prod_beta Let_def)
next
  case (Inr resp)
  then show ?thesis
    by (simp add: createCodebase_def recorded_def [of http ts] case_prod_beta Let_def GetCodebase_def get_codebase_at_recorded)
qed

lemma batch_codebase_recorded:
  "patches (fst (snd (batch_codebase (recorded http) version batch ts))) = patches (fst ts)"
proof -
  obtain ok cb err t1 where ex: "isCodebaseExists (recorded http) (b_Basepath batch) ts = ((ok, cb, err), t1)" by (metis surj_pair)
  then have "patches (fst t1) = patches (fst ts)"
    using get_codebase_at_recorded [of http "repo_uri (b_Basepath batch)" ts] by (simp add: isCodebaseExists_def)
  with ex show ?thesis by (simp add: batch_codebase_def createCodebase_recorded split: option.split)
qed

lemma item_requests:
  "snd (deleteFile (recorded http) (basepath @ bi_Path item @ ''/'' @ bi_Filename item) ts) = ts' \<Longrightarrow> bi_Obsolete item \<Longrightarrow>
     fst ts' = fst ts @ [item_request basepath item]"
  "snd (upsertFile (recorded http) (basepath @ bi_Path item @ ''/'' @ bi_Filename item) (bi_Content item) ts) = ts' \<Longrightarrow>
     \<not> bi_Obsolete item \<Longrightarrow> fst ts' = fst ts @ [item_request basepath item]"
  by (auto simp: deleteFile_def upsertFile_def send_checked_recorded item_request_def Let_def)

lemma item_request_no_patch [simp]: "rq_method (item_request basepath item) \<noteq> PATCH"
  by (simp add: item_request_def Let_def)

lemma batch_items_recorded:
  assumes "batch_items (recorded http) basepath items ts = (r, ts')"
  shows "patches (fst ts') = patches (fst ts)"
    and "r = None \<Longrightarrow> fst ts' = fst ts @ map (item_request basepath) items"
proof -
  have "patches (fst ts') = patches (fst ts) \<and> (r = None \<longrightarrow> fst ts' = fst ts @ map (item_request basepath) items)"
    using assms
  proof (induction items arbitrary: ts)
    case (Cons item items)
    show ?case
    proof (cases "bi_Obsolete item")
      case True
      obtain t1 where t1: "snd (deleteFile (recorded http) (basepath @ bi_Path item @ ''/'' @ bi_Filename item) ts) = t1" by blast
      with True Cons.prems have "batch_items (recorded http) basepath items t1 = (r, ts')" by (simp add: Let_def)
      from Cons.IH [OF this] show ?thesis using item_requests(1) [OF t1 True] by simp
    next
      case False
      obtain ok err t1 where up: "upsertFile (recorded http) (basepath @ bi_Path item @ ''/'' @ bi_Filename item) (bi_Content item) ts = ((ok, err), t1)"
        by (metis surj_pair)
      then have t1: "fst t1 = fst ts @ [item_request basepath item]" using item_requests(2) [OF _ False, of http basepath ts t1] by simp
      show ?thesis
      proof (cases "err \<noteq> None \<or> \<not> ok")
        case True
        then have "r = Some (ok, err)" "ts' = t1" using Cons.prems False up by (auto simp: Let_def)
        then show ?thesis by (simp add: t1)
      next
        case ok: False
        then have "batch_items (recorded http) basepath items t1 = (r, ts')" using Cons.prems False up by (simp add: Let_def)
        from Cons.IH [OF this] t1 show ?thesis by simp
      qed
    qed
  qed simp
  then show "patches (fst ts') = patches (fst ts)"
    and "r = None \<Longrightarrow> fst ts' = fst ts @ map (item_request basepath) items" by simp_all
qed

lemma commit_recorded:
  "\<exists>v. fst (snd (commit (recorded http) n version ts)) \<in>
     {fst ts, fst ts @ [\<lparr>rq_method = PATCH, rq_uri = repo_uri n, rq_body = CodebaseBody (Codebase_zero\<lparr>cb_Version := v\<rparr>)\<rparr>]}"
  by (simp add: commit_def send_checked_recorded split: prod.split option.split) blast

text \<open>A batch makes at most one commit, and makes it last.\<close>

lemma batch_upload_recorded:
  assumes "batch_upload (recorded http) batch v ts = (r, ts')" and "patches (fst ts) = []" and "patches (fst ts') \<noteq> []"
  shows "\<exists>v'. fst ts' = fst ts @ map (item_request (b_Basepath batch)) (b_Items batch) @
     [\<lparr>rq_method = PATCH, rq_uri = repo_uri (b_Basepath batch), rq_body = CodebaseBody (Codebase_zero\<lparr>cb_Version := v'\<rparr>)\<rparr>]"
proof -
  obtain e t1 where items: "batch_items (recorded http) (b_Basepath batch) (b_Items batch) ts = (e, t1)" by (metis surj_pair)
  note log = batch_items_recorded [OF items]
  show ?thesis
  proof (cases e)
    case None
    then have "ts' = snd (commit (recorded http) (b_Basepath batch) v t1)" using assms(1) items by (simp add: batch_upload_def)
    with commit_recorded [of http "b_Basepath batch" v t1] assms(2,3) log None show ?thesis by auto
  next
    case (Some r')
    then have "ts' = t1" using assms(1) items by (simp add: batch_upload_def)
    with log assms(2,3) show ?thesis by simp
  qed
qed

text \<open>C29. A configuration takes effect only when it is complete: whatever the server answers, if a batch sends a
  commit at all, it sends a single one, as its last request, right after the requests for all of
  its files in their order.\<close>

theorem commit_follows_uploads:
  assumes "BatchUpload (recorded http) version [batch] ([], s) = (r, (tr, s'))" and "rq \<in> set tr" and "rq_method rq = PATCH"
  shows "\<exists>pre v. patches pre = [] \<and> tr = pre @ map (item_request (b_Basepath batch)) (b_Items batch) @
     [\<lparr>rq_method = PATCH, rq_uri = repo_uri (b_Basepath batch), rq_body = CodebaseBody (Codebase_zero\<lparr>cb_Version := v\<rparr>)\<rparr>]"
proof -
  have tr: "patches tr \<noteq> []" using assms(2,3) by (auto simp: patches_def filter_empty_conv)
  obtain ok cb err t2 where t2: "batch_codebase (recorded http) version batch ([], s) = ((ok, cb, err), t2)"
    by (metis surj_pair)
  then have p2: "patches (fst t2) = []" using batch_codebase_recorded [of http version batch "([], s)"] by simp
  have "\<exists>v. batch_upload (recorded http) batch v t2 = (r, (tr, s'))"
    using assms(1) t2 p2 tr by (auto simp: BatchUpload_single batch_step_eq split: option.splits bool.splits)
  then obtain v where "batch_upload (recorded http) batch v t2 = (r, (tr, s'))" ..
  from batch_upload_recorded [OF this p2] tr p2 show ?thesis by auto
qed

section \<open>A repo that serves codebases\<close>

text \<open>What the client relies on: the repo keeps a version for every codebase and a content for every file;
  reading a codebase gives its version and changes nothing, a codebase that is not there can be
  created, a codebase that is there gets the version of a commit, and files are stored and removed
  at once. The statuses are those of the pipy repo API. It is an ideal repo, one that is always reached and never runs out of space;
  what happens when requests fail is stated without the contract.\<close>

definition repo_contract :: "'s http_server \<Rightarrow> ('s \<Rightarrow> string \<Rightarrow> string option) \<Rightarrow> ('s \<Rightarrow> string \<Rightarrow> string option) \<Rightarrow> bool" where
  "repo_contract http ver file \<longleftrightarrow>
     (\<forall>s n. \<exists>resp. http s \<lparr>rq_method = GET, rq_uri = repo_uri n, rq_body = NoBody\<rparr> = (Inr resp, s) \<and>
        (case ver s n of None \<Rightarrow> rsp_StatusCode resp \<noteq> 200
         | Some v \<Rightarrow> rsp_StatusCode resp = 200 \<and> cb_Version (rsp_Result resp) = v)) \<and>
     (\<forall>s n cb. ver s n = None \<longrightarrow> (\<exists>resp s'.
        http s \<lparr>rq_method = POST, rq_uri = repo_uri n, rq_body = CodebaseBody cb\<rparr> = (Inr resp, s') \<and>
        rsp_StatusCode resp \<in> {200, 201} \<and> ver s' = (ver s)(n \<mapsto> cb_Version cb) \<and> file s' = file s)) \<and>
     (\<forall>s n cb v. ver s n = Some v \<longrightarrow> (\<exists>resp s'.
        http s \<lparr>rq_method = PATCH, rq_uri = repo_uri n, rq_body = CodebaseBody cb\<rparr> = (Inr resp, s') \<and>
        is_success resp \<and> ver s' = (ver s)(n \<mapsto> cb_Version cb) \<and> file s' = file s)) \<and>
     (\<forall>s p t c. \<exists>resp s'. http s \<lparr>rq_method = POST, rq_uri = file_uri p, rq_body = ContentBody t c\<rparr> = (Inr resp, s') \<and>
        is_success resp \<and> ver s' = ver s \<and> file s' = (file s)(p \<mapsto> c)) \<and>
     (\<forall>s p. \<exists>resp s'. http s \<lparr>rq_method = DELETE, rq_uri = file_uri p, rq_body = NoBody\<rparr> = (Inr resp, s') \<and>
        ver s' = ver s \<and> file s' = (file s)(p := None))"

lemma repo_contractD:
  assumes "repo_contract http ver file"
  shows repo_get: "\<exists>resp. http s \<lparr>rq_method = GET, rq_uri = repo_uri n, rq_body = NoBody\<rparr> = (Inr resp, s) \<and>
        (case ver s n of None \<Rightarrow> rsp_StatusCode resp \<noteq> 200
         | Some v \<Rightarrow> rsp_StatusCode resp = 200 \<and> cb_Version (rsp_Result resp) = v)"
    and repo_create: "ver s n = None \<Longrightarrow> \<exists>resp s'.
        http s \<lparr>rq_method = POST, rq_uri = repo_uri n, rq_body = CodebaseBody cb\<rparr> = (Inr resp, s') \<and>
        rsp_StatusCode resp \<in> {200, 201} \<and> ver s' = (ver s)(n \<mapsto> cb_Version cb) \<and> file s' = file s"
    and repo_commit: "ver s n = Some v \<Longrightarrow> \<exists>resp s'.
        http s \<lparr>rq_method = PATCH, rq_uri = repo_uri n, rq_body = CodebaseBody cb\<rparr> = (Inr resp, s') \<and>
        is_success resp \<and> ver s' = (ver s)(n \<mapsto> cb_Version cb) \<and> file s' = file s"
    and repo_upsert: "\<exists>resp s'. http s \<lparr>rq_method = POST, rq_uri = file_uri p, rq_body = ContentBody t c\<rparr> = (Inr resp, s') \<and>
        is_success resp \<and> ver s' = ver s \<and> file s' = (file s)(p \<mapsto> c)"
    and repo_delete: "\<exists>resp s'. http s \<lparr>rq_method = DELETE, rq_uri = file_uri p, rq_body = NoBody\<rparr> = (Inr resp, s') \<and>
        ver s' = ver s \<and> file s' = (file s)(p := None)"
  using assms unfolding repo_contract_def by blast+

lemma isCodebaseExists_contract:
  assumes "repo_contract http ver file"
  shows "\<exists>cb. isCodebaseExists http n s = ((True, cb, None), s) \<and> map_option cb_Version cb = ver s n"
  using repo_get [OF assms, of s n]
  by (auto simp: isCodebaseExists_def get_codebase_at_def split: option.splits)

lemma GetCodebase_contract:
  assumes "repo_contract http ver file" and "1 < length n"
  shows "\<exists>cb. GetCodebase http n s = ((True, cb, None), s) \<and> map_option cb_Version cb = ver s n"
  using isCodebaseExists_contract [OF assms(1), of n s] assms(2) by (simp add: isCodebaseExists_def GetCodebase_def)

lemma createCodebase_contract:
  assumes "repo_contract http ver file" and "1 < length n" and "ver s n = None"
  shows "\<exists>cb s'. createCodebase http version n s = ((True, Some cb, None), s') \<and> cb_Version cb = version \<and>
     ver s' = (ver s)(n \<mapsto> version) \<and> file s' = file s"
proof -
  obtain resp s' where resp: "http s \<lparr>rq_method = POST, rq_uri = repo_uri n,
        rq_body = CodebaseBody (Codebase_zero\<lparr>cb_Version := version\<rparr>)\<rparr> = (Inr resp, s')"
      "rsp_StatusCode resp \<in> {200, 201}" "ver s' = (ver s)(n \<mapsto> version)" "file s' = file s"
    using repo_create [OF assms(1) assms(3), of "Codebase_zero\<lparr>cb_Version := version\<rparr>"] by auto
  moreover obtain cb where "GetCodebase http n s' = ((True, cb, None), s')" "map_option cb_Version cb = ver s' n"
    using GetCodebase_contract [OF assms(1,2)] by blast
  ultimately show ?thesis by (auto simp: createCodebase_def)
qed

lemma deriveCodebase_contract:
  assumes "repo_contract http ver file" and "1 < length n" and "ver s n = None"
  shows "\<exists>cb s'. deriveCodebase http n base version s = ((True, Some cb, None), s') \<and> cb_Version cb = fmt_word version \<and>
     ver s' = (ver s)(n \<mapsto> fmt_word version) \<and> file s' = file s"
proof -
  let ?cb = "Codebase_zero\<lparr>cb_Version := fmt_word version, cb_Base := base\<rparr>"
  obtain resp s' where resp: "http s \<lparr>rq_method = POST, rq_uri = repo_uri n, rq_body = CodebaseBody ?cb\<rparr> = (Inr resp, s')"
      "rsp_StatusCode resp \<in> {200, 201}" "ver s' = (ver s)(n \<mapsto> fmt_word version)" "file s' = file s"
    using repo_create [OF assms(1) assms(3), of ?cb] by auto
  moreover obtain cb where "GetCodebase http n s' = ((True, cb, None), s')" "map_option cb_Version cb = ver s' n"
    using GetCodebase_contract [OF assms(1,2)] by blast
  ultimately show ?thesis by (auto simp: deriveCodebase_def)
qed

lemma parse_uint_fmt_word: "parse_uint 64 (fmt_word (w :: uint64)) = (unat w, None)"
  unfolding fmt_word_def by (rule parse_uint_itoa) (use unsigned_less [of w, where 'a = nat] in simp)

lemma commit_contract:
  assumes "repo_contract http ver file" and "ver s n \<noteq> None"
  shows "\<exists>s'. commit http n (fmt_word (w :: uint64)) s = ((True, None), s') \<and>
     ver s' = (ver s)(n \<mapsto> fmt_word (w + 1)) \<and> file s' = file s"
proof -
  let ?cb = "Codebase_zero\<lparr>cb_Version := fmt_word (w + 1)\<rparr>"
  obtain resp s' where "http s \<lparr>rq_method = PATCH, rq_uri = repo_uri n, rq_body = CodebaseBody ?cb\<rparr> = (Inr resp, s')"
      "is_success resp" "ver s' = (ver s)(n \<mapsto> fmt_word (w + 1))" "file s' = file s"
    using assms(2) repo_commit [OF assms(1), of s n _ ?cb] by auto
  then show ?thesis by (simp add: commit_def parse_uint_fmt_word send_checked_def)
qed

text \<open>The files of a batch, as an update of the stored ones.\<close>

definition item_path :: "string \<Rightarrow> BatchItem \<Rightarrow> string" where
  "item_path basepath item = basepath @ bi_Path item @ ''/'' @ bi_Filename item"

definition stored_items :: "string \<Rightarrow> BatchItem list \<Rightarrow> (string \<Rightarrow> string option) \<Rightarrow> string \<Rightarrow> string option" where
  "stored_items basepath = fold (\<lambda>item m. m(item_path basepath item := if bi_Obsolete item then None else Some (bi_Content item)))"

lemma batch_items_contract:
  assumes "repo_contract http ver file"
  shows "\<exists>s'. batch_items http basepath items s = (None, s') \<and> ver s' = ver s \<and> file s' = stored_items basepath items (file s)"
proof (induction items arbitrary: s)
  case Nil
  then show ?case by (simp add: stored_items_def)
next
  case (Cons item items)
  let ?p = "item_path basepath item"
  show ?case
  proof (cases "bi_Obsolete item")
    case True
    have "\<exists>r s1. deleteFile http ?p s = (r, s1) \<and> ver s1 = ver s \<and> file s1 = (file s)(?p := None)"
      using repo_delete [OF assms, of s ?p] by (auto simp: deleteFile_def send_checked_def)
    with True Cons.IH show ?thesis by (fastforce simp: stored_items_def item_path_def Let_def)
  next
    case False
    have "\<exists>s1. upsertFile http ?p (bi_Content item) s = ((True, None), s1) \<and> ver s1 = ver s \<and> file s1 = (file s)(?p \<mapsto> bi_Content item)"
      using repo_upsert [OF assms, of s ?p "if has_suffix ?p ''.json'' then ''application/json'' else ''text/plain''" "bi_Content item"]
      by (auto simp: upsertFile_def send_checked_def Let_def simp del: fun_upd_apply)
    with False Cons.IH show ?thesis by (fastforce simp: stored_items_def item_path_def Let_def)
  qed
qed

lemma batch_contract:
  assumes "repo_contract http ver file" and "1 < length (b_Basepath batch)"
    and v: "(case ver s (b_Basepath batch) of None \<Rightarrow> version | Some v \<Rightarrow> v) = fmt_word (w :: uint64)"
  shows "\<exists>s'. BatchUpload http version [batch] s = ((True, None), s') \<and>
     ver s' = (ver s)(b_Basepath batch \<mapsto> fmt_word (w + 1)) \<and>
     file s' = stored_items (b_Basepath batch) (b_Items batch) (file s)"
proof -
  let ?n = "b_Basepath batch"
  have "\<exists>cb s2. batch_codebase http version batch s = ((True, Some cb, None), s2) \<and> cb_Version cb = fmt_word w \<and>
      ver s2 = (ver s)(?n \<mapsto> fmt_word w) \<and> file s2 = file s"
    using isCodebaseExists_contract [OF assms(1), of ?n s] createCodebase_contract [OF assms(1,2), of s version] v
    by (cases "ver s ?n") (auto simp: batch_codebase_def fun_upd_idem)
  then obtain cb s2 where cb: "batch_codebase http version batch s = ((True, Some cb, None), s2)" "cb_Version cb = fmt_word w"
      "ver s2 = (ver s)(?n \<mapsto> fmt_word w)" "file s2 = file s" by blast
  obtain s3 where s3: "batch_items http ?n (b_Items batch) s2 = (None, s3)" "ver s3 = ver s2"
      "file s3 = stored_items ?n (b_Items batch) (file s2)" using batch_items_contract [OF assms(1)] by blast
  obtain s' where "commit http ?n (fmt_word w) s3 = ((True, None), s')" "ver s' = (ver s3)(?n \<mapsto> fmt_word (w + 1))" "file s' = file s3"
    using commit_contract [OF assms(1), of s3 ?n w] s3(2) cb(3) by auto
  with cb s3 show ?thesis by (simp add: BatchUpload_single batch_step_eq batch_upload_def)
qed

text \<open>A repo in memory that keeps the contract.\<close>

type_synonym memory_repo = "(string \<Rightarrow> string option) \<times> (string \<Rightarrow> string option)"

definition repo_answer :: "nat \<Rightarrow> string \<Rightarrow> string + http_response" where
  "repo_answer status version = Inr \<lparr>rsp_StatusCode = status, rsp_Result = Codebase_zero\<lparr>cb_Version := version\<rparr>\<rparr>"

definition memory_codebases :: "memory_repo \<Rightarrow> http_method \<Rightarrow> string \<Rightarrow> http_body \<Rightarrow> (string + http_response) \<times> memory_repo" where
  "memory_codebases s m n b =
     (case (m, b) of
        (GET, _) \<Rightarrow> ((case fst s n of None \<Rightarrow> repo_answer 404 [] | Some v \<Rightarrow> repo_answer 200 v), s)
      | (DELETE, _) \<Rightarrow> (repo_answer 204 [], ((fst s)(n := None), snd s))
      | (POST, CodebaseBody cb) \<Rightarrow> (repo_answer 201 [], ((fst s)(n \<mapsto> cb_Version cb), snd s))
      | (PATCH, CodebaseBody cb) \<Rightarrow> (repo_answer 200 (cb_Version cb), ((fst s)(n \<mapsto> cb_Version cb), snd s))
      | _ \<Rightarrow> (repo_answer 400 [], s))"

definition memory_files :: "memory_repo \<Rightarrow> http_method \<Rightarrow> string \<Rightarrow> http_body \<Rightarrow> (string + http_response) \<times> memory_repo" where
  "memory_files s m p b =
     (case (m, b) of
        (POST, ContentBody t c) \<Rightarrow> (repo_answer 201 [], (fst s, (snd s)(p \<mapsto> c)))
      | (DELETE, _) \<Rightarrow> (repo_answer 204 [], (fst s, (snd s)(p := None)))
      | _ \<Rightarrow> (repo_answer 400 [], s))"

definition memory_http :: "memory_repo http_server" where
  "memory_http s rq =
     (if has_prefix (rq_uri rq) ''repo/'' then memory_codebases s (rq_method rq) (drop 5 (rq_uri rq)) (rq_body rq)
      else memory_files s (rq_method rq) (drop 11 (rq_uri rq)) (rq_body rq))"

lemma memory_uri [simp]:
  "has_prefix (repo_uri n) ''repo/''" "\<not> has_prefix (file_uri p) ''repo/''"
  "drop 5 (repo_uri n) = n" "drop 11 (file_uri p) = p"
  by (simp_all add: repo_uri_def file_uri_def relativeRepoPath_def relativeRepoFilePath_def has_prefix_def)

lemma memory_contract: "repo_contract memory_http fst snd"
  unfolding repo_contract_def
  by (auto simp: memory_http_def memory_codebases_def memory_files_def repo_answer_def is_success_def split: option.split)

definition sample_batch :: Batch where
  "sample_batch = \<lparr>b_Basepath = ''ecnet/proxy'', b_Items = [\<lparr>bi_Obsolete = False, bi_Path = [], bi_Filename = ''config.json'', bi_Content = ''{}''\<rparr>]\<rparr>"

theorem commit_follows_uploads_witness:
  "\<exists>r tr s' pre v. BatchUpload (recorded memory_http) ''7'' [sample_batch] ([], (Map.empty, Map.empty)) = (r, (tr, s')) \<and>
     patches pre = [] \<and> tr = pre @ map (item_request (b_Basepath sample_batch)) (b_Items sample_batch) @
     [\<lparr>rq_method = PATCH, rq_uri = repo_uri (b_Basepath sample_batch), rq_body = CodebaseBody (Codebase_zero\<lparr>cb_Version := v\<rparr>)\<rparr>]"
proof -
  define x where "x = BatchUpload (recorded memory_http) ''7'' [sample_batch] ([], (Map.empty, Map.empty))"
  have "list_ex (\<lambda>rq. rq_method rq = PATCH) (fst (snd x))" unfolding x_def by code_simp
  then obtain rq where rq: "rq \<in> set (fst (snd x))" "rq_method rq = PATCH" by (auto simp: list_ex_iff)
  obtain r tr s' where x: "x = (r, (tr, s'))" by (metis surj_pair)
  with rq commit_follows_uploads [of memory_http "''7''" sample_batch "(Map.empty, Map.empty)" r tr s' rq]
  show ?thesis unfolding x_def by auto
qed

text \<open>A batch against a repo that keeps its contract stores its files and raises the version by one: the
  codebase ends one version after the one it had, or after the given one when the batch had to
  create it; the version wraps around at 64 bits.\<close>

theorem batch_stores_and_commits:
  assumes "repo_contract http ver file" and "1 < length (b_Basepath batch)"
    and "(case ver s (b_Basepath batch) of None \<Rightarrow> version | Some v \<Rightarrow> v) = fmt_word (w :: uint64)"
  shows "\<exists>s'. BatchUpload http version [batch] s = ((True, None), s') \<and>
     ver s' = (ver s)(b_Basepath batch \<mapsto> fmt_word (w + 1)) \<and>
     file s' = stored_items (b_Basepath batch) (b_Items batch) (file s)"
  by (rule batch_contract [OF assms])

theorem batch_stores_and_commits_witness:
  "\<exists>s' :: memory_repo. BatchUpload memory_http ''7'' [sample_batch] (Map.empty, Map.empty) = ((True, None), s') \<and>
     fst s' ''ecnet/proxy'' = Some ''8'' \<and> snd s' ''ecnet/proxy/config.json'' = Some ''{}''"
proof -
  have "(case Map.empty (b_Basepath sample_batch) of None \<Rightarrow> ''7'' | Some v \<Rightarrow> v) = fmt_word (7 :: uint64)"
    "1 < length (b_Basepath sample_batch)" "fmt_word (7 + 1 :: uint64) = ''8''"
    by (simp, code_simp)+
  with batch_stores_and_commits [OF memory_contract, where batch = sample_batch and s = "(Map.empty, Map.empty)" and
      version = "''7''" and w = 7]
  show ?thesis by (auto simp: sample_batch_def stored_items_def item_path_def)
qed

text \<open>Deriving a codebase panics in one case only: the codebase is not there, the server accepts its
  creation, and then answers the read of the new codebase with another status than 200.\<close>

theorem derive_panics_iff:
  "DeriveCodebase http n base version s = Panics \<longleftrightarrow>
     (\<exists>ok s1 s2 resp ok' s3. isCodebaseExists http n s = ((ok, None, None), s1) \<and>
        http s1 \<lparr>rq_method = POST, rq_uri = repo_uri n,
          rq_body = CodebaseBody (Codebase_zero\<lparr>cb_Version := fmt_word version, cb_Base := base\<rparr>)\<rparr> = (Inr resp, s2) \<and>
        rsp_StatusCode resp \<in> {200, 201} \<and> GetCodebase http n s2 = ((ok', None, None), s3))"
proof -
  obtain ok cb err s1 where ex: "isCodebaseExists http n s = ((ok, cb, err), s1)" by (metis surj_pair)
  obtain r s2 where post: "http s1 \<lparr>rq_method = POST, rq_uri = repo_uri n,
      rq_body = CodebaseBody (Codebase_zero\<lparr>cb_Version := fmt_word version, cb_Base := base\<rparr>)\<rparr> = (r, s2)" by (metis surj_pair)
  obtain ok' cb' err' s3 where get: "GetCodebase http n s2 = ((ok', cb', err'), s3)" by (metis surj_pair)
  show ?thesis
    using post get by (auto simp: DeriveCodebase_def ex deriveCodebase_def Let_def split: sum.splits option.splits if_splits)
qed

end
