(* ===== verification/PipyHash.thy ===== *)
theory PipyHash
  imports GoStrings
begin

unbundle bit_operations_syntax

text \<open>
  \<open>pkg/ecnet/pipy/util/hash.go\<close>: the 64-bit FNV-1 hash (\<open>hash/fnv\<close>'s \<open>New64\<close>), which the control plane
  uses to see whether a configuration changed. \<open>Write\<close> of the hash never returns an error, so
  \<open>Hash\<close> never falls back to the clock.
\<close>

definition fnv_offset64 :: uint64 where "fnv_offset64 = 14695981039346656037"

definition fnv_prime64 :: uint64 where "fnv_prime64 = 1099511628211"

definition fnv_step :: "char \<Rightarrow> uint64 \<Rightarrow> uint64" where
  "fnv_step c h = (h * fnv_prime64) XOR word_of_nat (byte c)"

definition HashFromString :: "string \<Rightarrow> uint64" where
  "HashFromString s = fold fnv_step s fnv_offset64"

definition Hash :: "string \<Rightarrow> uint64" where
  "Hash bytes = HashFromString bytes"

section \<open>Every single byte counts\<close>

lemma word_xor_cancel: "(a :: 'a :: len word) XOR b = c XOR b \<longleftrightarrow> a = c"
  by (metis xor.assoc xor_self_eq xor.right_neutral)

lemma word_xor_cancel_left: "(a :: 'a :: len word) XOR b = a XOR c \<longleftrightarrow> b = c"
  by (metis word_xor_cancel xor.commute)

text \<open>The prime is odd, hence a unit of the ring: multiplying by it loses nothing.\<close>

lemma fnv_prime64_unit: "fnv_prime64 * 14886173955864302971 = 1"
  by (simp add: fnv_prime64_def)

lemma fnv_step_inj: "fnv_step c h = fnv_step c h' \<longleftrightarrow> h = h'"
proof
  assume "fnv_step c h = fnv_step c h'"
  then have "h * fnv_prime64 = h' * fnv_prime64" by (simp add: fnv_step_def word_xor_cancel)
  then have "h * (fnv_prime64 * 14886173955864302971) = h' * (fnv_prime64 * 14886173955864302971)"
    by (simp only: mult.assoc [symmetric])
  then show "h = h'" by (simp only: fnv_prime64_unit mult_1_right)
qed simp

lemma byte_bound: "byte c < 256"
  unfolding byte_def by simp

lemma byte_inj: "byte c = byte d \<longleftrightarrow> c = d"
  unfolding byte_def by simp

lemma fnv_step_byte: "fnv_step c h = fnv_step d h \<longleftrightarrow> c = d"
proof -
  have "(word_of_nat (byte c) :: uint64) = word_of_nat (byte d) \<longleftrightarrow> byte c = byte d"
    using byte_bound [of c] byte_bound [of d] by (auto simp: word_of_nat_eq_iff take_bit_nat_eq_self)
  then show ?thesis by (simp add: fnv_step_def word_xor_cancel_left byte_inj)
qed

lemma fold_fnv_inj: "fold fnv_step s h = fold fnv_step s h' \<longleftrightarrow> h = h'"
  by (induction s arbitrary: h h') (simp_all add: fnv_step_inj)

text \<open>A configuration that differs in a single byte from the published one has another hash: the
  change is never overlooked.\<close>

theorem hash_sees_single_bytes: "Hash (before @ c # after) = Hash (before @ d # after) \<longleftrightarrow> c = d"
  by (simp add: Hash_def HashFromString_def fold_fnv_inj fnv_step_byte)

end
