(* ===== verification/ProxyJob.thy ===== *)
theory ProxyJob
  imports Jobs RepoClient PipyHash SampleCluster
begin

text \<open>
  The control plane server of \<open>pkg/ecnet/bridge/ctrlplane\<close>: the proxy it serves (\<open>proxy.go\<close>, \<open>registry\<close>), its
  construction and start (\<open>server/server.go\<close>), and the whole of \<open>PipyConfGeneratorJob.Run\<close> with the
  publication of the configuration (\<open>server/jobs.go\<close>). \<open>json.Marshal\<close> and \<open>json.MarshalIndent\<close> of a
  configuration, the clock, the HTTP exchange with the repo and \<open>wait.PollImmediate\<close> are parameters.
\<close>

section \<open>Proxies and the server\<close>

record Proxy =
  px_UUID :: string
  px_MeshConf :: "configurator_Client option"
  px_ETag :: uint64

definition GetName :: "Proxy \<Rightarrow> string" where
  "GetName p = px_UUID p"

definition JobName :: "Proxy \<Rightarrow> string" where
  "JobName p = ''pipyJob-'' @ GetName p"

text \<open>The registry holds the one proxy of the cluster; \<open>uuid\<close> is the identifier the library makes for it.\<close>

definition RegisterProxy :: "string \<Rightarrow> Proxy option \<Rightarrow> Proxy" where
  "RegisterProxy uuid cacheProxy =
     (case cacheProxy of None \<Rightarrow> \<lparr>px_UUID = uuid, px_MeshConf = None, px_ETag = 0\<rparr> | Some p \<Rightarrow> p)"

definition GetConnectedProxy :: "Proxy option \<Rightarrow> Proxy option" where
  "GetConnectedProxy cacheProxy = cacheProxy"

text \<open>\<open>srv_catalogCfg\<close> is the catalog's own configurator; the package variables of \<open>server.go\<close> are fields of
  the server, which is made once.\<close>

record Server =
  srv_catalog :: MeshCatalog
  srv_catalogCfg :: configurator_Client
  srv_ecnetNamespace :: string
  srv_cfg :: configurator_Client
  srv_ready :: bool
  srv_retryProxiesJob :: bool
  srv_cacheProxy :: "Proxy option"
  srv_repoClient :: repoAPIURI
  srv_ecnetCodebase :: string
  srv_ecnetProxyCodebase :: string
  srv_ecnetCodebaseRepo :: string

definition NewRepoServer :: "(string \<Rightarrow> string) \<Rightarrow> MeshCatalog \<Rightarrow> configurator_Client \<Rightarrow> Proxy option \<Rightarrow> string \<Rightarrow> configurator_Client \<Rightarrow> Server" where
  "NewRepoServer getenv meshCatalog catalogCfg proxyRegistry ecnetNamespace cfg =
     (let base = GetRepoServerCodebase getenv cfg;
          ecnetCodebase = (if 0 < length base then base @ ''/ecnet/base'' else ''ecnet/base'')
      in \<lparr>srv_catalog = meshCatalog, srv_catalogCfg = catalogCfg, srv_ecnetNamespace = ecnetNamespace, srv_cfg = cfg,
          srv_ready = False, srv_retryProxiesJob = False, srv_cacheProxy = proxyRegistry,
          srv_repoClient = newRepoAPIURI (GetRepoServerIPAddr getenv cfg) (ucast (GetProxyServerPort cfg)),
          srv_ecnetCodebase = ecnetCodebase,
          srv_ecnetProxyCodebase = (if 0 < length base then base @ ''/ecnet'' else ''ecnet''),
          srv_ecnetCodebaseRepo = ''/'' @ ecnetCodebase\<rparr>)"

definition Readiness :: "Server \<Rightarrow> bool" where
  "Readiness s = srv_ready s"

section \<open>Start\<close>

text \<open>The files of the base codebase; \<open>embedded\<close> gives the content of an embedded file.\<close>

definition EcnetCodebaseConfig :: string where "EcnetCodebaseConfig = ''config.json''"

definition EcnetCodebaseFiles :: "string list" where
  "EcnetCodebaseFiles =
     [''config.js'', ''connect-tcp.js'', ''connect-tls.js'', ''connect-upstream.js'', ''dns-main.js'', ''logging.js'',
      ''main.js'', ''metrics.js'', ''modules/inbound-http-default.js'', ''modules/inbound-http-load-balancing.js'',
      ''modules/inbound-http-routing.js'', ''modules/inbound-logging-http.js'', ''modules/inbound-main.js'',
      ''modules/inbound-metrics-http.js'', ''modules/inbound-tcp-default.js'', ''modules/inbound-tcp-load-balancing.js'',
      ''modules/inbound-tcp-routing.js'', ''modules/inbound-throttle-route.js'', ''modules/inbound-throttle-service.js'',
      ''modules/inbound-tls-termination.js'', ''modules/inbound-tracing-http.js'', ''modules/outbound-circuit-breaker.js'',
      ''modules/outbound-http-default.js'', ''modules/outbound-http-load-balancing.js'', ''modules/outbound-http-routing.js'',
      ''modules/outbound-logging-http.js'', ''modules/outbound-main.js'', ''modules/outbound-metrics-http.js'',
      ''modules/outbound-tcp-default.js'', ''modules/outbound-tcp-load-balancing.js'', ''modules/outbound-tcp-routing.js'',
      ''modules/outbound-tracing-http.js'', ''probes.js'', ''stats.js'', ''tracing.js'', ''utils.js'', EcnetCodebaseConfig]"

definition EcnetCodebaseItems :: "(string \<Rightarrow> string) \<Rightarrow> BatchItem list" where
  "EcnetCodebaseItems embedded =
     map (\<lambda>f. \<lparr>bi_Obsolete = False, bi_Path = [], bi_Filename = f, bi_Content = embedded f\<rparr>) EcnetCodebaseFiles"

text \<open>The error of a poll is its timeout or the error of the condition, which here is always nil.\<close>

type_synonym 's poller = "('s \<Rightarrow> bool \<times> 's) \<Rightarrow> 's \<Rightarrow> bool \<times> 's"

datatype start_error = UploadFailed repo_error | PollTimedOut

definition Start :: "'s poller \<Rightarrow> 's http_server \<Rightarrow> (string \<Rightarrow> string) \<Rightarrow> Server \<Rightarrow> 's \<Rightarrow> (start_error option \<times> Server) \<times> 's" where
  "Start pollImmediate http embedded srv s =
     (let (_, s1) = pollImmediate (\<lambda>s. let ((success, _), s') = IsRepoUp http s in (success, s')) s;
          ((_, err), s2) = BatchUpload http (fmt_word (0 :: uint64))
            [\<lparr>b_Basepath = srv_ecnetCodebase srv, b_Items = EcnetCodebaseItems embedded\<rparr>] s1
      in case err of
           Some e \<Rightarrow> ((Some (UploadFailed e), srv), s2)
         | None \<Rightarrow>
             let (ok, s3) = pollImmediate (\<lambda>s. let ((success, _, _), s') = GetCodebase http (srv_ecnetCodebase srv) s in (success, s')) s2
             in if \<not> ok then ((Some PollTimedOut, srv), s3) else ((None, srv\<lparr>srv_ready := True\<rparr>), s3))"

section \<open>The job\<close>

definition features :: "Server \<Rightarrow> Proxy \<Rightarrow> PipyConf \<Rightarrow> Proxy \<times> PipyConf" where
  "features s proxy pipyConf =
     (proxy\<lparr>px_MeshConf := Some (srv_catalogCfg s)\<rparr>,
      fst (setSidecarLogLevel pipyConf (sc_LogLevel (ecs_Sidecar (ec_Spec (GetEcnetConfig (srv_catalogCfg s)))))))"

definition plugin_step :: "Plugin sorter \<Rightarrow> Server \<Rightarrow> PipyConf \<Rightarrow> PipyConf \<times> string" where
  "plugin_step pdq s pipyConf = (setSidecarChain pdq (srv_cfg s) (pipyConf\<lparr>pc_Chains := None\<rparr>), [])"

text \<open>What the publication needs from outside the program.\<close>

record 's publisher =
  pb_marshal :: "PipyConf \<Rightarrow> string option"
  pb_marshalIndent :: "PipyConf \<Rightarrow> string"
  pb_now :: int
  pb_http :: "'s http_server"

definition proxy_codebase :: "Server \<Rightarrow> string" where
  "proxy_codebase srv = srv_ecnetProxyCodebase srv @ ''/proxy.bridge.ecnet''"

definition config_batch :: "string \<Rightarrow> string \<Rightarrow> Batch" where
  "config_batch proxyCodebase bytes = \<lparr>b_Basepath = proxyCodebase,
     b_Items = [\<lparr>bi_Obsolete = False, bi_Path = [], bi_Filename = EcnetCodebaseConfig, bi_Content = bytes\<rparr>]\<rparr>"

text \<open>The upload of a configuration with hash \<open>codebaseCurV\<close>.\<close>

definition upload_conf :: "'s publisher \<Rightarrow> Server \<Rightarrow> Proxy \<Rightarrow> PipyConf \<Rightarrow> uint64 \<Rightarrow> 's \<Rightarrow> ((Proxy \<times> PipyConf) \<times> 's) outcome" where
  "upload_conf pb srv proxy pipyConf codebaseCurV s =
     outcome_bind (DeriveCodebase (pb_http pb) (proxy_codebase srv) (srv_ecnetCodebaseRepo srv) (codebaseCurV - 2) s)
       (\<lambda>((success, err), s1).
          let (pipyConf, err, s2) =
            (if success then
               let pipyConf = pipyConf\<lparr>pc_Ts := Some (pb_now pb), pc_Version := Some (fmt_word codebaseCurV)\<rparr>;
                   ((_, err), s2) = BatchUpload (pb_http pb) (fmt_word (codebaseCurV - 1))
                     [config_batch (proxy_codebase srv) (pb_marshalIndent pb pipyConf)] s1
               in (pipyConf, err, s2)
             else (pipyConf, err, s1))
          in Returns (if err \<noteq> None then ((proxy, pipyConf), snd (Delete (pb_http pb) (proxy_codebase srv) s2))
               else ((proxy\<lparr>px_ETag := codebaseCurV\<rparr>, pipyConf), s2)))"

definition publishSidecarConf ::
  "'s publisher \<Rightarrow> Server \<Rightarrow> Proxy \<Rightarrow> PipyConf \<Rightarrow> string \<Rightarrow> 's \<Rightarrow> ((Proxy \<times> PipyConf) \<times> 's) outcome" where
  "publishSidecarConf pb srv proxy pipyConf pluginSetV s =
     (let pipyConf = pipyConf\<lparr>pc_Ts := None, pc_Version := None\<rparr> in
      case pb_marshal pb pipyConf of
        None \<Rightarrow> Returns ((proxy, pipyConf), s)
      | Some bytes \<Rightarrow>
          let codebaseCurV = Hash (bytes @ pluginSetV) in
          if codebaseCurV \<noteq> px_ETag proxy then upload_conf pb srv proxy pipyConf codebaseCurV s
          else Returns ((proxy, pipyConf), s))"

text \<open>\<open>Run\<close> also says whether the job asked for a retry. \<open>build_conf\<close> is its part before the publication.\<close>

record sorters =
  so_plugins :: "Plugin sorter"
  so_rules :: "OutboundHTTPRouteRule sorter"

definition build_conf :: "sorters \<Rightarrow> string \<Rightarrow> Server \<Rightarrow> Proxy \<Rightarrow> (Proxy \<times> PipyConf \<times> string \<times> bool) outcome" where
  "build_conf so trustDomain srv proxy =
     (let (proxy, pipyConf) = features srv proxy PipyConf_zero;
          (pipyConf, pluginSetV) = plugin_step (so_plugins so) srv pipyConf
      in outcome_bind (outbound trustDomain (srv_catalog srv) (srv_retryProxiesJob srv) pipyConf)
           (\<lambda>r. Returns (proxy, reorder (so_rules so) (balance (or_conf r)), pluginSetV, or_retried r)))"

definition Run :: "sorters \<Rightarrow> 's publisher \<Rightarrow> string \<Rightarrow> Server \<Rightarrow> Proxy option \<Rightarrow> 's \<Rightarrow> ((Proxy option \<times> bool) \<times> 's) outcome" where
  "Run so pb trustDomain srv job_proxy s =
     (case job_proxy of
        None \<Rightarrow> Returns ((None, False), s)
      | Some proxy \<Rightarrow>
          outcome_bind (build_conf so trustDomain srv proxy)
            (\<lambda>(proxy, pipyConf, pluginSetV, retried).
               outcome_bind (publishSidecarConf pb srv proxy pipyConf pluginSetV s)
                 (\<lambda>((proxy, _), s'). Returns ((Some proxy, retried), s'))))"

section \<open>Publication\<close>

lemma proxy_codebase_length [simp]: "1 < length (proxy_codebase srv)" "Suc 0 < length (proxy_codebase srv)"
  by (simp_all add: proxy_codebase_def)

lemma DeriveCodebase_contract:
  assumes "repo_contract http ver file" and "1 < length n"
  shows "\<exists>s'. DeriveCodebase http n base version s = Returns ((True, None), s') \<and> file s' = file s \<and>
     ver s' = (if ver s n = None then (ver s)(n \<mapsto> fmt_word (version + 1)) else ver s)"
proof -
  obtain cb where cb: "isCodebaseExists http n s = ((True, cb, None), s)" "map_option cb_Version cb = ver s n"
    using isCodebaseExists_contract [OF assms(1)] by blast
  show ?thesis
  proof (cases "ver s n")
    case (Some v)
    with cb show ?thesis by (auto simp: DeriveCodebase_def)
  next
    case None
    obtain c s1 where d: "deriveCodebase http n base version s = ((True, Some c, None), s1)" "cb_Version c = fmt_word version"
        "ver s1 = (ver s)(n \<mapsto> fmt_word version)" "file s1 = file s"
      using deriveCodebase_contract [OF assms None] by blast
    obtain s2 where "commit http n (fmt_word version) s1 = ((True, None), s2)"
        "ver s2 = (ver s1)(n \<mapsto> fmt_word (version + 1))" "file s2 = file s1"
      using commit_contract [OF assms(1), of s1 n version] d(3) by auto
    with None cb d show ?thesis by (auto simp: DeriveCodebase_def)
  qed
qed

definition stamped :: "'s publisher \<Rightarrow> uint64 \<Rightarrow> PipyConf \<Rightarrow> PipyConf" where
  "stamped pb v conf = conf\<lparr>pc_Ts := Some (pb_now pb), pc_Version := Some (fmt_word v)\<rparr>"

definition next_version :: "string option \<Rightarrow> uint64 \<Rightarrow> uint64 \<Rightarrow> string" where
  "next_version old w v = (if old = None then fmt_word v else fmt_word (w + 1))"

lemma upload_conf_contract:
  assumes "repo_contract (pb_http pb) ver file" and "ver s (proxy_codebase srv) \<in> {None, Some (fmt_word w)}"
  shows "\<exists>s'. upload_conf pb srv proxy conf v s = Returns ((proxy\<lparr>px_ETag := v\<rparr>, stamped pb v conf), s') \<and>
     ver s' (proxy_codebase srv) = Some (next_version (ver s (proxy_codebase srv)) w v) \<and>
     file s' (proxy_codebase srv @ ''/config.json'') = Some (pb_marshalIndent pb (stamped pb v conf))"
proof -
  let ?n = "proxy_codebase srv"
  define u where "u = (if ver s ?n = None then v - 1 else w)"
  obtain s1 where derive: "DeriveCodebase (pb_http pb) ?n (srv_ecnetCodebaseRepo srv) (v - 2) s = Returns ((True, None), s1)"
      "ver s1 = (if ver s ?n = None then (ver s)(?n \<mapsto> fmt_word (v - 2 + 1)) else ver s)"
    using DeriveCodebase_contract [OF assms(1) proxy_codebase_length(1)] by blast
  have "v - 2 + 1 = v - 1" by simp
  then have ver1: "ver s1 ?n = Some (fmt_word u)" using derive(2) assms(2) by (auto simp: u_def)
  let ?b = "config_batch ?n (pb_marshalIndent pb (stamped pb v conf))"
  have b: "b_Basepath ?b = ?n" by (simp add: config_batch_def)
  obtain s2 where "BatchUpload (pb_http pb) (fmt_word (v - 1)) [?b] s1 = ((True, None), s2)"
      "ver s2 = (ver s1)(?n \<mapsto> fmt_word (u + 1))" "file s2 = stored_items ?n (b_Items ?b) (file s1)"
    using batch_contract [OF assms(1), where batch = ?b and s = s1 and version = "fmt_word (v - 1)" and w = u] by (auto simp: b ver1)
  moreover have "next_version (ver s ?n) w v = fmt_word (u + 1)" by (simp add: next_version_def u_def)
  ultimately show ?thesis using derive(1)
    by (simp add: upload_conf_def stamped_def config_batch_def stored_items_def item_path_def EcnetCodebaseConfig_def)
qed

definition unstamped :: "PipyConf \<Rightarrow> PipyConf" where
  "unstamped conf = conf\<lparr>pc_Ts := None, pc_Version := None\<rparr>"

text \<open>C33. A changed configuration reaches the repo: on a repo that keeps its contract, the publication of a
  configuration whose hash differs from the proxy's tag stores it as \<open>config.json\<close> of the proxy's
  codebase, stamped with the time and the hash, remembers the hash as the new tag, and leaves the
  codebase at the version of the hash when it was new, one version further when it was there.\<close>

theorem publication_reaches_repo:
  assumes "repo_contract (pb_http pb) ver file" and "ver s (proxy_codebase srv) \<in> {None, Some (fmt_word (w :: uint64))}"
    and "pb_marshal pb (unstamped conf) = Some bytes" and "Hash (bytes @ pluginSetV) \<noteq> px_ETag proxy"
  shows "\<exists>s'. publishSidecarConf pb srv proxy conf pluginSetV s =
       Returns ((proxy\<lparr>px_ETag := Hash (bytes @ pluginSetV)\<rparr>, stamped pb (Hash (bytes @ pluginSetV)) (unstamped conf)), s') \<and>
     ver s' (proxy_codebase srv) = Some (if ver s (proxy_codebase srv) = None then fmt_word (Hash (bytes @ pluginSetV)) else fmt_word (w + 1)) \<and>
     file s' (proxy_codebase srv @ ''/config.json'') =
       Some (pb_marshalIndent pb (stamped pb (Hash (bytes @ pluginSetV)) (unstamped conf)))"
  using upload_conf_contract [OF assms(1,2), of proxy "unstamped conf" "Hash (bytes @ pluginSetV)"] assms(3,4)
  by (auto simp: publishSidecarConf_def unstamped_def next_version_def)

definition sample_publisher :: "'s http_server \<Rightarrow> 's publisher" where
  "sample_publisher http = \<lparr>pb_marshal = (\<lambda>conf. Some (pc_SidecarLogLevel conf)), pb_marshalIndent = pc_SidecarLogLevel,
     pb_now = 1700000000, pb_http = http\<rparr>"

definition sample_server :: Server where
  "sample_server = NewRepoServer (\<lambda>_. []) (NewMeshCatalog (sample_ic FailOverLbType)) sample_cfg None ''ecnet-system'' sample_cfg"

definition sample_proxy :: Proxy where
  "sample_proxy = RegisterProxy ''7d44'' None"

theorem publication_reaches_repo_witness:
  "\<exists>s' :: memory_repo. publishSidecarConf (sample_publisher memory_http) sample_server sample_proxy (PipyConf_zero\<lparr>pc_SidecarLogLevel := ''error''\<rparr>) []
       (Map.empty, Map.empty) =
     Returns ((sample_proxy\<lparr>px_ETag := Hash ''error''\<rparr>, stamped (sample_publisher memory_http) (Hash ''error'')
       (PipyConf_zero\<lparr>pc_SidecarLogLevel := ''error''\<rparr>)), s') \<and>
     fst s' ''ecnet/proxy.bridge.ecnet'' = Some (fmt_word (Hash ''error'')) \<and>
     snd s' ''ecnet/proxy.bridge.ecnet/config.json'' = Some ''error''"
proof -
  have http: "repo_contract (pb_http (sample_publisher memory_http)) fst snd"
    by (simp add: sample_publisher_def memory_contract)
  have code: "proxy_codebase sample_server = ''ecnet/proxy.bridge.ecnet''" by code_simp
  have hash: "Hash ''error'' \<noteq> px_ETag sample_proxy" by code_simp
  show ?thesis
    using publication_reaches_repo [OF http, where s = "(Map.empty, Map.empty)" and srv = sample_server and w = 0 and
        conf = "PipyConf_zero\<lparr>pc_SidecarLogLevel := ''error''\<rparr>" and bytes = "''error''" and pluginSetV = "[]" and proxy = sample_proxy] hash
    by (auto simp: code unstamped_def stamped_def PipyConf_zero_def sample_publisher_def)
qed

text \<open>C34. A failed publication is cleaned up and tried again: whatever the repo answers, when a publication
  leaves the proxy with another tag than the hash of the configuration, the last request sent deletes
  the proxy's codebase.\<close>

theorem failed_publication_is_cleaned_up:
  assumes "pb_http pb = recorded http"
    and "publishSidecarConf pb srv proxy conf pluginSetV ([], s) = Returns ((proxy', conf'), (tr, s'))" and "pb_marshal pb (unstamped conf) = Some bytes" and "px_ETag proxy' \<noteq> Hash (bytes @ pluginSetV)"
  shows "\<exists>pre. tr = pre @ [\<lparr>rq_method = DELETE, rq_uri = repo_uri (proxy_codebase srv), rq_body = NoBody\<rparr>] \<and> proxy' = proxy"
proof -
  define c v where "c = unstamped conf" and "v = Hash (bytes @ pluginSetV)"
  have "upload_conf pb srv proxy c v ([], s) = Returns ((proxy', conf'), (tr, s'))"
    using assms by (auto simp: publishSidecarConf_def unstamped_def c_def v_def Let_def split: if_splits)
  then obtain ts where "snd (Delete (recorded http) (proxy_codebase srv) ts) = (tr, s')" "proxy' = proxy"
    using assms(1,4) by (auto simp: upload_conf_def v_def [symmetric] outcome_bind_Returns Let_def split: if_splits prod.splits)
  with send_checked_recorded [of http _ _ ts] show ?thesis by (metis Delete_def fst_conv)
qed

text \<open>A repo that cannot be reached.\<close>

definition unreachable_http :: "memory_repo http_server" where
  "unreachable_http s rq = (Inl ''connection refused'', s)"

theorem failed_publication_is_cleaned_up_witness:
  "\<exists>proxy' conf' tr s' pre. publishSidecarConf (sample_publisher (recorded unreachable_http)) sample_server sample_proxy
       (PipyConf_zero\<lparr>pc_SidecarLogLevel := ''error''\<rparr>) [] ([], (Map.empty, Map.empty)) = Returns ((proxy', conf'), (tr, s')) \<and>
     tr = pre @ [\<lparr>rq_method = DELETE, rq_uri = ''repo/ecnet/proxy.bridge.ecnet'', rq_body = NoBody\<rparr>] \<and> proxy' = sample_proxy"
proof -
  let ?conf = "PipyConf_zero\<lparr>pc_SidecarLogLevel := ''error''\<rparr>"
  have "case publishSidecarConf (sample_publisher (recorded unreachable_http)) sample_server sample_proxy
       ?conf [] ([], (Map.empty, Map.empty)) of Panics \<Rightarrow> False | Returns r \<Rightarrow> px_ETag (fst (fst r)) \<noteq> Hash ''error''"
    by code_simp
  then obtain proxy' conf' tr s' where run: "publishSidecarConf (sample_publisher (recorded unreachable_http)) sample_server sample_proxy
       ?conf [] ([], (Map.empty, Map.empty)) = Returns ((proxy', conf'), (tr, s'))" and "px_ETag proxy' \<noteq> Hash (''error'' @ [])"
    by (auto split: outcome.splits)
  moreover have "pb_marshal (sample_publisher (recorded unreachable_http)) (unstamped ?conf) = Some ''error''"
    "repo_uri (proxy_codebase sample_server) = ''repo/ecnet/proxy.bridge.ecnet''" by code_simp+
  ultimately show ?thesis using failed_publication_is_cleaned_up [OF _ run, of unreachable_http] by (auto simp: sample_publisher_def)
qed

section \<open>The job as a whole\<close>

text \<open>The outbound policy does not depend on what the job set before it.\<close>

lemma generate_frame:
  assumes "pc_Outbound conf = None"
  shows "generatePipyOutboundTrafficRoutePolicy conf pol =
     outcome_bind (generatePipyOutboundTrafficRoutePolicy PipyConf_zero pol) (\<lambda>(c, d). Returns (conf\<lparr>pc_Outbound := pc_Outbound c\<rparr>, d))"
  using assms
  by (cases "outcome_fold (route_step pol) (omtp_TrafficMatches pol) (PipyOutbound_zero, gmap_empty)")
    (simp_all add: generatePipyOutboundTrafficRoutePolicy_def newOutboundTrafficPolicy_def PipyConf_zero_def case_prod_beta)

lemma outbound_endpoints_frame:
  "or_conf (outbound_endpoints mc pol b (conf\<lparr>pc_Outbound := x\<rparr>, d)) =
     conf\<lparr>pc_Outbound := pc_Outbound (or_conf (outbound_endpoints mc pol b (conf'\<lparr>pc_Outbound := x\<rparr>, d)))\<rparr>"
  "or_ready (outbound_endpoints mc pol b (conf\<lparr>pc_Outbound := x\<rparr>, d)) = or_ready (outbound_endpoints mc pol b (conf'\<lparr>pc_Outbound := x\<rparr>, d))"
  "or_retried (outbound_endpoints mc pol b (conf\<lparr>pc_Outbound := x\<rparr>, d)) = or_retried (outbound_endpoints mc pol b (conf'\<lparr>pc_Outbound := x\<rparr>, d))"
  by (simp_all add: outbound_endpoints_def generatePipyOutboundTrafficBalancePolicy_def newOutboundTrafficPolicy_def case_prod_beta Let_def)

lemma outbound_frame:
  assumes "pc_Outbound conf = None" and "pc_DNSResolveDB conf = None" and "outbound td mc b conf = Returns r"
  shows "\<exists>r0. outbound td mc b PipyConf_zero = Returns r0 \<and> or_ready r = or_ready r0 \<and> or_retried r = or_retried r0 \<and>
     or_conf r = conf\<lparr>pc_Outbound := pc_Outbound (or_conf r0),
       pc_DNSResolveDB := pc_DNSResolveDB (set_dns_resolve_db (GetOutboundMeshTrafficPolicy td mc) PipyConf_zero)\<rparr>"
proof -
  define pol where "pol = GetOutboundMeshTrafficPolicy td mc"
  let ?c = "set_dns_resolve_db pol conf" and ?z = "set_dns_resolve_db pol PipyConf_zero"
  have none: "pc_Outbound ?c = None" "pc_Outbound ?z = None"
    using assms(1) by (simp_all add: set_dns_resolve_db_def PipyConf_zero_def)
  obtain c d where gen: "generatePipyOutboundTrafficRoutePolicy PipyConf_zero pol = Returns (c, d)"
    and r: "r = outbound_endpoints mc pol b (?c\<lparr>pc_Outbound := pc_Outbound c\<rparr>, d)"
    using assms(3) by (auto simp: outbound_def pol_def [symmetric] generate_frame [OF none(1)] outcome_bind_Returns Let_def)
  define r0 where "r0 = outbound_endpoints mc pol b (?z\<lparr>pc_Outbound := pc_Outbound c\<rparr>, d)"
  have run: "outbound td mc b PipyConf_zero = Returns r0"
    by (simp add: outbound_def pol_def [symmetric] generate_frame [OF none(2)] gen r0_def Let_def)
  have ready: "or_ready r = or_ready r0" "or_retried r = or_retried r0"
    unfolding r r0_def by (rule outbound_endpoints_frame)+
  have "or_conf r = ?c\<lparr>pc_Outbound := pc_Outbound (or_conf r0)\<rparr>"
    unfolding r r0_def by (rule outbound_endpoints_frame)
  also have "?c\<lparr>pc_Outbound := pc_Outbound (or_conf r0)\<rparr> = conf\<lparr>pc_Outbound := pc_Outbound (or_conf r0), pc_DNSResolveDB := pc_DNSResolveDB ?z\<rparr>"
    using assms(2) by (simp add: set_dns_resolve_db_def PipyConf_zero_def)
  finally show ?thesis using run ready unfolding pol_def [symmetric] by blast
qed

lemma setSidecarLogLevel_zero: "fst (setSidecarLogLevel PipyConf_zero level) = PipyConf_zero\<lparr>pc_SidecarLogLevel := level\<rparr>"
proof -
  have "equal_fold [] level \<longleftrightarrow> level = []" by (auto simp: equal_fold_def to_lower_def)
  then show ?thesis by (simp add: setSidecarLogLevel_def PipyConf_zero_def Let_def)
qed

lemma build_conf_parts:
  assumes "build_conf so trustDomain srv proxy = Returns (proxy', conf, pluginSetV, retried)"
  shows "\<exists>r. outbound trustDomain (srv_catalog srv) (srv_retryProxiesJob srv) PipyConf_zero = Returns r \<and>
     conf = \<lparr>pc_Ts = None, pc_Version = None,
       pc_SidecarLogLevel = sc_LogLevel (ecs_Sidecar (ec_Spec (GetEcnetConfig (srv_catalogCfg srv)))),
       pc_Outbound = pc_Outbound (balance (or_conf r)),
       pc_Chains = pc_Chains (setSidecarChain (so_plugins so) (srv_cfg srv) PipyConf_zero),
       pc_DNSResolveDB = pc_DNSResolveDB (set_dns_resolve_db (GetOutboundMeshTrafficPolicy trustDomain (srv_catalog srv)) PipyConf_zero)\<rparr> \<and>
     retried = (\<not> or_ready r \<and> srv_retryProxiesJob srv) \<and> proxy' = proxy\<lparr>px_MeshConf := Some (srv_catalogCfg srv)\<rparr> \<and> pluginSetV = []"
proof -
  define c where "c = PipyConf_zero\<lparr>pc_SidecarLogLevel := sc_LogLevel (ecs_Sidecar (ec_Spec (GetEcnetConfig (srv_catalogCfg srv)))),
     pc_Chains := pc_Chains (setSidecarChain (so_plugins so) (srv_cfg srv) PipyConf_zero)\<rparr>"
  have c: "plugin_step (so_plugins so) srv (PipyConf_zero\<lparr>pc_SidecarLogLevel := sc_LogLevel (ecs_Sidecar (ec_Spec (GetEcnetConfig
      (srv_catalogCfg srv))))\<rparr>) = (c, [])" by (simp add: plugin_step_def setSidecarChain_def c_def PipyConf_zero_def)
  obtain r1 where r1: "outbound trustDomain (srv_catalog srv) (srv_retryProxiesJob srv) c = Returns r1"
    and conf: "conf = reorder (so_rules so) (balance (or_conf r1))" and retried: "retried = or_retried r1"
    and proxy: "proxy' = proxy\<lparr>px_MeshConf := Some (srv_catalogCfg srv)\<rparr>" "pluginSetV = []"
    using assms by (auto simp: build_conf_def features_def setSidecarLogLevel_zero c outcome_bind_Returns)
  have none: "pc_Outbound c = None" "pc_DNSResolveDB c = None" by (simp_all add: c_def PipyConf_zero_def)
  obtain r where r: "outbound trustDomain (srv_catalog srv) (srv_retryProxiesJob srv) PipyConf_zero = Returns r"
      "or_ready r1 = or_ready r"
      "or_conf r1 = c\<lparr>pc_Outbound := pc_Outbound (or_conf r),
        pc_DNSResolveDB := pc_DNSResolveDB (set_dns_resolve_db (GetOutboundMeshTrafficPolicy trustDomain (srv_catalog srv)) PipyConf_zero)\<rparr>"
    using outbound_frame [OF none r1] by blast
  have out: "pc_Outbound (or_conf r1) = pc_Outbound (or_conf r)" using r(3) by simp
  then have "conf = balance (or_conf r1)" using reorder_balanced [OF r(1)] conf by simp
  also have "... = (or_conf r1)\<lparr>pc_Outbound := pc_Outbound (balance (or_conf r))\<rparr>"
    using balance_frame [of "or_conf r1"] out by (simp add: balance_store)
  finally show ?thesis using r proxy retried outbound_retried [OF r1] by (simp add: c_def PipyConf_zero_def)
qed

lemma resolve_db_get:
  "gmap_get (pc_DNSResolveDB (set_dns_resolve_db pol PipyConf_zero)) name = gmap_get (omtp_ServicesResolvableSet pol) name"
  by (auto simp: set_dns_resolve_db_def PipyConf_zero_def entries_Nil_get)

text \<open>C35. What a job publishes, after balancing and sorting: the log level of the mesh configuration; for every name exactly the DNS entry of the last service of that
  name with an endpoint in another cluster; for every HTTP or gRPC service a traffic match under its port that knows
  all its hostnames and leads its FQDN to its cluster on all paths and methods. The job asks for another run exactly when a retry is installed and
  some cluster that a published route names has no endpoint in the published configuration. It keeps the proxy's tag.\<close>

theorem job_builds_configuration:
  assumes "build_conf so trustDomain srv proxy = Returns (proxy', conf, pluginSetV, retried)"
  shows "pc_SidecarLogLevel conf = sc_LogLevel (ecs_Sidecar (ec_Spec (GetEcnetConfig (srv_catalogCfg srv)))) \<and>
     gmap_get (pc_DNSResolveDB conf) name =
       (case filter (\<lambda>svc. dns_visible (srv_catalog srv) svc \<and> FQDN svc = name) (ListOutboundServices (srv_catalog srv)) of
          [] \<Rightarrow> None
        | svcs \<Rightarrow> Some (resolvable_ip_set (getDNSResolvableServiceEndpoints (srv_catalog srv) (last svcs)))) \<and>
     (svc \<in> set (ListOutboundServices (srv_catalog srv)) \<longrightarrow> names_ok svc \<longrightarrow> is_http_protocol (to_lower (ms_Protocol svc)) \<longrightarrow>
        (\<exists>otp l mr. pc_Outbound conf = Some otp \<and> l \<in> set (listed otp (ms_Port svc)) \<and> l < length (po_store otp) \<and>
           set (GetHostnamesForService trustDomain svc False) \<subseteq> hosts_of (po_store otp ! l) \<and>
           HTTPMatchRule_deep_equal (http_match WildCardRouteMatch) mr \<and>
           (FQDN svc, mr, ClusterName svc) \<in> routes_of (po_store otp ! l))) \<and>
     (retried \<longleftrightarrow> srv_retryProxiesJob srv \<and> (\<exists>otp c. pc_Outbound conf = Some otp \<and> c \<in> outbound_clusters otp \<and>
        \<not> (\<exists>cc. gmap_get (po_ClustersConfigs otp) c = Some cc \<and> entries (cc_Endpoints cc) \<noteq> []))) \<and>
     px_ETag proxy' = px_ETag proxy"
proof -
  let ?mc = "srv_catalog srv"
  obtain r where r: "outbound trustDomain ?mc (srv_retryProxiesJob srv) PipyConf_zero = Returns r"
    and out: "pc_Outbound conf = pc_Outbound (balance (or_conf r))"
    and dns: "pc_DNSResolveDB conf = pc_DNSResolveDB (set_dns_resolve_db (GetOutboundMeshTrafficPolicy trustDomain ?mc) PipyConf_zero)"
    and level: "pc_SidecarLogLevel conf = sc_LogLevel (ecs_Sidecar (ec_Spec (GetEcnetConfig (srv_catalogCfg srv))))"
    and retried: "retried = (\<not> or_ready r \<and> srv_retryProxiesJob srv)" and tag: "px_ETag proxy' = px_ETag proxy"
    using build_conf_parts [OF assms] by auto
  have routed: "\<exists>otp l mr. pc_Outbound conf = Some otp \<and> l \<in> set (listed otp (ms_Port svc)) \<and> l < length (po_store otp) \<and>
      set (GetHostnamesForService trustDomain svc False) \<subseteq> hosts_of (po_store otp ! l) \<and>
      HTTPMatchRule_deep_equal (http_match WildCardRouteMatch) mr \<and> (FQDN svc, mr, ClusterName svc) \<in> routes_of (po_store otp ! l)"
    if svc: "svc \<in> set (ListOutboundServices ?mc)" "names_ok svc" "is_http_protocol (to_lower (ms_Protocol svc))"
  proof -
    obtain otp where otp: "pc_Outbound (or_conf r) = Some otp" "published (wildcard_policy trustDomain ?mc svc) (ms_Port svc) otp"
      using outbound_published [OF svc r] by blast
    obtain otp' where otp': "pc_Outbound conf = Some otp'" and same: "po_store otp' = po_store otp" "po_namedTrafficMatches otp' = po_namedTrafficMatches otp"
        "po_TrafficMatches otp' = po_TrafficMatches otp"
      using balance_lists [OF otp(1)] unfolding out by blast
    have "published (wildcard_policy trustDomain ?mc svc) (ms_Port svc) otp'"
      using otp(2) outbound_store_cong [OF same] by blast
    with otp' show ?thesis by (fastforce simp: published_def config_published_def wildcard_policy_def cluster_names_of_def)
  qed
  have "or_ready r \<longleftrightarrow> (\<forall>otp c. pc_Outbound conf = Some otp \<longrightarrow> c \<in> outbound_clusters otp \<longrightarrow> lists_endpoint otp c)"
  proof (cases "pc_Outbound (or_conf r)")
    case None
    then show ?thesis using outbound_ready_iff [OF r] by (simp add: out balance_store)
  next
    case (Some otp)
    obtain otp' where otp': "pc_Outbound conf = Some otp'" "po_store otp' = po_store otp" "lists_endpoint otp' = lists_endpoint otp"
      using balance_lists [OF Some] unfolding out by blast
    moreover have "outbound_clusters otp' = outbound_clusters otp" using otp'(2) by (simp add: outbound_clusters_def)
    moreover have "or_ready r \<longleftrightarrow> (\<forall>c \<in> outbound_clusters otp. lists_endpoint otp c)"
      using outbound_ready_iff [OF r] Some by (simp add: lists_endpoint_def Ball_def)
    ultimately show ?thesis by (simp add: Ball_def)
  qed
  then have "retried \<longleftrightarrow> srv_retryProxiesJob srv \<and> (\<exists>otp c. pc_Outbound conf = Some otp \<and> c \<in> outbound_clusters otp \<and>
      \<not> (\<exists>cc. gmap_get (po_ClustersConfigs otp) c = Some cc \<and> entries (cc_Endpoints cc) \<noteq> []))"
    unfolding retried lists_endpoint_def [symmetric] by blast
  moreover have "gmap_get (pc_DNSResolveDB conf) name =
     (case filter (\<lambda>svc. dns_visible ?mc svc \<and> FQDN svc = name) (ListOutboundServices ?mc) of
        [] \<Rightarrow> None | svcs \<Rightarrow> Some (resolvable_ip_set (getDNSResolvableServiceEndpoints ?mc (last svcs))))"
    unfolding dns resolve_db_get by (rule resolvable_entries)
  ultimately show ?thesis using level tag by (intro conjI impI routed)
qed

theorem job_builds_configuration_witness:
  "\<exists>proxy' conf otp l mr. build_conf \<lparr>so_plugins = (\<lambda>lt xs. xs), so_rules = (\<lambda>lt xs. xs)\<rparr> ''cluster.local'' sample_server sample_proxy =
       Returns (proxy', conf, [], False) \<and> pc_Outbound conf = Some otp \<and>
     (FQDN sample_imported_service, mr, ClusterName sample_imported_service) \<in> routes_of (po_store otp ! l)"
proof -
  let ?run = "build_conf \<lparr>so_plugins = (\<lambda>lt xs. xs), so_rules = (\<lambda>lt xs. xs)\<rparr> ''cluster.local'' sample_server sample_proxy"
  have "case ?run of Panics \<Rightarrow> False | Returns r \<Rightarrow> fst (snd (snd r)) = []" by code_simp
  then obtain proxy' conf retried where run: "?run = Returns (proxy', conf, [], retried)" by (auto split: outcome.splits)
  have retry: "srv_retryProxiesJob sample_server = False" by code_simp
  have "list_ex (\<lambda>s. s = sample_imported_service) (ListOutboundServices (srv_catalog sample_server))" by code_simp
  then have svc: "sample_imported_service \<in> set (ListOutboundServices (srv_catalog sample_server))" by (auto simp: list_ex_iff)
  have ok: "names_ok sample_imported_service" "is_http_protocol (to_lower (ms_Protocol sample_imported_service))" by code_simp+
  note job = job_builds_configuration [OF run, where svc = sample_imported_service and name = "[]"]
  have "\<not> retried" using job retry by (elim conjE) simp
  moreover have "\<exists>otp l mr. pc_Outbound conf = Some otp \<and> (FQDN sample_imported_service, mr, ClusterName sample_imported_service) \<in> routes_of (po_store otp ! l)"
    using mp [OF mp [OF mp [OF conjunct1 [OF conjunct2 [OF conjunct2 [OF job]]] svc] ok(1)] ok(2)] by blast
  ultimately show ?thesis using run by auto
qed

lemma publish_tag:
  assumes "repo_contract (pb_http pb) ver file" and "ver s (proxy_codebase srv) \<in> {None, Some (fmt_word (w :: uint64))}"
    and "pb_marshal pb (unstamped conf) = Some bytes"
    and "publishSidecarConf pb srv proxy conf pluginSetV s = Returns ((proxy', conf'), s')"
  shows "proxy' = proxy\<lparr>px_ETag := Hash (bytes @ pluginSetV)\<rparr>"
  using upload_conf_contract [OF assms(1,2), of proxy "unstamped conf" "Hash (bytes @ pluginSetV)"] assms(3,4)
  by (auto simp: publishSidecarConf_def unstamped_def Let_def split: if_splits)

lemma publish_unchanged:
  assumes "pb_marshal pb (unstamped conf) = Some bytes" and "px_ETag proxy = Hash (bytes @ pluginSetV)"
  shows "publishSidecarConf pb srv proxy conf pluginSetV s = Returns ((proxy, unstamped conf), s)"
  using assms by (simp add: publishSidecarConf_def unstamped_def Let_def)

text \<open>The proxy enters the built configuration nowhere.\<close>

lemma build_conf_proxy:
  assumes "build_conf so td srv proxy = Returns (proxy', conf, v, retried)"
  shows "build_conf so td srv proxy2 = Returns (proxy2\<lparr>px_MeshConf := Some (srv_catalogCfg srv)\<rparr>, conf, v, retried)"
    and "proxy' = proxy\<lparr>px_MeshConf := Some (srv_catalogCfg srv)\<rparr>"
  using assms by (auto simp: build_conf_def features_def outcome_bind_Returns Let_def split: prod.splits)

text \<open>C36. A configuration is published once: after a job published on a repo that keeps its contract, a later job, of whatever server and whenever
  it runs, whose configuration marshals to the same text sends no request at all, and leaves the repo and the proxy's tag as
  they are. The stamps of the first publication do not count. (Whether an unchanged cluster marshals to the same text depends on the order in
  which its objects are listed, which is not fixed.)\<close>

theorem same_configuration_sends_nothing:
  assumes "repo_contract (pb_http pb) ver file" and "ver s (proxy_codebase srv) \<in> {None, Some (fmt_word (w :: uint64))}"
    and "Run so pb trustDomain srv (Some proxy) s = Returns ((Some proxy', retried), s')"
    and "build_conf so trustDomain srv proxy = Returns (proxy1, conf1, v1, retried1)" and "pb_marshal pb (unstamped conf1) = Some bytes"
    and "build_conf so2 trustDomain2 srv2 proxy' = Returns (proxy2, conf2, v2, retried2)" and "pb_marshal pb2 (unstamped conf2) = Some bytes"
    and "pb_http pb2 = recorded http"
  shows "\<exists>proxy''. Run so2 pb2 trustDomain2 srv2 (Some proxy') (tr, t) = Returns ((Some proxy'', retried2), (tr, t)) \<and> px_ETag proxy'' = px_ETag proxy'"
proof -
  obtain conf' where pub: "publishSidecarConf pb srv proxy1 conf1 v1 s = Returns ((proxy', conf'), s')"
    using assms(3,4) by (auto simp: Run_def outcome_bind_Returns split: prod.splits)
  have v: "v1 = []" "v2 = []" using build_conf_parts [OF assms(4)] build_conf_parts [OF assms(6)] by blast+
  have tag: "px_ETag proxy2 = px_ETag proxy'" using build_conf_parts [OF assms(6)] by auto
  have "px_ETag proxy' = Hash (bytes @ v1)" using publish_tag [OF assms(1,2,5) pub] by simp
  then have "publishSidecarConf pb2 srv2 proxy2 conf2 v2 (tr, t) = Returns ((proxy2, unstamped conf2), (tr, t))"
    by (intro publish_unchanged [OF assms(7)]) (simp add: v tag)
  then show ?thesis using tag by (simp add: Run_def assms(6))
qed

lemma publish_returns:
  assumes "repo_contract (pb_http pb) ver file" and "ver s (proxy_codebase srv) = None"
  shows "\<exists>p c s'. publishSidecarConf pb srv proxy conf pluginSetV s = Returns ((p, c), s')"
proof -
  have "ver s (proxy_codebase srv) \<in> {None, Some (fmt_word (0 :: uint64))}" using assms(2) by simp
  from upload_conf_contract [OF assms(1) this] show ?thesis
    by (fastforce simp: publishSidecarConf_def Let_def split: option.split)
qed

theorem same_configuration_sends_nothing_witness:
  "\<exists>proxy' proxy'' retried s'. Run \<lparr>so_plugins = (\<lambda>lt xs. xs), so_rules = (\<lambda>lt xs. xs)\<rparr> (sample_publisher memory_http) ''cluster.local''
       sample_server (Some sample_proxy) (Map.empty, Map.empty) = Returns ((Some proxy', retried), s') \<and>
     Run \<lparr>so_plugins = (\<lambda>lt xs. xs), so_rules = (\<lambda>lt xs. xs)\<rparr> (sample_publisher (recorded unreachable_http)\<lparr>pb_now := 1700000010\<rparr>) ''cluster.local''
       sample_server (Some proxy') ([], s') = Returns ((Some proxy'', retried), ([], s'))"
proof -
  let ?so = "\<lparr>so_plugins = (\<lambda>lt xs. xs), so_rules = (\<lambda>lt xs. xs)\<rparr>" and ?s = "(Map.empty, Map.empty) :: memory_repo"
  let ?pb2 = "sample_publisher (recorded unreachable_http)\<lparr>pb_now := 1700000010\<rparr>"
  have "case build_conf ?so ''cluster.local'' sample_server sample_proxy of Panics \<Rightarrow> False | Returns _ \<Rightarrow> True" by code_simp
  then obtain p conf v retried where build: "build_conf ?so ''cluster.local'' sample_server sample_proxy = Returns (p, conf, v, retried)"
    by (auto split: outcome.splits)
  have http: "repo_contract (pb_http (sample_publisher memory_http)) fst snd"
    by (simp add: sample_publisher_def memory_contract)
  obtain proxy' c s' where "publishSidecarConf (sample_publisher memory_http) sample_server p conf v ?s = Returns ((proxy', c), s')"
    using publish_returns [OF http] by force
  with build have run: "Run ?so (sample_publisher memory_http) ''cluster.local'' sample_server (Some sample_proxy) ?s =
      Returns ((Some proxy', retried), s')" by (simp add: Run_def)
  have bytes: "pb_marshal (sample_publisher memory_http) (unstamped conf) = Some (pc_SidecarLogLevel conf)"
    "pb_marshal ?pb2 (unstamped conf) = Some (pc_SidecarLogLevel conf)" by (simp_all add: sample_publisher_def unstamped_def)
  have "pb_http ?pb2 = recorded unreachable_http" by (simp add: sample_publisher_def)
  with run same_configuration_sends_nothing [OF http _ run build bytes(1) build_conf_proxy(1) [OF build] bytes(2), of 0 unreachable_http "[]" s']
  show ?thesis by auto
qed

text \<open>C37. Start: with a repo that keeps its contract and a poll that stops at the first success, the server
  starts without an error, is ready, and all files of the base codebase are in the repo, one version
  further than before.\<close>

theorem start_uploads_base:
  assumes "repo_contract http ver file" and "\<forall>cond s. fst (cond s) \<longrightarrow> pollImmediate cond s = (True, snd (cond s))"
    and "1 < length (srv_ecnetCodebase srv)"
    and "ver s (srv_ecnetCodebase srv) = (if fresh then None else Some (fmt_word (w :: uint64)))"
  shows "\<exists>s'. Start pollImmediate http embedded srv s = ((None, srv\<lparr>srv_ready := True\<rparr>), s') \<and>
     ver s' (srv_ecnetCodebase srv) = Some (fmt_word ((if fresh then 0 else w) + 1)) \<and>
     file s' = stored_items (srv_ecnetCodebase srv) (EcnetCodebaseItems embedded) (file s)"
proof -
  let ?n = "srv_ecnetCodebase srv"
  have up: "\<exists>cb. GetCodebase http ''/'' s = ((True, cb, None), s)"
    using isCodebaseExists_contract [OF assms(1), of "[]" s] by (auto simp: GetCodebase_def isCodebaseExists_def repo_uri_def)
  obtain s2 where batch: "BatchUpload http (fmt_word (0 :: uint64)) [\<lparr>b_Basepath = ?n, b_Items = EcnetCodebaseItems embedded\<rparr>] s = ((True, None), s2)"
      "ver s2 = (ver s)(?n \<mapsto> fmt_word ((if fresh then 0 else w) + 1))"
      "file s2 = stored_items ?n (EcnetCodebaseItems embedded) (file s)"
    using batch_contract [OF assms(1), where batch = "\<lparr>b_Basepath = ?n, b_Items = EcnetCodebaseItems embedded\<rparr>" and s = s and
        version = "fmt_word (0 :: uint64)" and w = "if fresh then 0 else w"] assms(3,4) by (cases fresh) auto
  obtain cb where get: "GetCodebase http ?n s2 = ((True, cb, None), s2)" using GetCodebase_contract [OF assms(1,3)] by blast
  show ?thesis
    using up batch get assms(2) by (auto simp: Start_def IsRepoUp_def)
qed

theorem start_uploads_base_witness:
  "\<exists>s' :: memory_repo. Start (\<lambda>cond s. cond s) memory_http (\<lambda>f. f) sample_server (Map.empty, Map.empty) =
       ((None, sample_server\<lparr>srv_ready := True\<rparr>), s') \<and>
     fst s' ''ecnet/base'' = Some (fmt_word (1 :: uint64)) \<and>
     snd s' = stored_items ''ecnet/base'' (EcnetCodebaseItems (\<lambda>f. f)) Map.empty"
proof -
  have n: "srv_ecnetCodebase sample_server = ''ecnet/base''" by code_simp
  have "\<forall>cond s. fst (cond s) \<longrightarrow> (\<lambda>cond s. cond s) cond (s :: memory_repo) = (True, snd (cond s))"
    by (auto simp: prod_eq_iff)
  from start_uploads_base [OF memory_contract this, of sample_server "(Map.empty, Map.empty)" True 0 "\<lambda>f. f"] show ?thesis
    by (simp add: n)
qed

end
