(* ===== verification/Listener.thy ===== *)
theory Listener
  imports GoTime ProxyJob
begin

text \<open>
  The routines that turn broadcast updates into jobs: \<open>broadcastListener\<close> of the control plane
  (\<open>bridge/ctrlplane/server/broadcast.go\<close>) and of the bridge (\<open>bridge/dataplane/server/broadcast.go\<close>). They differ in
  their first delay and in that only jobs of the control plane ask for a retry. A step is one branch of the
  \<open>select\<close>, the end of a job, a retry, the firing of the timer or the passing of time; while it waits for a job, the
  listener takes no updates. A branch that is ready is taken without delay.
\<close>

section \<open>The listener\<close>

text \<open>\<open>l_updates\<close>, \<open>l_retries\<close> and \<open>l_jobs\<close> are the times of the updates, the retries and the starts of jobs;
  \<open>l_since\<close> counts the jobs started after the last update.\<close>

record listener =
  l_now :: nat
  l_slidingTimer :: timer
  l_reconfirm :: bool
  l_busy :: bool
  l_updates :: "nat list"
  l_retries :: "nat list"
  l_jobs :: "nat list"
  l_since :: nat

definition listener_start :: "nat \<Rightarrow> nat \<Rightarrow> listener" where
  "listener_start delay t = \<lparr>l_now = t, l_slidingTimer = Armed (t + delay), l_reconfirm = True, l_busy = False,
     l_updates = [], l_retries = [], l_jobs = [], l_since = 0\<rparr>"

definition ctrlplane_listener :: "nat \<Rightarrow> listener" where
  "ctrlplane_listener = listener_start (20 * second)"

definition dataplane_listener :: "nat \<Rightarrow> listener" where
  "dataplane_listener = listener_start (10 * second)"

definition slidingTimerReset :: "listener \<Rightarrow> listener" where
  "slidingTimerReset st = st\<lparr>l_slidingTimer := timer_reset (l_now st + 5 * second) (l_slidingTimer st)\<rparr>"

text \<open>The branch \<open>case <-proxyUpdateChan\<close>.\<close>

definition on_update :: "listener \<Rightarrow> listener" where
  "on_update st = (slidingTimerReset st)\<lparr>l_reconfirm := True, l_updates := l_updates st @ [l_now st], l_since := 0\<rparr>"

text \<open>\<open>retryProxiesJob\<close>, which a job calls when endpoints are missing.\<close>

definition on_retry :: "listener \<Rightarrow> listener" where
  "on_retry st = (slidingTimerReset st)\<lparr>l_retries := l_retries st @ [l_now st]\<rparr>"

text \<open>The branch \<open>case <-slidingTimer.C\<close>: up to the start of the job, and after it.\<close>

definition on_timer :: "timer \<Rightarrow> listener \<Rightarrow> listener" where
  "on_timer read st = st\<lparr>l_slidingTimer := read, l_busy := True, l_jobs := l_jobs st @ [l_now st], l_since := l_since st + 1\<rparr>"

definition on_done :: "listener \<Rightarrow> listener" where
  "on_done st =
     (let st = st\<lparr>l_busy := False\<rparr> in
      if l_reconfirm st
      then st\<lparr>l_reconfirm := False, l_slidingTimer := timer_reset (l_now st + 10 * second) (l_slidingTimer st)\<rparr>
      else st)"

inductive listener_step :: "listener \<Rightarrow> listener \<Rightarrow> bool" where
  wait: "l_now st < t \<Longrightarrow> (\<And>d. timer_due (l_slidingTimer st) = Some d \<Longrightarrow> t \<le> d) \<Longrightarrow>
    l_busy st \<or> timer_receive (l_slidingTimer st) = None \<Longrightarrow> listener_step st (st\<lparr>l_now := t\<rparr>)"
| fire: "timer_due (l_slidingTimer st) = Some (l_now st) \<Longrightarrow> listener_step st (st\<lparr>l_slidingTimer := Fired\<rparr>)"
| update: "\<not> l_busy st \<Longrightarrow> listener_step st (on_update st)"
| retry: "listener_step st (on_retry st)"
| start: "\<not> l_busy st \<Longrightarrow> timer_receive (l_slidingTimer st) = Some read \<Longrightarrow> listener_step st (on_timer read st)"
| finish: "l_busy st \<Longrightarrow> listener_step st (on_done st)"

definition listener_reaches :: "nat \<Rightarrow> nat \<Rightarrow> listener \<Rightarrow> bool" where
  "listener_reaches delay t0 = listener_step\<^sup>*\<^sup>* (listener_start delay t0)"

section \<open>The invariant\<close>

text \<open>The values a timer still has to give.\<close>

fun timer_values :: "timer \<Rightarrow> nat" where
  "timer_values (Armed _) = 1"
| "timer_values Fired = 1"
| "timer_values Spent = 0"
| "timer_values (Rearmed _) = 2"

definition last_time :: "nat list \<Rightarrow> nat" where
  "last_time ts = (if ts = [] then 0 else last ts)"

definition last_reset :: "listener \<Rightarrow> nat" where
  "last_reset st = max (last_time (l_updates st)) (last_time (l_retries st))"

text \<open>An update after the last start of a job.\<close>

definition pending :: "listener \<Rightarrow> bool" where
  "pending st \<longleftrightarrow> l_updates st \<noteq> [] \<and> (l_jobs st = [] \<or> last (l_jobs st) < last (l_updates st))"

definition listener_inv :: "listener \<Rightarrow> bool" where
  "listener_inv st \<longleftrightarrow>
     last_time (l_updates st) \<le> l_now st \<and> last_time (l_retries st) \<le> l_now st \<and>
     (\<forall>d. timer_due (l_slidingTimer st) = Some d \<longrightarrow> l_now st \<le> d) \<and>
     (pending st \<longrightarrow> \<not> l_busy st \<and> l_slidingTimer st \<noteq> Spent \<and> l_now st \<le> last_reset st + 5 * second \<and>
        (\<forall>d. timer_due (l_slidingTimer st) = Some d \<longrightarrow> d \<le> last_reset st + 5 * second)) \<and>
     (l_reconfirm st \<and> \<not> l_busy st \<longrightarrow> l_slidingTimer st \<noteq> Spent) \<and>
     (l_busy st \<or> \<not> l_reconfirm st \<longrightarrow> 1 \<le> l_since st) \<and>
     (\<not> l_reconfirm st \<and> (l_busy st \<or> l_slidingTimer st = Spent) \<longrightarrow> 2 \<le> l_since st) \<and>
     length (l_jobs st) + timer_values (l_slidingTimer st) + (if l_reconfirm st then 1 else 0)
       \<le> 2 * (1 + length (l_updates st)) + length (l_retries st)"

lemma timer_reset_simps [simp]:
  "timer_reset d t \<noteq> Spent" "timer_due (timer_reset d t) = Some d" "timer_values (timer_reset d t) = timer_values t + (if \<exists>d. t = Armed d \<or> t = Rearmed d then 0 else 1)"
  by (cases t; simp)+

lemma timer_receive_values: "timer_receive t = Some u \<Longrightarrow> timer_values t = timer_values u + 1 \<and> timer_due t = timer_due u"
  by (cases t) auto

lemma last_time_append [simp]: "last_time (ts @ [t]) = t" by (simp add: last_time_def)

lemma second_pos [simp]: "0 < second" by (simp add: second_def)

lemma listener_inv_start: "listener_inv (listener_start delay t0)"
  by (auto simp: listener_inv_def listener_start_def last_time_def pending_def)

lemma inv_listener_wait:
  assumes "listener_inv st" and "l_now st < t" and "\<And>d. timer_due (l_slidingTimer st) = Some d \<Longrightarrow> t \<le> d"
    and "l_busy st \<or> timer_receive (l_slidingTimer st) = None"
  shows "listener_inv (st\<lparr>l_now := t\<rparr>)"
proof -
  have "t \<le> last_reset st + 5 * second" if "pending st"
  proof -
    have "\<not> l_busy st" "l_slidingTimer st \<noteq> Spent" using that assms(1) by (simp_all add: listener_inv_def)
    then obtain d where "l_slidingTimer st = Armed d" using assms(4) by (cases "l_slidingTimer st") auto
    then show ?thesis using assms(1) assms(3) [of d] that by (simp add: listener_inv_def)
  qed
  then show ?thesis using assms(1-3) by (auto simp: listener_inv_def pending_def last_reset_def)
qed

lemma inv_listener_fire:
  assumes "listener_inv st" and "timer_due (l_slidingTimer st) = Some (l_now st)"
  shows "listener_inv (st\<lparr>l_slidingTimer := Fired\<rparr>)"
proof -
  have "1 \<le> timer_values (l_slidingTimer st)" using assms(2) by (cases "l_slidingTimer st") auto
  then show ?thesis using assms by (auto simp: listener_inv_def pending_def last_reset_def)
qed

lemma inv_listener_update: "listener_inv st \<Longrightarrow> \<not> l_busy st \<Longrightarrow> listener_inv (on_update st)"
  by (auto simp: listener_inv_def on_update_def slidingTimerReset_def pending_def last_reset_def max_def split: if_splits)

lemma inv_listener_retry: "listener_inv st \<Longrightarrow> listener_inv (on_retry st)"
  by (auto simp: listener_inv_def on_retry_def slidingTimerReset_def pending_def last_reset_def max_def split: if_splits)

lemma inv_listener_start:
  assumes "listener_inv st" and "\<not> l_busy st" and "timer_receive (l_slidingTimer st) = Some read"
  shows "listener_inv (on_timer read st)"
proof -
  have "\<not> pending (on_timer read st)" using assms(1)
    by (auto simp: pending_def on_timer_def listener_inv_def last_time_def)
  then show ?thesis using assms timer_receive_values [OF assms(3)]
    by (auto simp: listener_inv_def on_timer_def)
qed

lemma inv_listener_done:
  assumes "listener_inv st" and "l_busy st"
  shows "listener_inv (on_done st)"
proof -
  have "\<not> pending (on_done st)" using assms by (auto simp: pending_def on_done_def listener_inv_def Let_def)
  then show ?thesis using assms by (auto simp: listener_inv_def on_done_def Let_def)
qed

lemma listener_inv_step:
  assumes "listener_step st st'" and "listener_inv st"
  shows "listener_inv st'"
  using assms
proof cases
  case (wait t)
  then show ?thesis using inv_listener_wait [OF assms(2)] by blast
next
  case fire
  then show ?thesis using inv_listener_fire [OF assms(2)] by blast
next
  case update
  then show ?thesis using inv_listener_update [OF assms(2)] by blast
next
  case retry
  then show ?thesis using inv_listener_retry [OF assms(2)] by blast
next
  case (start read)
  then show ?thesis using inv_listener_start [OF assms(2)] by blast
next
  case finish
  then show ?thesis using inv_listener_done [OF assms(2)] by blast
qed

interpretation listen: step_invariant listener_step listener_inv
  by unfold_locales (rule listener_inv_step)

lemma listener_reaches_inv: "listener_reaches delay t0 st \<Longrightarrow> listener_inv st"
  unfolding listener_reaches_def by (rule listen.reachable_inv [OF _ listener_inv_start])

text \<open>Without updates and retries, the listener moves on until its timer is spent and no job runs.\<close>

lemma listener_progress:
  assumes "listener_inv st" and "l_busy st \<or> l_slidingTimer st \<noteq> Spent"
  shows "\<exists>st'. listener_step st st' \<and> l_updates st' = l_updates st \<and> l_retries st' = l_retries st"
proof (cases "l_busy st")
  case True
  then have "listener_step st (on_done st)" by (rule listener_step.finish)
  then show ?thesis by (force simp: on_done_def Let_def)
next
  case idle: False
  show ?thesis
  proof (cases "timer_receive (l_slidingTimer st)")
    case None
    then obtain d where d: "l_slidingTimer st = Armed d" using assms(2) idle by (cases "l_slidingTimer st") auto
    then have "l_now st \<le> d" using assms(1) by (simp add: listener_inv_def)
    then consider "l_now st = d" | "l_now st < d" by linarith
    then show ?thesis
    proof cases
      case 1
      then have "listener_step st (st\<lparr>l_slidingTimer := Fired\<rparr>)" using d by (intro listener_step.fire) simp
      then show ?thesis by force
    next
      case 2
      then have "listener_step st (st\<lparr>l_now := d\<rparr>)" using d by (intro listener_step.wait) auto
      then show ?thesis by force
    qed
  next
    case (Some read)
    then have "listener_step st (on_timer read st)" by (rule listener_step.start [OF idle])
    then show ?thesis by (force simp: on_timer_def)
  qed
qed

section \<open>The proxy and its own routine\<close>

text \<open>The proxy of the registry, registered at the first call; the last result says whether its routine
  \<open>informTrafficPolicies\<close> is started.\<close>

definition fireExistProxies :: "string \<Rightarrow> Proxy option \<Rightarrow> Proxy list \<times> Proxy option \<times> bool" where
  "fireExistProxies uuid cacheProxy =
     (case GetConnectedProxy cacheProxy of
        None \<Rightarrow> let connectedProxy = RegisterProxy uuid cacheProxy in ([connectedProxy], Some connectedProxy, True)
      | Some connectedProxy \<Rightarrow> ([connectedProxy], cacheProxy, False))"

lemma fireExistProxies_once:
  assumes "fireExistProxies uuid cacheProxy = (proxies, cacheProxy', informed)"
  shows "(\<exists>p. proxies = [p] \<and> cacheProxy' = Some p) \<and> fireExistProxies uuid' cacheProxy' = (proxies, cacheProxy', False)"
  using assms by (auto simp: fireExistProxies_def GetConnectedProxy_def Let_def split: option.splits)

section \<open>Properties\<close>

text \<open>C16. Updates reach the jobs in time, and the listener comes to rest: in every reachable state of a listener,
  an update that no job has followed yet is less than 5 seconds old, counted from the last update or
  retry; a listener at rest (no job runs and the timer is spent) has started at least two jobs since the
  last update, so the second one sees what the first one missed; there are at most two jobs per update,
  two at the start and one per retry; and a listener that is not at rest has a next step that needs no update and
  no retry.\<close>

theorem listener_follows_updates:
  assumes "listener_reaches delay t0 st"
  shows "(l_updates st \<noteq> [] \<and> (l_jobs st = [] \<or> last (l_jobs st) < last (l_updates st)) \<longrightarrow>
       \<not> l_busy st \<and> l_now st \<le> max (last (l_updates st)) (if l_retries st = [] then 0 else last (l_retries st)) + 5 * second) \<and>
     (\<not> l_busy st \<and> l_slidingTimer st = Spent \<longrightarrow> 2 \<le> l_since st) \<and>
     length (l_jobs st) \<le> 2 * (1 + length (l_updates st)) + length (l_retries st) \<and>
     (l_busy st \<or> l_slidingTimer st \<noteq> Spent \<longrightarrow>
       (\<exists>st'. listener_step st st' \<and> l_updates st' = l_updates st \<and> l_retries st' = l_retries st))"
proof -
  have inv: "listener_inv st" by (rule listener_reaches_inv [OF assms])
  then have "length (l_jobs st) \<le> 2 * (1 + length (l_updates st)) + length (l_retries st)" by (simp add: listener_inv_def)
  moreover have "\<not> l_busy st \<and> l_slidingTimer st = Spent \<longrightarrow> 2 \<le> l_since st"
    using inv by (auto simp: listener_inv_def)
  moreover have "pending st \<longrightarrow> \<not> l_busy st \<and> l_now st \<le> last_reset st + 5 * second" using inv by (simp add: listener_inv_def)
  ultimately show ?thesis using listener_progress [OF inv] by (auto simp: pending_def last_reset_def last_time_def)
qed

text \<open>An update at the start of the control plane, seen five seconds later.\<close>

theorem listener_follows_updates_witness:
  "\<exists>st. listener_reaches (20 * second) 0 st \<and> l_updates st = [0] \<and> l_jobs st = [] \<and> l_now st = 5 * second \<and>
     l_now st \<le> max 0 0 + 5 * second \<and> (\<exists>st'. listener_step st st' \<and> l_updates st' = [0])"
proof -
  define s1 where "s1 = on_update (listener_start (20 * second) 0)"
  define s2 where "s2 = s1\<lparr>l_now := 5 * second\<rparr>"
  have "listener_step (listener_start (20 * second) 0) s1" unfolding s1_def
    by (rule listener_step.update) (simp add: listener_start_def)
  moreover have s1: "l_slidingTimer s1 = Armed (5 * second)" "l_now s1 = 0" "l_updates s1 = [0]" "l_retries s1 = []" "l_jobs s1 = []"
    by (simp_all add: s1_def on_update_def slidingTimerReset_def listener_start_def)
  then have "listener_step s1 s2" unfolding s2_def by (intro listener_step.wait) auto
  ultimately have "listener_reaches (20 * second) 0 s2" unfolding listener_reaches_def by auto
  with listener_follows_updates [OF this] s1 show ?thesis by (force simp: s2_def)
qed

end
