(* ===== verification/Messaging.thy ===== *)
theory Messaging
  imports K8sTypes
begin

text \<open>
  \<open>pkg/ecnet/messaging\<close> and \<open>pkg/ecnet/k8s/event_handlers.go\<close>: from a change of a Kubernetes object to a message
  on the work queue, and from there to proxy updates and internal events. The work queue and the
  pub-sub library are not part of the program: a handler gives the messages it queues, and the
  broker the publications it makes. \<open>reflect.DeepEqual\<close> on plugin chains is equality: their slices are
  nil or lists of values, and the chains, which are pointers in Go, are compared by what they point to.
\<close>

section \<open>Messages\<close>

text \<open>The dynamic values of \<open>interface{}\<close> that the code distinguishes; of other objects only the namespace
  is read, when they have one.\<close>

datatype k8s_object =
    NilObject
  | PodObject Pod
  | EcnetConfigObject EcnetConfig
  | OtherObject "string option"

record PubSubMessage =
  psm_Kind :: Kind
  psm_OldObj :: k8s_object
  psm_NewObj :: k8s_object

record proxyUpdateEvent =
  pue_msg :: PubSubMessage
  pue_topic :: string

section \<open>Event handlers\<close>

record EventTypes =
  et_Add :: Kind
  et_Update :: Kind
  et_Delete :: Kind

record ResourceEventHandlerFuncs =
  AddFunc :: "k8s_object \<Rightarrow> PubSubMessage list"
  UpdateFunc :: "k8s_object \<Rightarrow> k8s_object \<Rightarrow> PubSubMessage list"
  DeleteFunc :: "k8s_object \<Rightarrow> PubSubMessage list"

definition GetEventHandlerFuncs :: "(k8s_object \<Rightarrow> bool) option \<Rightarrow> EventTypes \<Rightarrow> ResourceEventHandlerFuncs" where
  "GetEventHandlerFuncs observeFilter eventTypes =
     (let shouldObserve = (case observeFilter of None \<Rightarrow> (\<lambda>_. True) | Some f \<Rightarrow> f) in
      \<lparr>AddFunc = (\<lambda>obj. if \<not> shouldObserve obj then []
         else [\<lparr>psm_Kind = et_Add eventTypes, psm_OldObj = NilObject, psm_NewObj = obj\<rparr>]),
       UpdateFunc = (\<lambda>oldObj newObj. if \<not> shouldObserve newObj then []
         else [\<lparr>psm_Kind = et_Update eventTypes, psm_OldObj = oldObj, psm_NewObj = newObj\<rparr>]),
       DeleteFunc = (\<lambda>obj. if \<not> shouldObserve obj then []
         else [\<lparr>psm_Kind = et_Delete eventTypes, psm_OldObj = obj, psm_NewObj = NilObject\<rparr>])\<rparr>)"

fun object_namespace :: "k8s_object \<Rightarrow> string option" where
  "object_namespace NilObject = None"
| "object_namespace (PodObject pod) = Some (pod_Namespace pod)"
| "object_namespace (EcnetConfigObject c) = Some (ec_Namespace c)"
| "object_namespace (OtherObject ns) = ns"

definition shouldObserve :: "InformerCollection \<Rightarrow> k8s_object \<Rightarrow> bool" where
  "shouldObserve ic obj =
     (case object_namespace obj of None \<Rightarrow> False | Some namespace \<Rightarrow> IsMonitoredNamespace ic namespace)"

datatype InformerKey = Namespaces | Services | ServiceAccounts | Pods | EndpointsKey

definition initNamespaceMonitor :: "InformerCollection \<Rightarrow> ResourceEventHandlerFuncs option" where
  "initNamespaceMonitor ic = (if ic_Namespace ic = None then None
     else Some (GetEventHandlerFuncs None \<lparr>et_Add = NamespaceAdded, et_Update = NamespaceUpdated, et_Delete = NamespaceDeleted\<rparr>))"

definition initServicesMonitor :: "InformerCollection \<Rightarrow> ResourceEventHandlerFuncs option" where
  "initServicesMonitor ic = (if ic_Service ic = None then None
     else Some (GetEventHandlerFuncs (Some (shouldObserve ic))
       \<lparr>et_Add = ServiceAdded, et_Update = ServiceUpdated, et_Delete = ServiceDeleted\<rparr>))"

definition initServiceAccountsMonitor :: "InformerCollection \<Rightarrow> ResourceEventHandlerFuncs option" where
  "initServiceAccountsMonitor ic = (if ic_ServiceAccount ic = None then None
     else Some (GetEventHandlerFuncs (Some (shouldObserve ic))
       \<lparr>et_Add = ServiceAccountAdded, et_Update = ServiceAccountUpdated, et_Delete = ServiceAccountDeleted\<rparr>))"

definition initPodMonitor :: "InformerCollection \<Rightarrow> ResourceEventHandlerFuncs option" where
  "initPodMonitor ic = (if ic_Pod ic = None then None
     else Some (GetEventHandlerFuncs (Some (shouldObserve ic))
       \<lparr>et_Add = PodAdded, et_Update = PodUpdated, et_Delete = PodDeleted\<rparr>))"

definition initEndpointMonitor :: "InformerCollection \<Rightarrow> ResourceEventHandlerFuncs option" where
  "initEndpointMonitor ic = (if ic_Endpoints ic = None then None
     else Some (GetEventHandlerFuncs (Some (shouldObserve ic))
       \<lparr>et_Add = EndpointAdded, et_Update = EndpointUpdated, et_Delete = EndpointDeleted\<rparr>))"

fun informerInitHandlerMap :: "InformerCollection \<Rightarrow> InformerKey \<Rightarrow> ResourceEventHandlerFuncs option" where
  "informerInitHandlerMap ic Namespaces = initNamespaceMonitor ic"
| "informerInitHandlerMap ic Services = initServicesMonitor ic"
| "informerInitHandlerMap ic ServiceAccounts = initServiceAccountsMonitor ic"
| "informerInitHandlerMap ic Pods = initPodMonitor ic"
| "informerInitHandlerMap ic EndpointsKey = initEndpointMonitor ic"

text \<open>The handlers that a new client registers: with no selection, those of all informers.\<close>

definition newClient :: "InformerCollection \<Rightarrow> InformerKey list \<Rightarrow> (InformerKey \<times> ResourceEventHandlerFuncs option) list" where
  "newClient ic selectInformers =
     (let selected = (if length selectInformers = 0 then [Namespaces, Services, ServiceAccounts, Pods, EndpointsKey] else selectInformers)
      in map (\<lambda>informer. (informer, informerInitHandlerMap ic informer)) selected)"

section \<open>Proxy updates\<close>

definition GetPubSubTopicForProxyUUID :: "string \<Rightarrow> string" where
  "GetPubSubTopicForProxyUUID uuid = ''proxy:'' @ uuid"

definition broadcast :: "PubSubMessage \<Rightarrow> proxyUpdateEvent" where
  "broadcast msg = \<lparr>pue_msg = msg, pue_topic = kind_string ProxyUpdate\<rparr>"

definition broadcast_kinds :: "Kind list" where
  "broadcast_kinds = [EndpointAdded, EndpointDeleted, EndpointUpdated, ServiceImportAdded, ServiceImportDeleted, ServiceImportUpdated,
     GlobalTrafficPolicyAdded, GlobalTrafficPolicyDeleted, GlobalTrafficPolicyUpdated, ProxyUpdate]"

definition ecnet_config_event :: "PubSubMessage \<Rightarrow> proxyUpdateEvent option" where
  "ecnet_config_event msg =
     (case (psm_OldObj msg, psm_NewObj msg) of
        (EcnetConfigObject prevEcnetConfig, EcnetConfigObject newEcnetConfig) \<Rightarrow>
          let prevSpec = ec_Spec prevEcnetConfig; newSpec = ec_Spec newEcnetConfig in
          if sc_LogLevel (ecs_Sidecar prevSpec) \<noteq> sc_LogLevel (ecs_Sidecar newSpec) \<or>
             ecs_PluginChains prevSpec \<noteq> ecs_PluginChains newSpec
          then Some (broadcast msg) else None
      | _ \<Rightarrow> None)"

definition metric_annotation :: "Pod \<Rightarrow> string" where
  "metric_annotation pod = (case gmap_get (pod_Annotations pod) PrometheusScrapeAnnotation of None \<Rightarrow> [] | Some a \<Rightarrow> a)"

definition pod_event :: "PubSubMessage \<Rightarrow> proxyUpdateEvent option" where
  "pod_event msg =
     (case (psm_OldObj msg, psm_NewObj msg) of
        (PodObject prevPod, PodObject newPod) \<Rightarrow>
          if metric_annotation prevPod \<noteq> metric_annotation newPod
          then Some \<lparr>pue_msg = msg, pue_topic = GetPubSubTopicForProxyUUID (pod_UID newPod)\<rparr>
          else if 0 < length (pod_UID newPod) then Some (broadcast msg) else None
      | _ \<Rightarrow> None)"

definition getProxyUpdateEvent :: "PubSubMessage \<Rightarrow> proxyUpdateEvent option" where
  "getProxyUpdateEvent msg =
     (if psm_Kind msg \<in> set broadcast_kinds then Some (broadcast msg)
      else if psm_Kind msg = EcnetConfigUpdated then ecnet_config_event msg
      else if psm_Kind msg = PodUpdated then pod_event msg
      else None)"

section \<open>The broker\<close>

text \<open>A publication on one of the two pub-sub instances, or an event handed to the dispatcher.\<close>

datatype emission =
    ProxyPub PubSubMessage string
  | ToDispatcher proxyUpdateEvent
  | KubePub PubSubMessage string

record Broker =
  totalQEventCount :: uint64
  totalQProxyEventCount :: uint64
  totalDispatchedProxyEventCount :: uint64

definition Broker_zero :: Broker where
  "Broker_zero = \<lparr>totalQEventCount = 0, totalQProxyEventCount = 0, totalDispatchedProxyEventCount = 0\<rparr>"

text \<open>The counter of publications for proxies is shared: the queue processor and the dispatcher both add to it.\<close>

definition count_dispatched :: "Broker \<Rightarrow> Broker" where
  "count_dispatched b = b\<lparr>totalDispatchedProxyEventCount := totalDispatchedProxyEventCount b + 1\<rparr>"

text \<open>What \<open>processEvent\<close> sends, in order, with its count of the event. A publication for a proxy is counted when it is made
  (theory \<open>MessageBroker\<close>), since the dispatcher may run before it.\<close>

definition processEvent :: "PubSubMessage \<Rightarrow> Broker \<Rightarrow> emission list \<times> Broker" where
  "processEvent msg b =
     (let (out, b) =
        (case getProxyUpdateEvent msg of
           None \<Rightarrow> ([], b)
         | Some event \<Rightarrow>
             (if pue_topic event \<noteq> kind_string ProxyUpdate then [ProxyPub (pue_msg event) (pue_topic event)] else [ToDispatcher event],
              b\<lparr>totalQProxyEventCount := totalQProxyEventCount b + 1\<rparr>))
      in (out @ [KubePub msg (kind_string (psm_Kind msg))], b))"

text \<open>One item of the work queue: a message, or something else, which is dropped.\<close>

datatype queue_item = MessageItem PubSubMessage | OtherItem

definition processNextItem ::
  "queue_item option \<Rightarrow> Broker \<Rightarrow> bool \<times> emission list \<times> Broker" where
  "processNextItem got b =
     (case got of
        None \<Rightarrow> (False, [], b)
      | Some item \<Rightarrow>
          let b = b\<lparr>totalQEventCount := totalQEventCount b + 1\<rparr> in
          case item of OtherItem \<Rightarrow> (True, [], b) | MessageItem msg \<Rightarrow> (True, processEvent msg b))"

section \<open>What the changes of a cluster mean for the proxies\<close>

definition scrape :: "Pod \<Rightarrow> string" where
  "scrape pod = (case gmap_get (pod_Annotations pod) ''prometheus.io/scrape'' of None \<Rightarrow> [] | Some a \<Rightarrow> a)"

text \<open>Which change must reach proxies, and under which topic: every change of endpoints, imported services and traffic
  policies, and a request for an update, reaches all of them; a change of the mesh configuration when it changes the proxies' log level
  or their plugin chains; an update of a pod reaches the proxy of the pod alone when the scraping of its metrics
  was switched, and otherwise all of them, if the pod has an identity.\<close>

inductive update_for :: "PubSubMessage \<Rightarrow> string \<Rightarrow> bool" where
  endpoint: "psm_Kind msg \<in> {EndpointAdded, EndpointUpdated, EndpointDeleted} \<Longrightarrow> update_for msg ''proxy-update''"
| imported: "psm_Kind msg \<in> {ServiceImportAdded, ServiceImportUpdated, ServiceImportDeleted} \<Longrightarrow> update_for msg ''proxy-update''"
| policy: "psm_Kind msg \<in> {GlobalTrafficPolicyAdded, GlobalTrafficPolicyUpdated, GlobalTrafficPolicyDeleted} \<Longrightarrow> update_for msg ''proxy-update''"
| request: "psm_Kind msg = ProxyUpdate \<Longrightarrow> update_for msg ''proxy-update''"
| config: "psm_Kind msg = EcnetConfigUpdated \<Longrightarrow> psm_OldObj msg = EcnetConfigObject old \<Longrightarrow> psm_NewObj msg = EcnetConfigObject new \<Longrightarrow>
    sc_LogLevel (ecs_Sidecar (ec_Spec old)) \<noteq> sc_LogLevel (ecs_Sidecar (ec_Spec new)) \<or> ecs_PluginChains (ec_Spec old) \<noteq> ecs_PluginChains (ec_Spec new) \<Longrightarrow>
    update_for msg ''proxy-update''"
| scraping: "psm_Kind msg = PodUpdated \<Longrightarrow> psm_OldObj msg = PodObject old \<Longrightarrow> psm_NewObj msg = PodObject new \<Longrightarrow> scrape old \<noteq> scrape new \<Longrightarrow>
    update_for msg (''proxy:'' @ pod_UID new)"
| pod: "psm_Kind msg = PodUpdated \<Longrightarrow> psm_OldObj msg = PodObject old \<Longrightarrow> psm_NewObj msg = PodObject new \<Longrightarrow> scrape old = scrape new \<Longrightarrow>
    pod_UID new \<noteq> [] \<Longrightarrow> update_for msg ''proxy-update''"

text \<open>What one message must make the broker send, in order.\<close>

inductive sends :: "PubSubMessage \<Rightarrow> emission list \<Rightarrow> bool" where
  one_proxy: "update_for msg topic \<Longrightarrow> topic \<noteq> ''proxy-update'' \<Longrightarrow> sends msg [ProxyPub msg topic, KubePub msg (kind_string (psm_Kind msg))]"
| all_proxies: "update_for msg ''proxy-update'' \<Longrightarrow>
    sends msg [ToDispatcher \<lparr>pue_msg = msg, pue_topic = ''proxy-update''\<rparr>, KubePub msg (kind_string (psm_Kind msg))]"
| no_proxy: "\<not> (\<exists>topic. update_for msg topic) \<Longrightarrow> sends msg [KubePub msg (kind_string (psm_Kind msg))]"

lemma metric_annotation_scrape: "metric_annotation pod = scrape pod"
  by (simp add: metric_annotation_def scrape_def PrometheusScrapeAnnotation_def)

lemma update_for_event: "update_for msg topic \<longleftrightarrow> getProxyUpdateEvent msg = Some \<lparr>pue_msg = msg, pue_topic = topic\<rparr>"
  by (cases "psm_OldObj msg"; cases "psm_NewObj msg"; cases "psm_Kind msg")
    (auto simp: update_for.simps getProxyUpdateEvent_def broadcast_kinds_def ecnet_config_event_def pod_event_def broadcast_def
      metric_annotation_scrape GetPubSubTopicForProxyUUID_def Let_def)

lemma event_message: "getProxyUpdateEvent msg = Some event \<Longrightarrow> pue_msg event = msg"
  by (auto simp: getProxyUpdateEvent_def ecnet_config_event_def pod_event_def broadcast_def Let_def split: if_splits k8s_object.splits)

lemma no_update_event: "(\<exists>topic. update_for msg topic) \<longleftrightarrow> getProxyUpdateEvent msg \<noteq> None"
proof
  assume "getProxyUpdateEvent msg \<noteq> None"
  then obtain event where event: "getProxyUpdateEvent msg = Some event" by blast
  with event_message have "event = \<lparr>pue_msg = msg, pue_topic = pue_topic event\<rparr>" by auto
  with event show "\<exists>topic. update_for msg topic" unfolding update_for_event by metis
qed (auto simp: update_for_event)

lemma processEvent_sends:
  "processEvent msg b = (out, b') \<Longrightarrow> sends msg out \<and>
     b' = (if \<exists>topic. update_for msg topic then b\<lparr>totalQProxyEventCount := totalQProxyEventCount b + 1\<rparr> else b)"
proof (cases "getProxyUpdateEvent msg")
  case None
  assume "processEvent msg b = (out, b')"
  moreover have "\<not> (\<exists>topic. update_for msg topic)" using None by (simp add: no_update_event)
  ultimately show ?thesis using None by (auto simp: processEvent_def intro: no_proxy)
next
  case (Some event)
  assume run: "processEvent msg b = (out, b')"
  have event: "event = \<lparr>pue_msg = msg, pue_topic = pue_topic event\<rparr>" using event_message [OF Some] by auto
  with Some have up: "update_for msg (pue_topic event)" unfolding update_for_event by metis
  show ?thesis
  proof (cases "pue_topic event = ''proxy-update''")
    case True
    with run Some event up show ?thesis by (auto simp: processEvent_def intro: all_proxies)
  next
    case False
    with run Some up event_message [OF Some] show ?thesis by (auto simp: processEvent_def intro: one_proxy)
  qed
qed

section \<open>Runs over the queue\<close>

definition messages :: "queue_item list \<Rightarrow> PubSubMessage list" where
  "messages items = List.map_filter (\<lambda>item. case item of MessageItem msg \<Rightarrow> Some msg | OtherItem \<Rightarrow> None) items"

fun proxy_pubs :: "emission list \<Rightarrow> (PubSubMessage \<times> string) list" where
  "proxy_pubs [] = []"
| "proxy_pubs (ProxyPub msg topic # out) = (msg, topic) # proxy_pubs out"
| "proxy_pubs (_ # out) = proxy_pubs out"

fun dispatched :: "emission list \<Rightarrow> proxyUpdateEvent list" where
  "dispatched [] = []"
| "dispatched (ToDispatcher event # out) = event # dispatched out"
| "dispatched (_ # out) = dispatched out"

lemma proxy_pubs_append [simp]: "proxy_pubs (xs @ ys) = proxy_pubs xs @ proxy_pubs ys"
  by (induction xs rule: proxy_pubs.induct) simp_all

lemma dispatched_append [simp]: "dispatched (xs @ ys) = dispatched xs @ dispatched ys"
  by (induction xs rule: dispatched.induct) simp_all

lemma messages_simps [simp]:
  "messages [] = []" "messages (items @ [MessageItem msg]) = messages items @ [msg]" "messages (items @ [OtherItem]) = messages items"
  by (simp_all add: messages_def List.map_filter_def)

text \<open>Taking one item: what is sent for it, and what it adds to the counters of the queue.\<close>

lemma processNextItem_message:
  assumes "processNextItem (Some (MessageItem msg)) b = (go_on, out, b')"
  shows "sends msg out \<and> totalQEventCount b' = totalQEventCount b + 1 \<and>
     totalQProxyEventCount b' = totalQProxyEventCount b + (if \<exists>topic. update_for msg topic then 1 else 0) \<and>
     totalDispatchedProxyEventCount b' = totalDispatchedProxyEventCount b"
  using processEvent_sends [of msg "b\<lparr>totalQEventCount := totalQEventCount b + 1\<rparr>" out b'] assms
  by (auto simp: processNextItem_def Let_def split: if_splits)

lemma processNextItem_other:
  "processNextItem (Some OtherItem) b = (go_on, out, b') \<Longrightarrow> out = [] \<and> b' = b\<lparr>totalQEventCount := totalQEventCount b + 1\<rparr>"
  by (auto simp: processNextItem_def)

definition sample_pod :: "string \<Rightarrow> Pod" where
  "sample_pod metrics = \<lparr>pod_UID = ''uid-7'', pod_Namespace = ''shop'', pod_Name = ''web-1'', pod_Labels = None,
     pod_Annotations = Some [(PrometheusScrapeAnnotation, metrics)], pod_ServiceAccountName = ''web'', pod_PodIP = ''10.0.0.1'',
     pod_PodIPs = [''10.0.0.1'']\<rparr>"

end
