(* ===== verification/Dispatcher.thy ===== *)
theory Dispatcher
  imports Messaging GoTime
begin

text \<open>
  \<open>runProxyUpdateDispatcher\<close> of \<open>messaging/broker.go\<close> as a state machine: the timers of Go's \<open>time\<close>, one step per
  branch of the \<open>select\<close>, and the passing of time. Times are in nanoseconds. Time passes only while the
  dispatcher waits: it takes no time to handle a branch that is ready, and a timer fires when it is due. The other
  routine of the broker, which works on the queue, may run between any two steps: what it does to the shared state
  are the steps \<open>queue_step\<close>; theory \<open>MessageBroker\<close> has that routine itself.
\<close>

definition proxyUpdateSlidingWindow :: nat where "proxyUpdateSlidingWindow = 2 * second"

definition proxyUpdateMaxWindow :: nat where "proxyUpdateMaxWindow = 10 * second"

definition noTimeout :: nat where "noTimeout = 87600 * 3600 * second"

section \<open>The dispatcher\<close>

text \<open>\<open>d_batch\<close>, \<open>d_received\<close> and \<open>d_published\<close> record the history: the events of the open batch with the
  times they came, all events, and for every publication its time, its event and its batch; \<open>d_direct\<close> counts the publications of
  the other routine. \<open>d_broker\<close> is the state that the two routines share.\<close>

record dispatcher =
  d_now :: nat
  d_slidingTimer :: timer
  d_maxTimer :: timer
  d_dispatchPending :: bool
  d_batchCount :: nat
  d_event :: "proxyUpdateEvent option"
  d_broker :: Broker
  d_direct :: nat
  d_batch :: "(nat \<times> proxyUpdateEvent) list"
  d_received :: "(nat \<times> proxyUpdateEvent) list"
  d_published :: "(nat \<times> proxyUpdateEvent option \<times> (nat \<times> proxyUpdateEvent) list) list"

definition dispatcher_start :: "nat \<Rightarrow> dispatcher" where
  "dispatcher_start t = \<lparr>d_now = t, d_slidingTimer = Armed (t + noTimeout), d_maxTimer = Armed (t + noTimeout),
     d_dispatchPending = False, d_batchCount = 0, d_event = None, d_broker = Broker_zero, d_direct = 0, d_batch = [], d_received = [], d_published = []\<rparr>"

text \<open>The branch \<open>case e, ok := <-b.proxyUpdateCh\<close>.\<close>

definition on_event :: "proxyUpdateEvent \<Rightarrow> dispatcher \<Rightarrow> dispatcher option" where
  "on_event e st =
     (let st = st\<lparr>d_event := Some e, d_batchCount := d_batchCount st + 1, d_batch := d_batch st @ [(d_now st, e)],
          d_received := d_received st @ [(d_now st, e)]\<rparr> in
      case stop_drain_reset (d_now st + proxyUpdateSlidingWindow) (d_slidingTimer st) of
        None \<Rightarrow> None
      | Some sliding \<Rightarrow>
          if \<not> d_dispatchPending st then
            case stop_drain_reset (d_now st + proxyUpdateMaxWindow) (d_maxTimer st) of
              None \<Rightarrow> None
            | Some mx \<Rightarrow> Some (st\<lparr>d_slidingTimer := sliding, d_maxTimer := mx, d_dispatchPending := True\<rparr>)
          else Some (st\<lparr>d_slidingTimer := sliding\<rparr>))"

definition publish :: "dispatcher \<Rightarrow> dispatcher" where
  "publish st = st\<lparr>d_published := d_published st @ [(d_now st, d_event st, d_batch st)], d_batch := [],
     d_broker := count_dispatched (d_broker st), d_dispatchPending := False, d_batchCount := 0\<rparr>"

text \<open>The branches \<open>case <-slidingTimer.C\<close> and \<open>case <-maxTimer.C\<close>, each with its own value already read.\<close>

definition on_sliding :: "dispatcher \<Rightarrow> dispatcher option" where
  "on_sliding st =
     map_option (\<lambda>mx. publish (st\<lparr>d_slidingTimer := timer_reset (d_now st + noTimeout) (d_slidingTimer st), d_maxTimer := mx\<rparr>))
       (stop_drain_reset (d_now st + noTimeout) (d_maxTimer st))"

definition on_max :: "dispatcher \<Rightarrow> dispatcher option" where
  "on_max st =
     map_option (\<lambda>sliding. publish (st\<lparr>d_slidingTimer := sliding, d_maxTimer := timer_reset (d_now st + noTimeout) (d_maxTimer st)\<rparr>))
       (stop_drain_reset (d_now st + noTimeout) (d_slidingTimer st))"

inductive dispatcher_step :: "dispatcher \<Rightarrow> dispatcher \<Rightarrow> bool" where
  wait: "d_now st < t \<Longrightarrow> may_wait_until t (d_slidingTimer st) \<Longrightarrow> may_wait_until t (d_maxTimer st) \<Longrightarrow>
    dispatcher_step st (st\<lparr>d_now := t\<rparr>)"
| fire_sliding: "timer_due (d_slidingTimer st) = Some (d_now st) \<Longrightarrow> dispatcher_step st (st\<lparr>d_slidingTimer := Fired\<rparr>)"
| fire_max: "timer_due (d_maxTimer st) = Some (d_now st) \<Longrightarrow> dispatcher_step st (st\<lparr>d_maxTimer := Fired\<rparr>)"
| receive: "on_event e st = Some st' \<Longrightarrow> dispatcher_step st st'"
| sliding: "timer_receive (d_slidingTimer st) = Some read \<Longrightarrow> on_sliding (st\<lparr>d_slidingTimer := read\<rparr>) = Some st' \<Longrightarrow> dispatcher_step st st'"
| maximum: "timer_receive (d_maxTimer st) = Some read \<Longrightarrow> on_max (st\<lparr>d_maxTimer := read\<rparr>) = Some st' \<Longrightarrow> dispatcher_step st st'"

text \<open>The steps of the other routine, as far as this one sees them: it counts what it takes from the queue, and it publishes.\<close>

definition direct_publication :: "dispatcher \<Rightarrow> dispatcher" where
  "direct_publication st = st\<lparr>d_broker := count_dispatched (d_broker st), d_direct := Suc (d_direct st)\<rparr>"

inductive queue_step :: "dispatcher \<Rightarrow> dispatcher \<Rightarrow> bool" where
  queue_counts: "totalDispatchedProxyEventCount b = totalDispatchedProxyEventCount (d_broker st) \<Longrightarrow> queue_step st (st\<lparr>d_broker := b\<rparr>)"
| queue_publishes: "queue_step st (direct_publication st)"

definition either_step :: "dispatcher \<Rightarrow> dispatcher \<Rightarrow> bool" where
  "either_step st st' \<longleftrightarrow> dispatcher_step st st' \<or> queue_step st st'"

definition dispatcher_reaches :: "nat \<Rightarrow> dispatcher \<Rightarrow> bool" where
  "dispatcher_reaches t0 = either_step\<^sup>*\<^sup>* (dispatcher_start t0)"

lemma dispatcher_reaches_start: "dispatcher_reaches t0 (dispatcher_start t0)"
  by (simp add: dispatcher_reaches_def)

lemma dispatcher_reaches_own: "dispatcher_reaches t0 st \<Longrightarrow> dispatcher_step st st' \<Longrightarrow> dispatcher_reaches t0 st'"
  unfolding dispatcher_reaches_def by (erule rtranclp.rtrancl_into_rtrancl) (simp add: either_step_def)

lemma dispatcher_reaches_queue: "dispatcher_reaches t0 st \<Longrightarrow> queue_step st st' \<Longrightarrow> dispatcher_reaches t0 st'"
  unfolding dispatcher_reaches_def by (erule rtranclp.rtrancl_into_rtrancl) (simp add: either_step_def)

section \<open>The invariant\<close>

text \<open>A timer that is to fire at a known time: it is armed for that time, or the time has come.\<close>

definition runs_out :: "nat \<Rightarrow> timer \<Rightarrow> nat \<Rightarrow> bool" where
  "runs_out now t due \<longleftrightarrow> now \<le> due \<and> (t = Armed due \<or> t = Fired \<and> now = due)"

definition idle_timer :: "nat \<Rightarrow> nat \<Rightarrow> timer \<Rightarrow> bool" where
  "idle_timer t0 now t \<longleftrightarrow> (\<exists>due. t0 + noTimeout \<le> due \<and> runs_out now t due)"

definition good_publication :: "nat \<Rightarrow> nat \<times> proxyUpdateEvent option \<times> (nat \<times> proxyUpdateEvent) list \<Rightarrow> bool" where
  "good_publication t0 p \<longleftrightarrow> (case p of (t, e, b) \<Rightarrow>
     if b = [] then t0 + noTimeout \<le> t
     else e = Some (snd (last b)) \<and> t \<le> fst (hd b) + proxyUpdateMaxWindow \<and> t \<le> fst (last b) + proxyUpdateSlidingWindow)"

definition dispatcher_inv :: "nat \<Rightarrow> dispatcher \<Rightarrow> bool" where
  "dispatcher_inv t0 st \<longleftrightarrow>
     t0 \<le> d_now st \<and> d_batchCount st = length (d_batch st) \<and> (d_dispatchPending st \<longleftrightarrow> d_batch st \<noteq> []) \<and>
     (if d_batch st = [] then idle_timer t0 (d_now st) (d_slidingTimer st) \<and> idle_timer t0 (d_now st) (d_maxTimer st)
      else d_event st = Some (snd (last (d_batch st))) \<and>
        runs_out (d_now st) (d_slidingTimer st) (fst (last (d_batch st)) + proxyUpdateSlidingWindow) \<and>
        runs_out (d_now st) (d_maxTimer st) (fst (hd (d_batch st)) + proxyUpdateMaxWindow)) \<and>
     concat (map (\<lambda>(t, e, b). b) (d_published st)) @ d_batch st = d_received st \<and>
     totalDispatchedProxyEventCount (d_broker st) = of_nat (length (d_published st) + d_direct st) \<and>
     list_all (good_publication t0) (d_published st)"

lemma windows_positive [simp]: "0 < proxyUpdateSlidingWindow" "0 < proxyUpdateMaxWindow" "0 < noTimeout"
  by (simp_all add: proxyUpdateSlidingWindow_def proxyUpdateMaxWindow_def noTimeout_def second_def)

lemma inv_start: "dispatcher_inv t0 (dispatcher_start t0)"
  by (auto simp: dispatcher_inv_def dispatcher_start_def Broker_zero_def idle_timer_def runs_out_def)

lemma runs_out_not_spent: "runs_out now t due \<Longrightarrow> t \<noteq> Spent"
  by (auto simp: runs_out_def)

lemma runs_out_wait: "runs_out now t due \<Longrightarrow> may_wait_until now' t \<Longrightarrow> now < now' \<Longrightarrow> runs_out now' t due"
  by (cases t) (auto simp: runs_out_def)

lemma runs_out_fire: "runs_out now t due \<Longrightarrow> timer_due t = Some now \<Longrightarrow> runs_out now Fired due"
  by (auto simp: runs_out_def)

lemma stop_drain_reset_Some: "runs_out now t due \<Longrightarrow> stop_drain_reset d t = Some (Armed d)"
  by (auto simp: runs_out_def)

lemma runs_out_cases: "runs_out now t due \<Longrightarrow> t = Armed due \<or> t = Fired \<and> now = due"
  by (auto simp: runs_out_def)

lemma inv_timers:
  assumes "dispatcher_inv t0 st"
  obtains due1 due2 where "runs_out (d_now st) (d_slidingTimer st) due1" and "runs_out (d_now st) (d_maxTimer st) due2"
    and "d_batch st = [] \<longrightarrow> t0 + noTimeout \<le> due1 \<and> t0 + noTimeout \<le> due2"
  using assms by (auto simp: dispatcher_inv_def idle_timer_def split: if_splits)

lemma inv_wait:
  assumes "dispatcher_inv t0 st" and "d_now st < t" and "may_wait_until t (d_slidingTimer st)" and "may_wait_until t (d_maxTimer st)"
  shows "dispatcher_inv t0 (st\<lparr>d_now := t\<rparr>)"
  using assms runs_out_wait [of "d_now st" _ _ t]
  by (auto simp: dispatcher_inv_def idle_timer_def split: if_splits)

lemma inv_fire:
  assumes "dispatcher_inv t0 st"
  shows "timer_due (d_slidingTimer st) = Some (d_now st) \<Longrightarrow> dispatcher_inv t0 (st\<lparr>d_slidingTimer := Fired\<rparr>)"
    and "timer_due (d_maxTimer st) = Some (d_now st) \<Longrightarrow> dispatcher_inv t0 (st\<lparr>d_maxTimer := Fired\<rparr>)"
  using assms by (auto simp: dispatcher_inv_def idle_timer_def intro: runs_out_fire split: if_splits)

lemma inv_event:
  assumes "dispatcher_inv t0 st"
  shows "\<exists>st'. on_event e st = Some st' \<and> dispatcher_inv t0 st'"
proof -
  obtain due1 due2 where due: "runs_out (d_now st) (d_slidingTimer st) due1" "runs_out (d_now st) (d_maxTimer st) due2"
    by (rule inv_timers [OF assms])
  show ?thesis
    using assms by (auto simp: on_event_def stop_drain_reset_Some [OF due(1)] stop_drain_reset_Some [OF due(2)] dispatcher_inv_def
        runs_out_def Let_def)
qed

text \<open>Publishing at the time a timer runs out.\<close>

lemma inv_publish:
  assumes "dispatcher_inv t0 st" and "d_batch st = [] \<Longrightarrow> t0 + noTimeout \<le> d_now st"
  shows "dispatcher_inv t0 (publish (st\<lparr>d_slidingTimer := Armed (d_now st + noTimeout), d_maxTimer := Armed (d_now st + noTimeout)\<rparr>))"
  using assms
  by (auto simp: dispatcher_inv_def publish_def count_dispatched_def idle_timer_def runs_out_def good_publication_def split: if_splits)

lemma inv_sliding:
  assumes "dispatcher_inv t0 st" and "timer_receive (d_slidingTimer st) = Some read"
  shows "\<exists>st'. on_sliding (st\<lparr>d_slidingTimer := read\<rparr>) = Some st' \<and> dispatcher_inv t0 st'"
proof -
  obtain due1 due2 where due: "runs_out (d_now st) (d_slidingTimer st) due1" "runs_out (d_now st) (d_maxTimer st) due2"
    and idle: "d_batch st = [] \<longrightarrow> t0 + noTimeout \<le> due1 \<and> t0 + noTimeout \<le> due2"
    by (rule inv_timers [OF assms(1)])
  have fired: "d_slidingTimer st = Fired" "read = Spent" using runs_out_cases [OF due(1)] assms(2) by auto
  then have "d_batch st = [] \<Longrightarrow> t0 + noTimeout \<le> d_now st" using due(1) idle by (simp add: runs_out_def)
  from inv_publish [OF assms(1) this] show ?thesis by (simp add: on_sliding_def stop_drain_reset_Some [OF due(2)] fired)
qed

lemma inv_max:
  assumes "dispatcher_inv t0 st" and "timer_receive (d_maxTimer st) = Some read"
  shows "\<exists>st'. on_max (st\<lparr>d_maxTimer := read\<rparr>) = Some st' \<and> dispatcher_inv t0 st'"
proof -
  obtain due1 due2 where due: "runs_out (d_now st) (d_slidingTimer st) due1" "runs_out (d_now st) (d_maxTimer st) due2"
    and idle: "d_batch st = [] \<longrightarrow> t0 + noTimeout \<le> due1 \<and> t0 + noTimeout \<le> due2"
    by (rule inv_timers [OF assms(1)])
  have fired: "d_maxTimer st = Fired" "read = Spent" using runs_out_cases [OF due(2)] assms(2) by auto
  then have "d_batch st = [] \<Longrightarrow> t0 + noTimeout \<le> d_now st" using due(2) idle by (simp add: runs_out_def)
  from inv_publish [OF assms(1) this] show ?thesis by (simp add: on_max_def stop_drain_reset_Some [OF due(1)] fired)
qed

lemma inv_step:
  assumes "dispatcher_step st st'" and "dispatcher_inv t0 st"
  shows "dispatcher_inv t0 st'"
  using assms
proof cases
  case (wait t)
  then show ?thesis using inv_wait assms(2) by blast
next
  case fire_sliding
  then show ?thesis using inv_fire(1) assms(2) by blast
next
  case fire_max
  then show ?thesis using inv_fire(2) assms(2) by blast
next
  case (receive e)
  then show ?thesis using inv_event [OF assms(2), of e] by simp
next
  case (sliding read)
  then show ?thesis using inv_sliding [OF assms(2) sliding(1)] by simp
next
  case (maximum read)
  then show ?thesis using inv_max [OF assms(2) maximum(1)] by simp
qed

lemma inv_queue_step: "queue_step st st' \<Longrightarrow> dispatcher_inv t0 st \<Longrightarrow> dispatcher_inv t0 st'"
  by (erule queue_step.cases) (simp_all add: dispatcher_inv_def direct_publication_def count_dispatched_def)

interpretation dispatch: step_invariant either_step "dispatcher_inv t0" for t0
  by unfold_locales (auto simp: either_step_def intro: inv_step inv_queue_step)

lemma reaches_inv: "dispatcher_reaches t0 st \<Longrightarrow> dispatcher_inv t0 st"
  unfolding dispatcher_reaches_def by (rule dispatch.reachable_inv [OF _ inv_start])

text \<open>Some step is always possible: a ready branch, a timer that is due, or waiting for the next one.\<close>

lemma inv_other_step:
  assumes "dispatcher_inv t0 st"
  shows "\<exists>st'. dispatcher_step st st' \<and> d_received st' = d_received st"
proof -
  obtain due1 due2 where due: "runs_out (d_now st) (d_slidingTimer st) due1" "runs_out (d_now st) (d_maxTimer st) due2"
    by (rule inv_timers [OF assms])
  consider (1) "d_slidingTimer st = Fired" | (2) "d_maxTimer st = Fired"
    | (3) "d_slidingTimer st = Armed due1" "d_maxTimer st = Armed due2" using due by (auto simp: runs_out_def)
  then show ?thesis
  proof cases
    case 1
    with inv_sliding [OF assms, of Spent] obtain st' where st': "on_sliding (st\<lparr>d_slidingTimer := Spent\<rparr>) = Some st'" by auto
    then have "d_received st' = d_received st" by (auto simp: on_sliding_def publish_def)
    with 1 st' show ?thesis using dispatcher_step.sliding [of st Spent] by auto
  next
    case 2
    with inv_max [OF assms, of Spent] obtain st' where st': "on_max (st\<lparr>d_maxTimer := Spent\<rparr>) = Some st'" by auto
    then have "d_received st' = d_received st" by (auto simp: on_max_def publish_def)
    with 2 st' show ?thesis using dispatcher_step.maximum [of st Spent] by auto
  next
    case 3
    consider "due1 = d_now st" | "due2 = d_now st" | "d_now st < min due1 due2" using due by (force simp: runs_out_def)
    then show ?thesis
    proof cases
      case 1
      with 3 dispatcher_step.fire_sliding [of st] show ?thesis by force
    next
      case 2
      with 3 dispatcher_step.fire_max [of st] show ?thesis by force
    next
      case wait: 3
      with 3 dispatcher_step.wait [of st "min due1 due2"] show ?thesis by force
    qed
  qed
qed

section \<open>Properties\<close>

text \<open>C39. Proxy updates are batched, not lost, and not late: in every reachable state of the dispatcher, the
  published batches followed by the open batch are exactly the received events, in order; each
  publication carries the last event of its batch, at most 10 seconds after the first and at most 2
  seconds after the last event of the batch (a publication without any event is possible only after
  the idle timeout of ten years); an open batch is never older than 10 seconds; and the counter that the
  dispatcher shares with the queue processor counts the publications of both, however their steps interleave.\<close>

theorem dispatcher_batches:
  assumes "dispatcher_reaches t0 st"
  shows "concat (map (\<lambda>(t, e, b). b) (d_published st)) @ d_batch st = d_received st \<and>
     list_all (\<lambda>(t, e, b). if b = [] then t0 + noTimeout \<le> t
       else e = Some (snd (last b)) \<and> t \<le> fst (hd b) + 10 * second \<and> t \<le> fst (last b) + 2 * second) (d_published st) \<and>
     (d_batch st = [] \<or> d_now st \<le> fst (hd (d_batch st)) + 10 * second) \<and>
     totalDispatchedProxyEventCount (d_broker st) = of_nat (length (d_published st) + d_direct st)"
proof -
  have inv: "dispatcher_inv t0 st" by (rule reaches_inv [OF assms])
  then have "list_all (good_publication t0) (d_published st)" by (simp add: dispatcher_inv_def)
  then have "list_all (\<lambda>(t, e, b). if b = [] then t0 + noTimeout \<le> t
       else e = Some (snd (last b)) \<and> t \<le> fst (hd b) + 10 * second \<and> t \<le> fst (last b) + 2 * second) (d_published st)"
    by (rule list.pred_mono_strong) (auto simp: good_publication_def proxyUpdateMaxWindow_def proxyUpdateSlidingWindow_def)
  with inv show ?thesis
    by (auto simp: dispatcher_inv_def runs_out_def proxyUpdateMaxWindow_def split: if_splits)
qed

text \<open>An event, two quiet seconds, and its publication.\<close>

definition sample_event :: proxyUpdateEvent where
  "sample_event = broadcast \<lparr>psm_Kind = EndpointAdded, psm_OldObj = NilObject, psm_NewObj = OtherObject (Some ''shop'')\<rparr>"

lemma sample_dispatch:
  "\<exists>st. dispatcher_reaches 5 st \<and> d_published st = [(5 + 2 * second, Some sample_event, [(5, sample_event)])] \<and> d_batch st = [] \<and> d_direct st = 1"
proof -
  define s0 where "s0 = direct_publication (dispatcher_start 5)"
  have r0: "dispatcher_reaches 5 s0" unfolding s0_def by (rule dispatcher_reaches_queue [OF dispatcher_reaches_start queue_publishes])
  obtain s1 where s1: "on_event sample_event s0 = Some s1"
    and f1: "d_now s1 = 5" "d_slidingTimer s1 = Armed (5 + 2 * second)" "d_maxTimer s1 = Armed (5 + 10 * second)" "d_direct s1 = 1"
      "d_event s1 = Some sample_event" "d_batch s1 = [(5, sample_event)]" "d_published s1 = []"
    by (simp add: s0_def on_event_def direct_publication_def dispatcher_start_def proxyUpdateSlidingWindow_def proxyUpdateMaxWindow_def)
  define s2 s3 where "s2 = s1\<lparr>d_now := 5 + 2 * second\<rparr>" and "s3 = s2\<lparr>d_slidingTimer := Fired\<rparr>"
  have "dispatcher_step s0 s1" by (rule dispatcher_step.receive [OF s1])
  note r1 = dispatcher_reaches_own [OF r0 this]
  have "dispatcher_step s1 s2" unfolding s2_def by (rule dispatcher_step.wait) (simp_all add: f1 second_def)
  note r2 = dispatcher_reaches_own [OF r1 this]
  have "dispatcher_step s2 s3" unfolding s3_def by (rule dispatcher_step.fire_sliding) (simp add: s2_def f1)
  note r3 = dispatcher_reaches_own [OF r2 this]
  obtain s4 where s4: "on_sliding (s3\<lparr>d_slidingTimer := Spent\<rparr>) = Some s4"
    and "d_published s4 = [(5 + 2 * second, Some sample_event, [(5, sample_event)])]" "d_batch s4 = []" "d_direct s4 = 1"
    by (simp add: on_sliding_def publish_def s3_def s2_def f1)
  moreover have "dispatcher_step s3 s4" by (rule dispatcher_step.sliding [OF _ s4]) (simp add: s3_def)
  ultimately show ?thesis using dispatcher_reaches_own [OF r3] by blast
qed

theorem dispatcher_batches_witness:
  "\<exists>st. dispatcher_reaches 5 st \<and> d_received st = [(5, sample_event)] \<and> d_published st = [(5 + 2 * second, Some sample_event, [(5, sample_event)])] \<and>
     totalDispatchedProxyEventCount (d_broker st) = 2"
proof -
  obtain st where st: "dispatcher_reaches 5 st" "d_published st = [(5 + 2 * second, Some sample_event, [(5, sample_event)])]" "d_batch st = []" "d_direct st = 1"
    using sample_dispatch by blast
  with dispatcher_batches [OF st(1)] show ?thesis by auto
qed

text \<open>C40. The dispatcher never gets stuck: in every reachable state it can take an event, and both timer
  branches run to their end when they are ready, so no drain of a timer channel ever blocks; and
  it has a next step other than taking an event.\<close>

theorem dispatcher_never_blocks:
  assumes "dispatcher_reaches t0 st"
  shows "on_event e st \<noteq> None \<and>
     (timer_receive (d_slidingTimer st) = Some read \<longrightarrow> on_sliding (st\<lparr>d_slidingTimer := read\<rparr>) \<noteq> None) \<and>
     (timer_receive (d_maxTimer st) = Some read \<longrightarrow> on_max (st\<lparr>d_maxTimer := read\<rparr>) \<noteq> None) \<and>
     (\<exists>st'. dispatcher_step st st' \<and> d_received st' = d_received st)"
proof -
  have inv: "dispatcher_inv t0 st" by (rule reaches_inv [OF assms])
  have "on_event e st \<noteq> None" using inv_event [OF inv, of e] by auto
  moreover have "timer_receive (d_slidingTimer st) = Some read \<longrightarrow> on_sliding (st\<lparr>d_slidingTimer := read\<rparr>) \<noteq> None"
    using inv_sliding [OF inv, of read] by auto
  moreover have "timer_receive (d_maxTimer st) = Some read \<longrightarrow> on_max (st\<lparr>d_maxTimer := read\<rparr>) \<noteq> None"
    using inv_max [OF inv, of read] by auto
  ultimately show ?thesis using inv_other_step [OF inv] by blast
qed

theorem dispatcher_never_blocks_witness:
  "on_event sample_event (dispatcher_start 5) \<noteq> None \<and>
     (\<exists>st'. dispatcher_step (dispatcher_start 5) st' \<and> d_received st' = d_received (dispatcher_start 5))"
proof -
  from dispatcher_never_blocks [OF dispatcher_reaches_start, where e = sample_event and read = Spent] show ?thesis by blast
qed

end
