(* ===== verification/MessageBroker.thy ===== *)
theory MessageBroker
  imports Dispatcher
begin

text \<open>
  The two routines of \<open>messaging/broker.go\<close> together: \<open>runWorkqueueProcessor\<close>, which takes items from the work queue and sends what
  \<open>processEvent\<close> sends for them, one thing after the other, and \<open>runProxyUpdateDispatcher\<close> of theory \<open>Dispatcher\<close>. They meet in the
  counters of the broker and in the channel \<open>proxyUpdateCh\<close>, which has no buffer: a send waits until the dispatcher receives.
\<close>

text \<open>\<open>mb_todo\<close> is what the queue processor has still to send for the item in its hands; \<open>mb_items\<close> and \<open>mb_out\<close> record
  the items it has taken and what it has sent.\<close>

record message_broker =
  mb_dispatcher :: dispatcher
  mb_todo :: "emission list"
  mb_items :: "queue_item list"
  mb_out :: "emission list"

definition NewBroker :: "nat \<Rightarrow> message_broker" where
  "NewBroker t = \<lparr>mb_dispatcher = dispatcher_start t, mb_todo = [], mb_items = [], mb_out = []\<rparr>"

text \<open>Sending one thing, with the count of a publication for a proxy.\<close>

definition emit :: "emission \<Rightarrow> dispatcher \<Rightarrow> dispatcher option" where
  "emit e st =
     (case e of
        ProxyPub msg topic \<Rightarrow> Some (direct_publication st)
      | ToDispatcher event \<Rightarrow> on_event event st
      | KubePub msg topic \<Rightarrow> Some st)"

inductive broker_step :: "message_broker \<Rightarrow> message_broker \<Rightarrow> bool" where
  take_item: "mb_todo s = [] \<Longrightarrow> processNextItem (Some item) (d_broker (mb_dispatcher s)) = (go_on, out, b) \<Longrightarrow>
    broker_step s (s\<lparr>mb_dispatcher := (mb_dispatcher s)\<lparr>d_broker := b\<rparr>, mb_todo := out, mb_items := mb_items s @ [item]\<rparr>)"
| send: "mb_todo s = e # rest \<Longrightarrow> emit e (mb_dispatcher s) = Some st \<Longrightarrow>
    broker_step s (s\<lparr>mb_dispatcher := st, mb_todo := rest, mb_out := mb_out s @ [e]\<rparr>)"
| dispatch: "dispatcher_step (mb_dispatcher s) st \<Longrightarrow> d_received st = d_received (mb_dispatcher s) \<Longrightarrow>
    broker_step s (s\<lparr>mb_dispatcher := st\<rparr>)"

definition broker_reaches :: "nat \<Rightarrow> message_broker \<Rightarrow> bool" where
  "broker_reaches t0 = broker_step\<^sup>*\<^sup>* (NewBroker t0)"

section \<open>The invariant\<close>

definition concerns_proxies :: "PubSubMessage \<Rightarrow> bool" where
  "concerns_proxies msg \<longleftrightarrow> (\<exists>topic. update_for msg topic)"

definition sent_so_far :: "message_broker \<Rightarrow> emission list list \<Rightarrow> bool" where
  "sent_so_far s outs \<longleftrightarrow> list_all2 sends (messages (mb_items s)) outs \<and> mb_out s @ mb_todo s = concat outs \<and>
     (mb_todo s = [] \<or> (\<exists>before. last outs = before @ mb_todo s))"

definition broker_inv :: "nat \<Rightarrow> message_broker \<Rightarrow> bool" where
  "broker_inv t0 s \<longleftrightarrow> dispatcher_inv t0 (mb_dispatcher s) \<and> (\<exists>outs. sent_so_far s outs) \<and>
     map snd (d_received (mb_dispatcher s)) = dispatched (mb_out s) \<and> d_direct (mb_dispatcher s) = length (proxy_pubs (mb_out s)) \<and>
     totalQEventCount (d_broker (mb_dispatcher s)) = of_nat (length (mb_items s)) \<and>
     totalQProxyEventCount (d_broker (mb_dispatcher s)) = of_nat (length (filter concerns_proxies (messages (mb_items s))))"

text \<open>What a step of the dispatcher leaves alone.\<close>

definition queue_counters :: "dispatcher \<Rightarrow> uint64 \<times> uint64 \<times> nat" where
  "queue_counters st = (totalQEventCount (d_broker st), totalQProxyEventCount (d_broker st), d_direct st)"

lemma on_event_frame: "on_event e st = Some st' \<Longrightarrow> d_received st' = d_received st @ [(d_now st, e)] \<and> queue_counters st' = queue_counters st"
  by (auto simp: on_event_def queue_counters_def Let_def split: option.splits if_splits)

lemma publish_frame: "queue_counters (publish st) = queue_counters st"
  by (simp add: publish_def queue_counters_def count_dispatched_def)

lemma dispatcher_step_frame: "dispatcher_step st st' \<Longrightarrow> queue_counters st' = queue_counters st"
  by (erule dispatcher_step.cases)
    (auto simp: on_sliding_def on_max_def publish_frame dest: on_event_frame, auto simp: queue_counters_def)

lemma sent_so_far_take:
  assumes "sent_so_far s outs" and "mb_todo s = []" and "processNextItem (Some item) b = (go_on, out, b')"
  shows "\<exists>outs'. sent_so_far (s\<lparr>mb_dispatcher := st, mb_todo := out, mb_items := mb_items s @ [item]\<rparr>) outs'"
proof (cases item)
  case (MessageItem msg)
  with processNextItem_message assms(3) have "sends msg out" by blast
  with assms(1,2) MessageItem show ?thesis
    by (intro exI [of _ "outs @ [out]"]) (simp add: sent_so_far_def list_all2_appendI)
next
  case OtherItem
  with processNextItem_other assms(3) have "out = []" by blast
  with assms(1,2) OtherItem show ?thesis by (intro exI [of _ outs]) (simp add: sent_so_far_def)
qed

lemma inv_take:
  assumes "broker_inv t0 s" and "mb_todo s = []" and "processNextItem (Some item) (d_broker (mb_dispatcher s)) = (go_on, out, b)"
  shows "broker_inv t0 (s\<lparr>mb_dispatcher := (mb_dispatcher s)\<lparr>d_broker := b\<rparr>, mb_todo := out, mb_items := mb_items s @ [item]\<rparr>)"
proof -
  have counters: "totalDispatchedProxyEventCount b = totalDispatchedProxyEventCount (d_broker (mb_dispatcher s))"
    "totalQEventCount b = totalQEventCount (d_broker (mb_dispatcher s)) + 1"
    "totalQProxyEventCount b = totalQProxyEventCount (d_broker (mb_dispatcher s)) + of_nat (length (filter concerns_proxies (messages [item])))"
    using processNextItem_message [of _ "d_broker (mb_dispatcher s)" go_on out b] processNextItem_other [of "d_broker (mb_dispatcher s)" go_on out b] assms(3)
    by (cases item; simp add: concerns_proxies_def messages_def List.map_filter_def)+
  have "dispatcher_inv t0 ((mb_dispatcher s)\<lparr>d_broker := b\<rparr>)"
    using inv_queue_step [OF queue_counts [OF counters(1)]] assms(1) by (simp add: broker_inv_def)
  moreover have "messages (mb_items s @ [item]) = messages (mb_items s) @ messages [item]"
    by (simp add: messages_def List.map_filter_def)
  ultimately show ?thesis
    using assms(1) sent_so_far_take [OF _ assms(2,3)] counters(2,3) by (auto simp: broker_inv_def)
qed

lemma emit_frame:
  assumes "dispatcher_inv t0 st" and "emit e st = Some st'"
  shows "dispatcher_inv t0 st' \<and> d_broker st' = (case e of ProxyPub msg topic \<Rightarrow> count_dispatched (d_broker st) | _ \<Rightarrow> d_broker st) \<and>
     map snd (d_received st') = map snd (d_received st) @ dispatched [e] \<and> d_direct st' = d_direct st + length (proxy_pubs [e])"
proof (cases e)
  case (ProxyPub msg topic)
  with assms inv_queue_step [OF queue_publishes assms(1)] show ?thesis by (auto simp: emit_def direct_publication_def)
next
  case (ToDispatcher event)
  with assms(2) have run: "on_event event st = Some st'" by (simp add: emit_def)
  moreover have "dispatcher_inv t0 st'" using inv_event [OF assms(1), of event] run by simp
  moreover have "d_broker st' = d_broker st" using run by (auto simp: on_event_def Let_def split: option.splits if_splits)
  ultimately show ?thesis using on_event_frame [OF run] by (simp add: ToDispatcher queue_counters_def)
qed (use assms in \<open>auto simp: emit_def\<close>)

lemma inv_send:
  assumes "broker_inv t0 s" and "mb_todo s = e # rest" and "emit e (mb_dispatcher s) = Some st"
  shows "broker_inv t0 (s\<lparr>mb_dispatcher := st, mb_todo := rest, mb_out := mb_out s @ [e]\<rparr>)"
proof -
  obtain outs where outs: "sent_so_far s outs" using assms(1) by (auto simp: broker_inv_def)
  then have "sent_so_far (s\<lparr>mb_dispatcher := st, mb_todo := rest, mb_out := mb_out s @ [e]\<rparr>) outs"
    using assms(2) by (auto simp: sent_so_far_def intro: exI [of _ "_ @ [e]"])
  moreover have "dispatcher_inv t0 (mb_dispatcher s)" using assms(1) by (simp add: broker_inv_def)
  note emit_frame [OF this assms(3)]
  ultimately show ?thesis using assms(1) by (auto simp: broker_inv_def count_dispatched_def split: emission.splits)
qed

lemma inv_broker_step: "broker_step s s' \<Longrightarrow> broker_inv t0 s \<Longrightarrow> broker_inv t0 s'"
proof (induction rule: broker_step.induct)
  case (take_item s item go_on out b)
  then show ?case by (intro inv_take)
next
  case (send s e rest st)
  then show ?case by (intro inv_send)
next
  case (dispatch s st)
  have "dispatcher_inv t0 st" using dispatch by (auto simp: broker_inv_def intro: inv_step)
  with dispatch dispatcher_step_frame [OF dispatch(1)] show ?case by (auto simp: broker_inv_def sent_so_far_def queue_counters_def)
qed

lemma inv_NewBroker: "broker_inv t0 (NewBroker t0)"
proof -
  have "sent_so_far (NewBroker t0) []" by (simp add: sent_so_far_def NewBroker_def)
  then show ?thesis using inv_start [of t0]
    by (auto simp: broker_inv_def NewBroker_def dispatcher_start_def Broker_zero_def)
qed

interpretation broker: step_invariant broker_step "broker_inv t0" for t0
  by unfold_locales (rule inv_broker_step)

lemma broker_reaches_inv: "broker_reaches t0 s \<Longrightarrow> broker_inv t0 s"
  unfolding broker_reaches_def by (rule broker.reachable_inv [OF _ inv_NewBroker])

section \<open>Properties\<close>


text \<open>Two items: a pod whose scraping is switched on, and a new endpoint.\<close>

definition sample_switch :: PubSubMessage where
  "sample_switch = \<lparr>psm_Kind = PodUpdated, psm_OldObj = PodObject (sample_pod ''false''), psm_NewObj = PodObject (sample_pod ''true'')\<rparr>"

definition sample_addition :: PubSubMessage where
  "sample_addition = \<lparr>psm_Kind = EndpointAdded, psm_OldObj = NilObject, psm_NewObj = OtherObject (Some ''shop'')\<rparr>"

lemma broker_reaches_step: "broker_reaches t0 s \<Longrightarrow> broker_step s s' \<Longrightarrow> broker_reaches t0 s'"
  unfolding broker_reaches_def by (rule rtranclp.rtrancl_into_rtrancl)

text \<open>An item with two parts to send, both of which can be sent at once.\<close>

lemma broker_reaches_item:
  assumes "broker_reaches t0 s" and "mb_todo s = []" and "processNextItem (Some item) (d_broker (mb_dispatcher s)) = (go_on, [e1, e2], b)"
    and "emit e1 ((mb_dispatcher s)\<lparr>d_broker := b\<rparr>) = Some st1" and "emit e2 st1 = Some st2"
  shows "broker_reaches t0 \<lparr>mb_dispatcher = st2, mb_todo = [], mb_items = mb_items s @ [item], mb_out = mb_out s @ [e1, e2]\<rparr>"
proof -
  define s1 where "s1 = s\<lparr>mb_dispatcher := (mb_dispatcher s)\<lparr>d_broker := b\<rparr>, mb_todo := [e1, e2], mb_items := mb_items s @ [item]\<rparr>"
  define s2 where "s2 = s1\<lparr>mb_dispatcher := st1, mb_todo := [e2], mb_out := mb_out s1 @ [e1]\<rparr>"
  have "broker_reaches t0 s1" unfolding s1_def by (rule broker_reaches_step [OF assms(1) take_item [OF assms(2,3)]])
  moreover have "broker_step s1 s2" unfolding s2_def by (rule send) (simp_all add: s1_def assms(4))
  ultimately have "broker_reaches t0 s2" by (rule broker_reaches_step)
  moreover have "broker_step s2 (s2\<lparr>mb_dispatcher := st2, mb_todo := [], mb_out := mb_out s2 @ [e2]\<rparr>)"
    by (rule send) (simp_all add: s2_def assms(5))
  ultimately have "broker_reaches t0 (s2\<lparr>mb_dispatcher := st2, mb_todo := [], mb_out := mb_out s2 @ [e2]\<rparr>)" by (rule broker_reaches_step)
  then show ?thesis by (cases s) (simp add: s2_def s1_def)
qed

lemma sample_processing:
  "processNextItem (Some (MessageItem sample_switch)) b = (True, [ProxyPub sample_switch ''proxy:uid-7'', KubePub sample_switch ''pod-updated''],
     b\<lparr>totalQEventCount := totalQEventCount b + 1, totalQProxyEventCount := totalQProxyEventCount b + 1\<rparr>)"
  "processNextItem (Some (MessageItem sample_addition)) b = (True, [ToDispatcher sample_event, KubePub sample_addition ''endpoint-added''],
     b\<lparr>totalQEventCount := totalQEventCount b + 1, totalQProxyEventCount := totalQProxyEventCount b + 1\<rparr>)"
  by (simp_all add: processNextItem_def processEvent_def sample_switch_def sample_addition_def sample_event_def getProxyUpdateEvent_def broadcast_kinds_def
      broadcast_def pod_event_def metric_annotation_def sample_pod_def gmap_get_def GetPubSubTopicForProxyUUID_def)

lemma sample_broker:
  "\<exists>s. broker_reaches 5 s \<and> mb_items s = [MessageItem sample_switch, MessageItem sample_addition] \<and> mb_todo s = [] \<and>
     d_published (mb_dispatcher s) = [] \<and> proxy_pubs (mb_out s) = [(sample_switch, ''proxy:uid-7'')] \<and> dispatched (mb_out s) = [sample_event]"
proof -
  have r0: "broker_reaches 5 (NewBroker 5)" by (simp add: broker_reaches_def)
  obtain st where st: "emit (ProxyPub sample_switch ''proxy:uid-7'') ((dispatcher_start 5)\<lparr>d_broker := Broker_zero
      \<lparr>totalQEventCount := totalQEventCount Broker_zero + 1, totalQProxyEventCount := totalQProxyEventCount Broker_zero + 1\<rparr>\<rparr>) = Some st"
    "d_published st = []" "d_slidingTimer st = Armed (5 + noTimeout)" "d_maxTimer st = Armed (5 + noTimeout)"
    by (simp add: emit_def direct_publication_def dispatcher_start_def)
  define s1 where "s1 = \<lparr>mb_dispatcher = st, mb_todo = [], mb_items = [MessageItem sample_switch],
      mb_out = [ProxyPub sample_switch ''proxy:uid-7'', KubePub sample_switch ''pod-updated'']\<rparr>"
  have b0: "mb_dispatcher (NewBroker 5) = dispatcher_start 5" "d_broker (dispatcher_start 5) = Broker_zero" "mb_todo (NewBroker 5) = []"
    "mb_items (NewBroker 5) = []" "mb_out (NewBroker 5) = []"
    by (simp_all add: NewBroker_def dispatcher_start_def)
  have r1: "broker_reaches 5 s1"
    using broker_reaches_item [OF r0 b0(3) sample_processing(1), unfolded b0, OF st(1)] by (simp add: s1_def emit_def)
  define st' where "st' = st\<lparr>d_broker := (d_broker st)\<lparr>totalQEventCount := totalQEventCount (d_broker st) + 1,
      totalQProxyEventCount := totalQProxyEventCount (d_broker st) + 1\<rparr>\<rparr>"
  have "\<exists>st2. on_event sample_event st' = Some st2 \<and> d_published st2 = []" by (auto simp: st'_def on_event_def st Let_def)
  then obtain st2 where st2: "emit (ToDispatcher sample_event) st' = Some st2" "d_published st2 = []" by (auto simp: emit_def)
  have b1: "mb_dispatcher s1 = st" "mb_todo s1 = []" by (simp_all add: s1_def)
  have "broker_reaches 5 \<lparr>mb_dispatcher = st2, mb_todo = [], mb_items = mb_items s1 @ [MessageItem sample_addition],
      mb_out = mb_out s1 @ [ToDispatcher sample_event, KubePub sample_addition ''endpoint-added'']\<rparr>"
    by (rule broker_reaches_item [OF r1 b1(2) sample_processing(2)]) (simp_all add: b1 st2(1) [unfolded st'_def emit_def emission.case] emit_def)
  with st2(2) show ?thesis by (auto simp: s1_def)
qed


end
