(* ===== verification/DataPlane.thy ===== *)
theory DataPlane
  imports Catalog Configurator
begin

text \<open>
  \<open>pkg/ecnet/bridge/dataplane\<close>: the node's bridge server, which keeps two kernel maps up to date: the DNS
  names that the bridge answers, and the addresses of the DNS service's endpoints. The kernel maps
  and the packing of domain names (\<open>dns.PackDomainName\<close>) belong to libraries: they are parameters. The
  errors of map operations are only logged, so an operation is a function on the kernel's state.
\<close>

section \<open>helpers/addr.go: the address of the bridge\<close>

datatype net_addr = IPNetAddr ip | OtherAddr

record net_iface =
  if_up :: bool
  if_name :: string
  if_addrs :: "net_addr list option"

definition is_loopback :: "ip \<Rightarrow> bool" where
  "is_loopback p = (case to4 p of Some p4 \<Rightarrow> p4 ! 0 = 127 | None \<Rightarrow> p = replicate 15 0 @ [1])"

definition be_uint32 :: "nat list \<Rightarrow> uint32" where
  "be_uint32 b = word_of_nat (((b ! 0 * 256 + b ! 1) * 256 + b ! 2) * 256 + b ! 3)"

record bridge_ip =
  bridgeIPInt :: uint32
  bridgeIPAddr :: "nat list option"

text \<open>The loop over the addresses of an interface; the result says whether an IPv4 address was found.\<close>

fun scan_addrs :: "net_addr list \<Rightarrow> bridge_ip \<Rightarrow> bool \<times> bridge_ip" where
  "scan_addrs [] b = (False, b)"
| "scan_addrs (OtherAddr # addrs) b = scan_addrs addrs b"
| "scan_addrs (IPNetAddr p # addrs) b =
     (if is_loopback p then scan_addrs addrs b
      else case to4 p of
        None \<Rightarrow> scan_addrs addrs (b\<lparr>bridgeIPAddr := None\<rparr>)
      | Some p4 \<Rightarrow> (True, b\<lparr>bridgeIPAddr := Some p4, bridgeIPInt := be_uint32 p4\<rparr>))"

definition bridge_iface :: "string \<Rightarrow> net_iface \<Rightarrow> bool" where
  "bridge_iface bridgeEth iface \<longleftrightarrow> if_up iface \<and> has_prefix (if_name iface) bridgeEth"

text \<open>\<open>None\<close> interfaces stand for an error of \<open>net.Interfaces\<close>; the first component says whether the call succeeded.\<close>

definition waitBridgeIP :: "string \<Rightarrow> net_iface list option \<Rightarrow> bridge_ip \<Rightarrow> bool \<times> bridge_ip" where
  "waitBridgeIP bridgeEth interfaces b =
     (if bridgeIPInt b \<noteq> 0 then (True, b)
      else case interfaces of
        None \<Rightarrow> (False, b)
      | Some ifaces \<Rightarrow>
          (case find (bridge_iface bridgeEth) ifaces of
             None \<Rightarrow> (False, b)
           | Some iface \<Rightarrow> (case if_addrs iface of None \<Rightarrow> (False, b) | Some addrs \<Rightarrow> scan_addrs addrs b)))"

text \<open>The loop of \<open>GetBridgeIP\<close> over what the interfaces are at each try; \<open>None\<close> when it has not returned yet.\<close>

fun GetBridgeIP :: "string \<Rightarrow> net_iface list option list \<Rightarrow> bridge_ip \<Rightarrow> bridge_ip option" where
  "GetBridgeIP bridgeEth [] b = None"
| "GetBridgeIP bridgeEth (interfaces # later) b =
     (let (ok, b) = waitBridgeIP bridgeEth interfaces b in
      if ok \<and> 0 < bridgeIPInt b then Some b else GetBridgeIP bridgeEth later b)"

section \<open>helpers/map.go: the kernel maps\<close>

definition dns_TypeA :: uint16 where "dns_TypeA = 1"

definition dns_TypeAAAA :: uint16 where "dns_TypeAAAA = 28"

definition dns_ClassINET :: uint16 where "dns_ClassINET = 1"

record dnsQuery =
  dq_QType :: uint16
  dq_QClass :: uint16
  dq_Name :: "nat list"

record aRecord =
  ar_Addr :: uint32
  ar_TTL :: uint32

text \<open>A pointer into an address is the address it points to, or nil. \<open>kn_pack\<close> gives the packed name, or
  \<open>None\<close> for an error.\<close>

record 'k kernel =
  kn_pack :: "string \<Rightarrow> nat list option"
  kn_update_resolve :: "dnsQuery \<Rightarrow> aRecord \<Rightarrow> 'k \<Rightarrow> 'k"
  kn_delete_resolve :: "dnsQuery \<Rightarrow> 'k \<Rightarrow> 'k"
  kn_update_endpoint :: "nat list option \<Rightarrow> nat list option \<Rightarrow> 'k \<Rightarrow> 'k"
  kn_delete_endpoint :: "nat list option \<Rightarrow> 'k \<Rightarrow> 'k"

definition dns_query :: "uint16 \<Rightarrow> nat list \<Rightarrow> dnsQuery" where
  "dns_query qType n = \<lparr>dq_QType = qType, dq_QClass = dns_ClassINET, dq_Name = n\<rparr>"

definition UpdateDNSResolveEntry :: "'k kernel \<Rightarrow> bridge_ip \<Rightarrow> string \<Rightarrow> uint32 \<Rightarrow> 'k \<Rightarrow> 'k" where
  "UpdateDNSResolveEntry kn b name ttl =
     fold (\<lambda>qType k. case kn_pack kn (name @ ''.'') of
         None \<Rightarrow> k
       | Some n \<Rightarrow> kn_update_resolve kn (dns_query qType n) \<lparr>ar_Addr = bridgeIPInt b, ar_TTL = ttl\<rparr> k)
       [dns_TypeA, dns_TypeAAAA]"

definition DeleteDNSResolveEntry :: "'k kernel \<Rightarrow> string \<Rightarrow> 'k \<Rightarrow> 'k" where
  "DeleteDNSResolveEntry kn name =
     fold (\<lambda>qType k. case kn_pack kn name of
         None \<Rightarrow> k
       | Some n \<Rightarrow> kn_delete_resolve kn (dns_query qType n) k)
       [dns_TypeA, dns_TypeAAAA]"

text \<open>An address that does not parse gives a nil pointer, an IPv6 address an index out of range.\<close>

definition ip2ptr :: "string \<Rightarrow> nat list option outcome" where
  "ip2ptr ipstr =
     (case parse_ip ipstr of
        None \<Rightarrow> Returns None
      | Some p \<Rightarrow> (case to4 p of None \<Rightarrow> Panics | Some p4 \<Rightarrow> Returns (Some p4)))"

definition UpdateDNSEndpointEntry :: "'k kernel \<Rightarrow> string \<Rightarrow> string \<Rightarrow> 'k \<Rightarrow> 'k outcome" where
  "UpdateDNSEndpointEntry kn dnsEndpointIP dnsClusterIP k =
     outcome_bind (ip2ptr dnsEndpointIP) (\<lambda>dnsEIPPtr.
     outcome_bind (ip2ptr dnsClusterIP) (\<lambda>dnsCIPPtr. Returns (kn_update_endpoint kn dnsEIPPtr dnsCIPPtr k)))"

definition DeleteDNSEndpointEntry :: "'k kernel \<Rightarrow> string \<Rightarrow> 'k \<Rightarrow> 'k outcome" where
  "DeleteDNSEndpointEntry kn dnsEndpointIP k =
     outcome_bind (ip2ptr dnsEndpointIP) (\<lambda>dnsEIPPtr. Returns (kn_delete_endpoint kn dnsEIPPtr k))"

section \<open>server/jobs.go: the job of the bridge\<close>

definition dns_service :: "configurator_Client \<Rightarrow> MeshService" where
  "dns_service cfg =
     (let dns = ecs_DNS (ec_Spec (GetEcnetConfig cfg)) in
      MeshService_zero\<lparr>ms_Namespace := dns_Namespace dns, ms_Name := dns_Name dns, ms_Port := dns_Port dns,
        ms_Protocol := dns_Protocol dns\<rparr>)"

definition add_dns_address :: "Service option \<Rightarrow> MeshService \<Rightarrow> EndpointAddress \<Rightarrow> (string, string) gomap \<Rightarrow> (string, string) gomap outcome" where
  "add_dns_address svc dnsSvc address latestEndpointsMap =
     (if Subdomain dnsSvc \<noteq> [] \<and> Subdomain dnsSvc \<noteq> ea_Hostname address then Returns latestEndpointsMap
      else case parse_ip (ea_IP address) of
        None \<Rightarrow> Returns latestEndpointsMap
      | Some _ \<Rightarrow> (case svc of
            None \<Rightarrow> Panics
          | Some s \<Rightarrow> Returns (gmap_put latestEndpointsMap (ea_IP address) (svc_ClusterIP s))))"

definition latest_dns_endpoints :: "Service option \<Rightarrow> MeshService \<Rightarrow> EndpointSubset list \<Rightarrow> (string, string) gomap outcome" where
  "latest_dns_endpoints svc dnsSvc subsets =
     outcome_fold (\<lambda>dnsEndpoint. outcome_fold (\<lambda>port m.
         if ep_Port port \<noteq> uint (ms_Port dnsSvc) then Returns m
         else outcome_fold (add_dns_address svc dnsSvc) (es_Addresses dnsEndpoint) m) (es_Ports dnsEndpoint))
       subsets gmap_empty"

definition update_dns_endpoint ::
  "'k kernel \<Rightarrow> string \<times> string \<Rightarrow> (string, string) gomap \<times> 'k \<Rightarrow> ((string, string) gomap \<times> 'k) outcome" where
  "update_dns_endpoint kn entry s =
     (let (eip, cip) = entry; (dnsEndpointsMap, k) = s in
      case gmap_get dnsEndpointsMap eip of
        None \<Rightarrow> outcome_bind (UpdateDNSEndpointEntry kn eip cip k) (\<lambda>k. Returns (dnsEndpointsMap, k))
      | Some pcip \<Rightarrow>
          if \<not> equal_fold cip pcip
          then outcome_bind (UpdateDNSEndpointEntry kn eip cip k) (\<lambda>k. Returns (gmap_put dnsEndpointsMap eip cip, k))
          else Returns (dnsEndpointsMap, k))"

definition forget_dns_endpoint ::
  "'k kernel \<Rightarrow> (string, string) gomap \<Rightarrow> string \<times> string \<Rightarrow> (string, string) gomap \<times> 'k \<Rightarrow> ((string, string) gomap \<times> 'k) outcome" where
  "forget_dns_endpoint kn latestEndpointsMap entry s =
     (let (eip, _) = entry; (dnsEndpointsMap, k) = s in
      if gmap_get latestEndpointsMap eip = None
      then outcome_bind (DeleteDNSEndpointEntry kn eip k) (\<lambda>k. Returns (gmap_delete dnsEndpointsMap eip, k))
      else Returns (dnsEndpointsMap, k))"

definition syncDNSEndpoints ::
  "'k kernel \<Rightarrow> InformerCollection \<Rightarrow> configurator_Client \<Rightarrow> (string, string) gomap \<times> 'k \<Rightarrow> ((string, string) gomap \<times> 'k) outcome" where
  "syncDNSEndpoints kn ic cfg s =
     (let dnsSvc = dns_service cfg; svc = k8s_GetService ic dnsSvc in
      case k8s_GetEndpoints ic dnsSvc of
        Inl _ \<Rightarrow> Returns s
      | Inr None \<Rightarrow> Panics
      | Inr (Some dnsEndpoints) \<Rightarrow>
          outcome_bind (latest_dns_endpoints svc dnsSvc (eps_Subsets dnsEndpoints)) (\<lambda>latestEndpointsMap.
          outcome_bind (outcome_fold (update_dns_endpoint kn) (entries latestEndpointsMap) s) (\<lambda>s.
          outcome_fold (forget_dns_endpoint kn latestEndpointsMap) (entries (fst s)) s)))"

definition latest_resolves :: "OutboundMeshTrafficPolicy \<Rightarrow> (string, uint8) gomap" where
  "latest_resolves outboundTrafficPolicy =
     fold (\<lambda>(_, policies). fold (\<lambda>policy. fold (\<lambda>hostname m.
         if contains_char hostname (CHR '':'') then m else gmap_put m hostname 0) (otp_Hostnames policy)) policies)
       (entries (omtp_HTTPRouteConfigsPerPort outboundTrafficPolicy)) gmap_empty"

definition add_resolve ::
  "'k kernel \<Rightarrow> bridge_ip \<Rightarrow> string \<Rightarrow> (string, uint8) gomap \<times> 'k \<Rightarrow> (string, uint8) gomap \<times> 'k" where
  "add_resolve kn b hostname s =
     (let (dnsResolvesMap, k) = s in
      if gmap_get dnsResolvesMap hostname = None
      then (gmap_put dnsResolvesMap hostname 1, UpdateDNSResolveEntry kn b hostname 60 k) else s)"

definition forget_resolve ::
  "'k kernel \<Rightarrow> (string, uint8) gomap \<Rightarrow> string \<Rightarrow> (string, uint8) gomap \<times> 'k \<Rightarrow> (string, uint8) gomap \<times> 'k" where
  "forget_resolve kn latestResolvesMap hostname s =
     (let (dnsResolvesMap, k) = s in
      if gmap_get latestResolvesMap hostname = None
      then (gmap_delete dnsResolvesMap hostname, DeleteDNSResolveEntry kn hostname k) else s)"

definition syncDNSResolves ::
  "'k kernel \<Rightarrow> bridge_ip \<Rightarrow> OutboundMeshTrafficPolicy \<Rightarrow> (string, uint8) gomap \<times> 'k \<Rightarrow> (string, uint8) gomap \<times> 'k" where
  "syncDNSResolves kn b outboundTrafficPolicy s =
     (if length (entries (omtp_HTTPRouteConfigsPerPort outboundTrafficPolicy)) = 0 then s
      else
        let latestResolvesMap = latest_resolves outboundTrafficPolicy;
            s = fold (add_resolve kn b) (map fst (entries latestResolvesMap)) s
        in fold (forget_resolve kn latestResolvesMap) (map fst (entries (fst s))) s)"

text \<open>The state of the bridge: its two records of what it put into the kernel, and the kernel maps.\<close>

record 'k bridge =
  br_dnsEndpoints :: "(string, string) gomap"
  br_dnsResolves :: "(string, uint8) gomap"
  br_kernel :: 'k

definition NewBridgeServer :: "'k \<Rightarrow> 'k bridge" where
  "NewBridgeServer k = \<lparr>br_dnsEndpoints = gmap_empty, br_dnsResolves = gmap_empty, br_kernel = k\<rparr>"

definition BridgeRun ::
  "'k kernel \<Rightarrow> bridge_ip \<Rightarrow> string \<Rightarrow> configurator_Client \<Rightarrow> InformerCollection \<Rightarrow> 'k bridge \<Rightarrow> 'k bridge outcome" where
  "BridgeRun kn b trustDomain cfg ic s =
     outcome_bind (syncDNSEndpoints kn ic cfg (br_dnsEndpoints s, br_kernel s)) (\<lambda>(endpoints, k).
       let (resolves, k) = syncDNSResolves kn b (GetOutboundMeshTrafficPolicy trustDomain (NewMeshCatalog ic)) (br_dnsResolves s, k)
       in Returns \<lparr>br_dnsEndpoints = endpoints, br_dnsResolves = resolves, br_kernel = k\<rparr>)"

text \<open>The jobs one after the other, each on the cluster as it is when it runs.\<close>

definition bridge_runs ::
  "'k kernel \<Rightarrow> bridge_ip \<Rightarrow> string \<Rightarrow> (configurator_Client \<times> InformerCollection) list \<Rightarrow> 'k bridge \<Rightarrow> 'k bridge outcome" where
  "bridge_runs kn b trustDomain = outcome_fold (\<lambda>(cfg, ic). BridgeRun kn b trustDomain cfg ic)"

section \<open>What stays in the kernel\<close>

text \<open>The contract of the libraries: an operation on a kernel map does what it says or fails and changes nothing,
  an operation through a nil pointer fails, and a name that is not empty and not fully qualified cannot be packed. (The maps
  are assumed not to be full: a full map would evict old entries.)
  \<open>lookupR\<close> and \<open>lookupE\<close> read the two maps.\<close>

definition kernel_contract :: "'k kernel \<Rightarrow> ('k \<Rightarrow> dnsQuery \<Rightarrow> aRecord option) \<Rightarrow> ('k \<Rightarrow> nat list \<Rightarrow> nat list option) \<Rightarrow> bool" where
  "kernel_contract kn lookupR lookupE \<longleftrightarrow>
     (\<forall>q r k. lookupR (kn_update_resolve kn q r k) \<in> {lookupR k, (lookupR k)(q \<mapsto> r)} \<and> lookupE (kn_update_resolve kn q r k) = lookupE k) \<and>
     (\<forall>q k. lookupR (kn_delete_resolve kn q k) \<in> {lookupR k, (lookupR k)(q := None)} \<and> lookupE (kn_delete_resolve kn q k) = lookupE k) \<and>
     (\<forall>p v k. lookupR (kn_update_endpoint kn p v k) = lookupR k \<and>
        lookupE (kn_update_endpoint kn p v k) \<in> {lookupE k} \<union> (case (p, v) of (Some e, Some c) \<Rightarrow> {(lookupE k)(e \<mapsto> c)} | _ \<Rightarrow> {})) \<and>
     (\<forall>p k. lookupR (kn_delete_endpoint kn p k) = lookupR k \<and>
        lookupE (kn_delete_endpoint kn p k) \<in> {lookupE k} \<union> (case p of Some e \<Rightarrow> {(lookupE k)(e := None)} | None \<Rightarrow> {})) \<and>
     (\<forall>name. name \<noteq> [] \<longrightarrow> \<not> has_suffix name ''.'' \<longrightarrow> kn_pack kn name = None)"

definition plain_name :: "string \<Rightarrow> bool" where
  "plain_name h \<longleftrightarrow> h \<noteq> [] \<and> \<not> has_suffix h ''.''"

text \<open>Nothing is removed, and entries with the bridge's answer keep it.\<close>

definition kernel_grows ::
  "('k \<Rightarrow> dnsQuery \<Rightarrow> aRecord option) \<Rightarrow> ('k \<Rightarrow> nat list \<Rightarrow> nat list option) \<Rightarrow> aRecord \<Rightarrow> 'k \<Rightarrow> 'k \<Rightarrow> bool" where
  "kernel_grows lookupR lookupE r k k' \<longleftrightarrow>
     dom (lookupR k) \<subseteq> dom (lookupR k') \<and> dom (lookupE k) \<subseteq> dom (lookupE k') \<and>
     (\<forall>q. lookupR k q = Some r \<longrightarrow> lookupR k' q = Some r)"

lemma kernel_grows_refl [simp]: "kernel_grows lookupR lookupE r k k"
  by (simp add: kernel_grows_def)

lemma kernel_grows_trans:
  "kernel_grows lookupR lookupE r k1 k2 \<Longrightarrow> kernel_grows lookupR lookupE r k2 k3 \<Longrightarrow> kernel_grows lookupR lookupE r k1 k3"
  unfolding kernel_grows_def by blast

abbreviation bridge_answer :: "bridge_ip \<Rightarrow> aRecord" where
  "bridge_answer b \<equiv> \<lparr>ar_Addr = bridgeIPInt b, ar_TTL = 60\<rparr>"

lemma update_resolve_grows:
  assumes "kernel_contract kn lookupR lookupE"
  shows "kernel_grows lookupR lookupE r k (kn_update_resolve kn q r k)"
proof -
  have "lookupR (kn_update_resolve kn q r k) \<in> {lookupR k, (lookupR k)(q \<mapsto> r)}" "lookupE (kn_update_resolve kn q r k) = lookupE k"
    using assms unfolding kernel_contract_def by blast+
  then show ?thesis by (auto simp: kernel_grows_def)
qed

lemma UpdateDNSResolveEntry_grows:
  assumes "kernel_contract kn lookupR lookupE"
  shows "kernel_grows lookupR lookupE (bridge_answer b) k (UpdateDNSResolveEntry kn b name 60 k)"
proof (cases "kn_pack kn (name @ ''.'')")
  case None
  then show ?thesis by (simp add: UpdateDNSResolveEntry_def)
next
  case (Some n)
  then show ?thesis
    using kernel_grows_trans [OF update_resolve_grows [OF assms] update_resolve_grows [OF assms], of "bridge_answer b" k "dns_query dns_TypeAAAA n"]
    by (simp add: UpdateDNSResolveEntry_def)
qed

lemma DeleteDNSResolveEntry_nothing:
  assumes "kernel_contract kn lookupR lookupE" and "plain_name name"
  shows "DeleteDNSResolveEntry kn name k = k"
proof -
  have "kn_pack kn name = None" using assms unfolding kernel_contract_def plain_name_def by blast
  then show ?thesis by (simp add: DeleteDNSResolveEntry_def)
qed

lemma UpdateDNSEndpointEntry_grows:
  assumes "kernel_contract kn lookupR lookupE" and "UpdateDNSEndpointEntry kn eip cip k = Returns k'"
  shows "kernel_grows lookupR lookupE r k k'"
proof -
  obtain p v where k': "k' = kn_update_endpoint kn p v k" using assms(2) by (auto simp: UpdateDNSEndpointEntry_def outcome_bind_Returns)
  have "lookupR k' = lookupR k" "lookupE k' \<in> {lookupE k} \<union> (case (p, v) of (Some e, Some c) \<Rightarrow> {(lookupE k)(e \<mapsto> c)} | _ \<Rightarrow> {})"
    using assms(1) unfolding kernel_contract_def k' by blast+
  then show ?thesis by (auto simp: kernel_grows_def split: option.splits)
qed

section \<open>The endpoints of the DNS service\<close>

text \<open>The record of endpoints starts empty and is only written where it already has an entry.\<close>

lemma update_dns_endpoint_empty:
  assumes "kernel_contract kn lookupR lookupE" and "update_dns_endpoint kn entry (gmap_empty, k) = Returns (m, k')"
  shows "m = gmap_empty \<and> kernel_grows lookupR lookupE r k k'"
proof -
  have up: "UpdateDNSEndpointEntry kn (fst entry) (snd entry) k = Returns k'" and m: "m = gmap_empty"
    using assms(2) by (auto simp: update_dns_endpoint_def gmap_get_def outcome_bind_Returns case_prod_beta)
  from UpdateDNSEndpointEntry_grows [OF assms(1) up] m show ?thesis by simp
qed

lemma update_dns_endpoints_empty:
  assumes "kernel_contract kn lookupR lookupE" and "outcome_fold (update_dns_endpoint kn) es (gmap_empty, k) = Returns (m, k')"
  shows "m = gmap_empty \<and> kernel_grows lookupR lookupE r k k'"
  using assms(2)
proof (induction es arbitrary: k)
  case (Cons e es)
  then obtain m1 k1 where one: "update_dns_endpoint kn e (gmap_empty, k) = Returns (m1, k1)"
    and rest: "outcome_fold (update_dns_endpoint kn) es (m1, k1) = Returns (m, k')"
    by (auto simp: outcome_bind_Returns)
  note step = update_dns_endpoint_empty [OF assms(1) one, of r]
  with rest have "outcome_fold (update_dns_endpoint kn) es (gmap_empty, k1) = Returns (m, k')" by simp
  from Cons.IH [OF this] step kernel_grows_trans [of lookupR lookupE r k k1 k'] show ?case by simp
qed simp

lemma syncDNSEndpoints_empty:
  assumes "kernel_contract kn lookupR lookupE" and "syncDNSEndpoints kn ic cfg (gmap_empty, k) = Returns (m, k')"
  shows "m = gmap_empty \<and> kernel_grows lookupR lookupE r k k'"
proof -
  have cases: "(m = gmap_empty \<and> k' = k) \<or>
      (\<exists>latest s1. outcome_fold (update_dns_endpoint kn) (entries latest) (gmap_empty, k) = Returns s1 \<and>
         outcome_fold (forget_dns_endpoint kn latest) (entries (fst s1)) s1 = Returns (m, k'))"
  proof (cases "k8s_GetEndpoints ic (dns_service cfg)")
    case (Inl e)
    with assms(2) show ?thesis by (simp add: syncDNSEndpoints_def Let_def)
  next
    case (Inr eps)
    with assms(2) show ?thesis
      by (cases eps) (simp_all add: syncDNSEndpoints_def Let_def outcome_bind_Returns, blast)
  qed
  then show ?thesis
  proof (elim disjE exE conjE)
    fix latest s1
    assume up: "outcome_fold (update_dns_endpoint kn) (entries latest) (gmap_empty, k) = Returns s1"
      and forget: "outcome_fold (forget_dns_endpoint kn latest) (entries (fst s1)) s1 = Returns (m, k')"
    obtain m1 k1 where s1: "s1 = (m1, k1)" by fastforce
    from update_dns_endpoints_empty [OF assms(1) up [unfolded s1], of r] have m1: "m1 = gmap_empty" and "kernel_grows lookupR lookupE r k k1"
      by blast+
    with forget show ?thesis by (simp add: s1)
  qed simp
qed

section \<open>Hostnames\<close>

definition policy_hosts :: "OutboundMeshTrafficPolicy \<Rightarrow> string set" where
  "policy_hosts pol = {h. \<exists>port ps p. (port, ps) \<in> set (entries (omtp_HTTPRouteConfigsPerPort pol)) \<and> p \<in> set ps \<and> h \<in> set (otp_Hostnames p) \<and> CHR '':'' \<notin> set h}"

lemma keys_fold_put: "dom (gmap_get (fold (\<lambda>h m. if P h then m else gmap_put m h v) hs m)) = {h \<in> set hs. \<not> P h} \<union> dom (gmap_get m)"
  by (induction hs arbitrary: m) (auto simp: dom_def)

lemma fold_concat_map: "fold (\<lambda>x. fold f (g x)) xs = fold f (concat (map g xs))"
  by (induction xs) simp_all

lemma keys_latest_resolves: "dom (gmap_get (latest_resolves pol)) = policy_hosts pol"
proof -
  have "latest_resolves pol = fold (\<lambda>h m. if contains_char h (CHR '':'') then m else gmap_put m h 0)
      (concat (map (\<lambda>x. concat (map otp_Hostnames (snd x))) (entries (omtp_HTTPRouteConfigsPerPort pol)))) gmap_empty"
    unfolding latest_resolves_def case_prod_beta fold_concat_map ..
  then show ?thesis by (force simp: keys_fold_put policy_hosts_def contains_char_def gmap_get_def)
qed

text \<open>The invariant of the bridge: no recorded name is fully qualified, and the kernel answers every recorded
  name with the bridge, when the kernel took the entry.\<close>

definition answers :: "'k kernel \<Rightarrow> ('k \<Rightarrow> dnsQuery \<Rightarrow> aRecord option) \<Rightarrow> aRecord \<Rightarrow> string \<Rightarrow> 'k \<Rightarrow> bool" where
  "answers kn lookupR r h k \<longleftrightarrow> (\<forall>n. kn_pack kn (h @ ''.'') = Some n \<longrightarrow>
     lookupR k (dns_query dns_TypeA n) = Some r \<and> lookupR k (dns_query dns_TypeAAAA n) = Some r)"

lemma answers_grows: "kernel_grows lookupR lookupE r k k' \<Longrightarrow> answers kn lookupR r h k \<Longrightarrow> answers kn lookupR r h k'"
  by (auto simp: answers_def kernel_grows_def)

text \<open>Kernel maps whose updates do not fail.\<close>

definition updates_succeed :: "'k kernel \<Rightarrow> ('k \<Rightarrow> dnsQuery \<Rightarrow> aRecord option) \<Rightarrow> bool" where
  "updates_succeed kn lookupR \<longleftrightarrow> (\<forall>q r k. lookupR (kn_update_resolve kn q r k) = (lookupR k)(q \<mapsto> r))"

lemma UpdateDNSResolveEntry_answers:
  "updates_succeed kn lookupR \<Longrightarrow> answers kn lookupR (bridge_answer b) h (UpdateDNSResolveEntry kn b h 60 k)"
  by (auto simp: answers_def UpdateDNSResolveEntry_def updates_succeed_def dns_query_def)

definition bridge_inv :: "'k kernel \<Rightarrow> ('k \<Rightarrow> dnsQuery \<Rightarrow> aRecord option) \<Rightarrow> bridge_ip \<Rightarrow> (string, uint8) gomap \<times> 'k \<Rightarrow> bool" where
  "bridge_inv kn lookupR b s \<longleftrightarrow> (\<forall>h \<in> dom (gmap_get (fst s)). plain_name h \<and>
     (updates_succeed kn lookupR \<longrightarrow> answers kn lookupR (bridge_answer b) h (snd s)))"

lemma add_resolve_step:
  assumes "kernel_contract kn lookupR lookupE" and "bridge_inv kn lookupR b s" and "plain_name h"
  shows "bridge_inv kn lookupR b (add_resolve kn b h s) \<and> kernel_grows lookupR lookupE (bridge_answer b) (snd s) (snd (add_resolve kn b h s)) \<and>
     dom (gmap_get (fst (add_resolve kn b h s))) = insert h (dom (gmap_get (fst s)))"
proof (cases "gmap_get (fst s) h")
  case None
  let ?k = "UpdateDNSResolveEntry kn b h 60 (snd s)"
  have s: "add_resolve kn b h s = (gmap_put (fst s) h 1, ?k)" using None by (simp add: add_resolve_def case_prod_beta)
  have grows: "kernel_grows lookupR lookupE (bridge_answer b) (snd s) ?k" by (rule UpdateDNSResolveEntry_grows [OF assms(1)])
  have dom: "dom (gmap_get (gmap_put (fst s) h 1)) = insert h (dom (gmap_get (fst s)))" by (auto simp: dom_def)
  have "bridge_inv kn lookupR b (gmap_put (fst s) h 1, ?k)"
    unfolding bridge_inv_def fst_conv snd_conv dom
    using assms(2,3) answers_grows [OF grows] UpdateDNSResolveEntry_answers [of kn lookupR b h "snd s"]
    by (simp add: bridge_inv_def)
  with grows dom show ?thesis by (simp add: s)
next
  case (Some v)
  then have "add_resolve kn b h s = s" "h \<in> dom (gmap_get (fst s))" by (auto simp: add_resolve_def case_prod_beta)
  with assms(2) show ?thesis by (simp add: insert_absorb)
qed

lemma fold_add_resolve:
  assumes "kernel_contract kn lookupR lookupE" and "bridge_inv kn lookupR b s" and "\<forall>h \<in> set hs. plain_name h"
  shows "bridge_inv kn lookupR b (fold (add_resolve kn b) hs s) \<and>
     kernel_grows lookupR lookupE (bridge_answer b) (snd s) (snd (fold (add_resolve kn b) hs s)) \<and>
     dom (gmap_get (fst (fold (add_resolve kn b) hs s))) = set hs \<union> dom (gmap_get (fst s))"
  using assms(2,3)
proof (induction hs arbitrary: s)
  case (Cons h hs)
  then have "plain_name h" by simp
  note step = add_resolve_step [OF assms(1) Cons.prems(1) this]
  from Cons.IH [of "add_resolve kn b h s"] Cons.prems(2) step
    kernel_grows_trans [of lookupR lookupE "bridge_answer b" "snd s" "snd (add_resolve kn b h s)"]
  show ?case by simp
qed simp

lemma forget_resolve_step:
  assumes "kernel_contract kn lookupR lookupE" and "bridge_inv kn lookupR b s" and "plain_name h"
  shows "bridge_inv kn lookupR b (forget_resolve kn latest h s) \<and> snd (forget_resolve kn latest h s) = snd s \<and>
     dom (gmap_get (fst (forget_resolve kn latest h s))) = dom (gmap_get (fst s)) - ({h} - dom (gmap_get latest))"
proof -
  have "forget_resolve kn latest h s = (if gmap_get latest h = None then (gmap_delete (fst s) h, snd s) else s)"
    by (simp add: forget_resolve_def case_prod_beta DeleteDNSResolveEntry_nothing [OF assms(1,3)])
  moreover have "dom (gmap_get (gmap_delete (fst s) h)) = dom (gmap_get (fst s)) - {h}" by (auto simp: dom_def)
  ultimately show ?thesis using assms(2) by (auto simp: bridge_inv_def)
qed

lemma fold_forget_resolve:
  assumes "kernel_contract kn lookupR lookupE" and "bridge_inv kn lookupR b s" and "\<forall>h \<in> set hs. plain_name h"
  shows "bridge_inv kn lookupR b (fold (forget_resolve kn latest) hs s) \<and> snd (fold (forget_resolve kn latest) hs s) = snd s \<and>
     dom (gmap_get (fst (fold (forget_resolve kn latest) hs s))) = dom (gmap_get (fst s)) - (set hs - dom (gmap_get latest))"
  using assms(2,3)
proof (induction hs arbitrary: s)
  case (Cons h hs)
  then have "plain_name h" by simp
  note step = forget_resolve_step [OF assms(1) Cons.prems(1) this, of latest]
  from Cons.IH [of "forget_resolve kn latest h s"] Cons.prems(2) step show ?case by (simp add: insert_Diff_if) blast
qed simp

lemma set_keys_entries: "set (map fst (entries m)) = dom (gmap_get m)"
proof -
  have "gmap_get m = map_of (entries m)" by (rule ext) (simp add: gmap_get_def)
  then show ?thesis by (simp add: dom_map_of_conv_image_fst)
qed

lemma syncDNSResolves_keeps:
  assumes "kernel_contract kn lookupR lookupE" and "bridge_inv kn lookupR b s" and "\<forall>h \<in> policy_hosts pol. plain_name h"
  shows "bridge_inv kn lookupR b (syncDNSResolves kn b pol s) \<and>
     kernel_grows lookupR lookupE (bridge_answer b) (snd s) (snd (syncDNSResolves kn b pol s)) \<and>
     (entries (omtp_HTTPRouteConfigsPerPort pol) \<noteq> [] \<longrightarrow> dom (gmap_get (fst (syncDNSResolves kn b pol s))) = policy_hosts pol)"
proof (cases "entries (omtp_HTTPRouteConfigsPerPort pol) = []")
  case True
  then show ?thesis using assms(2) by (simp add: syncDNSResolves_def)
next
  case False
  define s1 where "s1 = fold (add_resolve kn b) (map fst (entries (latest_resolves pol))) s"
  have "\<forall>h \<in> set (map fst (entries (latest_resolves pol))). plain_name h"
    unfolding set_keys_entries keys_latest_resolves by (rule assms(3))
  note add = fold_add_resolve [OF assms(1,2) this, folded s1_def, unfolded set_keys_entries keys_latest_resolves]
  have "\<forall>h \<in> set (map fst (entries (fst s1))). plain_name h"
    unfolding set_keys_entries using add by (simp add: bridge_inv_def)
  note forget = fold_forget_resolve [OF assms(1) _ this, where b = b and latest = "latest_resolves pol", unfolded set_keys_entries keys_latest_resolves]
  have "syncDNSResolves kn b pol s = fold (forget_resolve kn (latest_resolves pol)) (map fst (entries (fst s1))) s1"
    using False by (simp add: syncDNSResolves_def s1_def Let_def)
  with add forget show ?thesis by auto
qed

text \<open>Names do not touch the endpoints.\<close>

lemma fold_keeps: "(\<And>x s. g (f x s) = g s) \<Longrightarrow> g (fold f xs s) = g s"
  by (induction xs arbitrary: s) simp_all

lemma syncDNSResolves_endpoints:
  assumes "kernel_contract kn lookupR lookupE"
  shows "lookupE (snd (syncDNSResolves kn b pol s)) = lookupE (snd s)"
proof -
  have "lookupE (kn_update_resolve kn q r k) = lookupE k" "lookupE (kn_delete_resolve kn q k) = lookupE k" for q r k
    using assms unfolding kernel_contract_def by blast+
  then have "lookupE (UpdateDNSResolveEntry kn b h 60 k) = lookupE k" "lookupE (DeleteDNSResolveEntry kn h k) = lookupE k" for h k
    by (simp_all add: UpdateDNSResolveEntry_def DeleteDNSResolveEntry_def split: option.split)
  then have step: "(lookupE \<circ> snd) (add_resolve kn b h s) = (lookupE \<circ> snd) s" "(lookupE \<circ> snd) (forget_resolve kn latest h s) = (lookupE \<circ> snd) s"
    for h latest s
    by (simp_all add: add_resolve_def forget_resolve_def case_prod_beta)
  have "(lookupE \<circ> snd) (fold (add_resolve kn b) hs s) = (lookupE \<circ> snd) s" for hs s by (rule fold_keeps) (rule step)
  moreover have "(lookupE \<circ> snd) (fold (forget_resolve kn latest) hs s) = (lookupE \<circ> snd) s" for hs latest s
    by (rule fold_keeps) (rule step)
  ultimately show ?thesis by (simp add: syncDNSResolves_def Let_def)
qed

text \<open>A hostname of the mesh has a dot in it, so it is not empty.\<close>

lemma hostname_nonempty: "h \<in> set (GetHostnamesForService td svc False) \<Longrightarrow> h \<noteq> []"
proof -
  have "h \<in> set (trust_domain_hostnames n p segs) \<Longrightarrow> h \<noteq> []" for n p segs
    by (induction segs arbitrary: n) (auto simp: with_port_def Let_def split: if_splits)
  then show "h \<in> set (GetHostnamesForService td svc False) \<Longrightarrow> h \<noteq> []"
    by (auto simp: GetHostnamesForService_def with_port_def Let_def)
qed

lemma policy_host_nonempty:
  assumes "h \<in> policy_hosts (GetOutboundMeshTrafficPolicy td mc)"
  shows "h \<noteq> []"
proof -
  let ?m = "omtp_HTTPRouteConfigsPerPort (GetOutboundMeshTrafficPolicy td mc)"
  obtain port ps p where ps: "(port, ps) \<in> set (entries ?m)" and p: "p \<in> set ps" "h \<in> set (otp_Hostnames p)"
    using assms by (auto simp: policy_hosts_def)
  have "gmap_wf ?m" by (simp add: GetOutboundMeshTrafficPolicy_eq wf_fold_add_http_policy)
  with ps have "gmap_get ?m port = Some ps" by (simp add: gmap_get_def gmap_wf_def)
  then have "ps = http_policies_of_port td mc port (ListOutboundServices mc)"
    by (auto simp: GetOutboundMeshTrafficPolicy_eq get_fold_add_http_policy Let_def split: if_splits)
  with p obtain svc where "h \<in> set (GetHostnamesForService td svc False)"
    by (auto simp: http_policies_of_port_def wildcard_policy_def)
  then show ?thesis by (rule hostname_nonempty)
qed

section \<open>Sequences of jobs\<close>

definition plain_hosts :: "string \<Rightarrow> (configurator_Client \<times> InformerCollection) list \<Rightarrow> bool" where
  "plain_hosts td steps \<longleftrightarrow>
     (\<forall>(cfg, ic) \<in> set steps. \<forall>h \<in> policy_hosts (GetOutboundMeshTrafficPolicy td (NewMeshCatalog ic)). \<not> has_suffix h ''.'')"

definition bridge_ok :: "'k kernel \<Rightarrow> ('k \<Rightarrow> dnsQuery \<Rightarrow> aRecord option) \<Rightarrow> bridge_ip \<Rightarrow> 'k bridge \<Rightarrow> bool" where
  "bridge_ok kn lookupR b s \<longleftrightarrow> br_dnsEndpoints s = gmap_empty \<and> bridge_inv kn lookupR b (br_dnsResolves s, br_kernel s)"

lemma bridge_ok_new: "bridge_ok kn lookupR b (NewBridgeServer k)"
  by (simp add: bridge_ok_def NewBridgeServer_def bridge_inv_def gmap_get_def dom_def)

lemma BridgeRun_keeps:
  assumes "kernel_contract kn lookupR lookupE" and "BridgeRun kn b td cfg ic s = Returns s'" and "bridge_ok kn lookupR b s"
    and hosts: "\<forall>h \<in> policy_hosts (GetOutboundMeshTrafficPolicy td (NewMeshCatalog ic)). \<not> has_suffix h ''.''"
  shows "bridge_ok kn lookupR b s' \<and> kernel_grows lookupR lookupE (bridge_answer b) (br_kernel s) (br_kernel s') \<and>
     policy_hosts (GetOutboundMeshTrafficPolicy td (NewMeshCatalog ic)) \<subseteq> dom (gmap_get (br_dnsResolves s'))"
proof -
  define pol where "pol = GetOutboundMeshTrafficPolicy td (NewMeshCatalog ic)"
  obtain m k1 where ends: "syncDNSEndpoints kn ic cfg (br_dnsEndpoints s, br_kernel s) = Returns (m, k1)"
    and s': "br_dnsEndpoints s' = m" "(br_dnsResolves s', br_kernel s') = syncDNSResolves kn b pol (br_dnsResolves s, k1)"
    using assms(2) by (auto simp: BridgeRun_def pol_def outcome_bind_Returns case_prod_beta Let_def)
  have empty: "br_dnsEndpoints s = gmap_empty" and inv: "bridge_inv kn lookupR b (br_dnsResolves s, br_kernel s)"
    using assms(3) by (simp_all add: bridge_ok_def)
  from syncDNSEndpoints_empty [OF assms(1) ends [unfolded empty]] have m: "m = gmap_empty"
    and g1: "kernel_grows lookupR lookupE (bridge_answer b) (br_kernel s) k1" by blast+
  have "bridge_inv kn lookupR b (br_dnsResolves s, k1)" using inv answers_grows [OF g1] by (simp add: bridge_inv_def)
  note res = syncDNSResolves_keeps [OF assms(1) this, of pol, folded s'(2), unfolded fst_conv snd_conv]
  have "entries (omtp_HTTPRouteConfigsPerPort pol) = [] \<Longrightarrow> policy_hosts pol = {}" by (simp add: policy_hosts_def)
  moreover have "\<forall>h \<in> policy_hosts pol. plain_name h"
    using hosts policy_host_nonempty by (auto simp: pol_def plain_name_def)
  ultimately show ?thesis using res m s'(1) kernel_grows_trans [OF g1]
    by (auto simp: pol_def [symmetric] bridge_ok_def)
qed

lemma bridge_runs_keeps:
  assumes "kernel_contract kn lookupR lookupE" and "bridge_runs kn b td steps s = Returns s'" and "bridge_ok kn lookupR b s"
    and "plain_hosts td steps"
  shows "bridge_ok kn lookupR b s' \<and> kernel_grows lookupR lookupE (bridge_answer b) (br_kernel s) (br_kernel s')"
  using assms(2-4)
proof (induction steps arbitrary: s)
  case Nil
  then show ?case by (simp add: bridge_runs_def)
next
  case (Cons step steps)
  obtain cfg ic where step: "step = (cfg, ic)" by fastforce
  obtain s1 where one: "BridgeRun kn b td cfg ic s = Returns s1" and rest: "bridge_runs kn b td steps s1 = Returns s'"
    using Cons.prems(1) by (auto simp: bridge_runs_def outcome_bind_Returns step)
  have "plain_hosts td steps" and "\<forall>h \<in> policy_hosts (GetOutboundMeshTrafficPolicy td (NewMeshCatalog ic)). \<not> has_suffix h ''.''"
    using Cons.prems(3) by (simp_all add: plain_hosts_def step)
  with Cons.IH [OF rest] BridgeRun_keeps [OF assms(1) one Cons.prems(2)] show ?case
    using kernel_grows_trans [of lookupR lookupE "bridge_answer b" "br_kernel s" "br_kernel s1"] by blast
qed

lemma bridge_runs_append:
  "bridge_runs kn b td (steps @ steps') s = outcome_bind (bridge_runs kn b td steps s) (bridge_runs kn b td steps')"
proof (induction steps arbitrary: s)
  case (Cons step steps)
  then show ?case by (cases "(case step of (cfg, ic) \<Rightarrow> BridgeRun kn b td cfg ic) s") (simp_all add: bridge_runs_def)
qed (simp add: bridge_runs_def)

text \<open>C12. The bridge never forgets a DNS entry: whatever happens to the cluster between its jobs, once an entry is
  in a kernel map, it stays there, also when its service or endpoint is gone. The record of the endpoints
  is never filled, so no endpoint is ever found to be outdated; and the name to delete is not fully
  qualified, so it cannot be packed. (Updates and deletions in the kernel may also fail.)\<close>

theorem bridge_never_forgets:
  assumes "kernel_contract kn lookupR lookupE" and "plain_hosts trustDomain (steps @ later)"
    and "bridge_runs kn b trustDomain steps (NewBridgeServer k) = Returns s" and "bridge_runs kn b trustDomain later s = Returns s'"
  shows "dom (lookupR (br_kernel s)) \<subseteq> dom (lookupR (br_kernel s')) \<and> dom (lookupE (br_kernel s)) \<subseteq> dom (lookupE (br_kernel s')) \<and>
     br_dnsEndpoints s' = gmap_empty"
proof -
  have hosts: "plain_hosts trustDomain steps" "plain_hosts trustDomain later" using assms(2) by (auto simp: plain_hosts_def)
  have ok: "bridge_ok kn lookupR b s" using bridge_runs_keeps [OF assms(1,3) bridge_ok_new hosts(1)] ..
  from bridge_runs_keeps [OF assms(1,4) this hosts(2)] show ?thesis by (simp add: kernel_grows_def bridge_ok_def)
qed

text \<open>The bridge answers every name of the mesh: after any sequence of jobs, when the kernel takes all
  updates, every hostname (without port) of the last job's cluster resolves to the bridge's address with a time to
  live of 60 seconds, for A and for AAAA queries.\<close>

lemma bridge_answers_hostnames:
  assumes "kernel_contract kn lookupR lookupE" and "updates_succeed kn lookupR" and "plain_hosts trustDomain (steps @ [(cfg, ic)])"
    and "bridge_runs kn b trustDomain (steps @ [(cfg, ic)]) (NewBridgeServer k) = Returns s"
    and "h \<in> policy_hosts (GetOutboundMeshTrafficPolicy trustDomain (NewMeshCatalog ic))" and "kn_pack kn (h @ ''.'') = Some n"
  shows "lookupR (br_kernel s) (dns_query dns_TypeA n) = Some \<lparr>ar_Addr = bridgeIPInt b, ar_TTL = 60\<rparr> \<and>
     lookupR (br_kernel s) (dns_query dns_TypeAAAA n) = Some \<lparr>ar_Addr = bridgeIPInt b, ar_TTL = 60\<rparr>"
proof -
  obtain s1 where runs: "bridge_runs kn b trustDomain steps (NewBridgeServer k) = Returns s1"
    and one: "BridgeRun kn b trustDomain cfg ic s1 = Returns s"
    using assms(4) by (auto simp: bridge_runs_append outcome_bind_Returns) (auto simp: bridge_runs_def outcome_bind_Returns)
  have hosts: "plain_hosts trustDomain steps" "\<forall>h \<in> policy_hosts (GetOutboundMeshTrafficPolicy trustDomain (NewMeshCatalog ic)). \<not> has_suffix h ''.''"
    using assms(3) by (auto simp: plain_hosts_def)
  have "bridge_ok kn lookupR b s1" using bridge_runs_keeps [OF assms(1) runs bridge_ok_new hosts(1)] ..
  from BridgeRun_keeps [OF assms(1) one this hosts(2)] assms(2,5,6) show ?thesis
    by (auto simp: bridge_ok_def bridge_inv_def answers_def)
qed

section \<open>Names on the wire\<close>

text \<open>RFC 1035: a name is a sequence of labels, each after its length. \<open>dns.PackDomainName\<close> writes it into an array
  of zeros, without escapes when no label has a dot, a backslash or a zero byte.\<close>

definition wire_name :: "string list \<Rightarrow> nat list" where
  "wire_name ls = concat (map (\<lambda>l. length l # map byte l) ls)"

definition padded :: "nat list \<Rightarrow> nat list" where
  "padded n = n @ replicate (256 - length n) 0"

definition dotted :: "string list \<Rightarrow> string" where
  "dotted ls = concat (map (\<lambda>l. l @ ''.'') ls)"

definition good_label :: "string \<Rightarrow> bool" where
  "good_label l \<longleftrightarrow> l \<noteq> [] \<and> length l \<le> 63 \<and> list_all (\<lambda>c. c \<noteq> CHR ''.'' \<and> byte c \<noteq> 92 \<and> byte c \<noteq> 0) l"

definition good_labels :: "string list \<Rightarrow> bool" where
  "good_labels ls \<longleftrightarrow> ls \<noteq> [] \<and> list_all good_label ls \<and> length (wire_name ls) < 255"

definition packs_names :: "'k kernel \<Rightarrow> bool" where
  "packs_names kn \<longleftrightarrow> (\<forall>ls. good_labels ls \<longrightarrow> kn_pack kn (dotted ls) = Some (padded (wire_name ls)))"

lemma good_label_bytes:
  assumes "good_label l" and "b \<in> set (length l # map byte l)"
  shows "0 < b \<and> b < 256"
proof -
  from assms(2) consider "b = length l" | c where "c \<in> set l" "b = byte c" by fastforce
  then show ?thesis
  proof cases
    case 1
    with assms(1) show ?thesis by (simp add: good_label_def)
  next
    case 2
    then have "byte c \<noteq> 0" using assms(1) unfolding good_label_def list_all_iff by blast
    with 2 show ?thesis by (simp add: byte_def)
  qed
qed

lemma wire_name_bytes:
  assumes "good_labels ls" and "b \<in> set (wire_name ls)"
  shows "0 < b \<and> b < 256"
proof -
  from assms(2) obtain l where "l \<in> set ls" "b \<in> set (length l # map byte l)" by (auto simp: wire_name_def)
  with assms(1) show ?thesis using good_label_bytes [of l b] by (simp add: good_labels_def list_all_iff)
qed

lemma split_dotted: "list_all good_label ls \<Longrightarrow> split_on CHR ''.'' (dotted ls) = ls @ [[]]"
proof (induction ls)
  case (Cons l ls)
  then have "CHR ''.'' \<notin> set l" unfolding good_label_def list_all_iff by auto
  with Cons show ?case by (simp add: dotted_def split_on_append)
qed (simp add: dotted_def)

section \<open>A node\<close>

text \<open>Kernel maps as functions; every update and deletion succeeds.\<close>

type_synonym map_kernel = "(dnsQuery \<Rightarrow> aRecord option) \<times> (nat list \<Rightarrow> nat list option)"

definition sample_pack :: "string \<Rightarrow> nat list option" where
  "sample_pack name =
     (if \<not> has_suffix name ''.'' then None
      else let n = wire_name (butlast (split_on CHR ''.'' name)) in if length n < 255 then Some (padded n) else None)"

definition sample_kernel :: "map_kernel kernel" where
  "sample_kernel = \<lparr>kn_pack = sample_pack,
     kn_update_resolve = (\<lambda>q r k. ((fst k)(q \<mapsto> r), snd k)), kn_delete_resolve = (\<lambda>q k. ((fst k)(q := None), snd k)),
     kn_update_endpoint = (\<lambda>p v k. case (p, v) of (Some e, Some c) \<Rightarrow> (fst k, (snd k)(e \<mapsto> c)) | _ \<Rightarrow> k),
     kn_delete_endpoint = (\<lambda>p k. case p of Some e \<Rightarrow> (fst k, (snd k)(e := None)) | None \<Rightarrow> k)\<rparr>"

lemma sample_kernel_contract: "kernel_contract sample_kernel fst snd" "updates_succeed sample_kernel fst"
  unfolding kernel_contract_def updates_succeed_def
  by (auto simp: sample_kernel_def sample_pack_def split: option.split)

lemma sample_kernel_packs: "packs_names sample_kernel"
proof -
  have "has_suffix (dotted ls) ''.''" if "ls \<noteq> []" for ls
    using that by (cases ls rule: rev_cases) (simp_all add: dotted_def has_suffix_def)
  then show ?thesis by (simp add: packs_names_def good_labels_def sample_kernel_def sample_pack_def split_dotted)
qed

definition sample_bridge_cfg :: configurator_Client where
  "sample_bridge_cfg = \<lparr>cfg_ecnetNamespace = [], cfg_informers = (sample_ic ActiveActiveLbType)\<lparr>ic_EcnetConfig :=
       Some (list_store (\<lambda>e. ec_Namespace e @ ''/'' @ ec_Name e) [EcnetConfig_zero\<lparr>ec_Spec := (ec_Spec EcnetConfig_zero)\<lparr>ecs_DNS :=
         \<lparr>dns_Namespace = ''shop'', dns_Name = ''web'', dns_Port = 8080, dns_Protocol = ''dns''\<rparr>\<rparr>\<rparr>])\<rparr>, cfg_ecnetConfigName = []\<rparr>"

definition sample_bridge_ip :: bridge_ip where
  "sample_bridge_ip = \<lparr>bridgeIPInt = 176160769, bridgeIPAddr = Some [10, 128, 0, 1]\<rparr>"

definition sample_job :: "string \<Rightarrow> configurator_Client \<times> InformerCollection" where
  "sample_job lbType = (sample_bridge_cfg, sample_ic lbType)"

definition hosts_list :: "OutboundMeshTrafficPolicy \<Rightarrow> string list" where
  "hosts_list pol = filter (\<lambda>h. CHR '':'' \<notin> set h) (concat (map (\<lambda>x. concat (map otp_Hostnames (snd x))) (entries (omtp_HTTPRouteConfigsPerPort pol))))"

lemma policy_hosts_list: "policy_hosts pol = set (hosts_list pol)"
  by (force simp: policy_hosts_def hosts_list_def)

lemma sample_job_facts:
  "list_all (\<lambda>h. \<not> has_suffix h ''.'') (hosts_list (GetOutboundMeshTrafficPolicy ''cluster.local'' (NewMeshCatalog (sample_ic ActiveActiveLbType))))"
  "list_ex (\<lambda>h. h = ''web.shop'') (hosts_list (GetOutboundMeshTrafficPolicy ''cluster.local'' (NewMeshCatalog (sample_ic ActiveActiveLbType))))"
  "hosts_list (GetOutboundMeshTrafficPolicy ''cluster.local'' (NewMeshCatalog (sample_ic LocalityLbType))) = []"
  by code_simp+

lemma BridgeRun_returns:
  assumes "syncDNSEndpoints kn ic cfg (br_dnsEndpoints s, br_kernel s) = Returns (m, k)"
  shows "\<exists>s'. BridgeRun kn b td cfg ic s = Returns s' \<and> br_dnsEndpoints s' = m"
  using assms by (simp add: BridgeRun_def case_prod_beta Let_def)

lemma sample_sync:
  "case syncDNSEndpoints sample_kernel (sample_ic ActiveActiveLbType) sample_bridge_cfg (gmap_empty, k) of
     Panics \<Rightarrow> False | Returns (m, k') \<Rightarrow> m = gmap_empty \<and> snd k' [10, 0, 0, 1] = Some [10, 96, 0, 7]"
  "case syncDNSEndpoints sample_kernel (sample_ic LocalityLbType) sample_bridge_cfg (gmap_empty, k) of
     Panics \<Rightarrow> False | Returns (m, k') \<Rightarrow> m = gmap_empty"
  by code_simp+

lemma sample_plain_hosts:
  "plain_hosts ''cluster.local'' [sample_job ActiveActiveLbType]"
  "plain_hosts ''cluster.local'' ([sample_job ActiveActiveLbType] @ [sample_job LocalityLbType])"
  using sample_job_facts by (auto simp: plain_hosts_def policy_hosts_list list_all_iff sample_job_def)

lemma bridge_host: "''web.shop'' \<in> policy_hosts (GetOutboundMeshTrafficPolicy ''cluster.local'' (NewMeshCatalog (sample_ic ActiveActiveLbType)))"
  using sample_job_facts(2) unfolding policy_hosts_list list_ex_iff by blast

text \<open>The first job enters a name and an endpoint.\<close>

lemma sample_first_job:
  "\<exists>s. bridge_runs sample_kernel sample_bridge_ip ''cluster.local'' [sample_job ActiveActiveLbType] (NewBridgeServer k) = Returns s \<and>
     snd (br_kernel s) [10, 0, 0, 1] = Some [10, 96, 0, 7] \<and> br_dnsEndpoints s = gmap_empty"
proof -
  obtain k' where k': "syncDNSEndpoints sample_kernel (sample_ic ActiveActiveLbType) sample_bridge_cfg (gmap_empty, k) = Returns (gmap_empty, k')"
    "snd k' [10, 0, 0, 1] = Some [10, 96, 0, 7]"
    using sample_sync(1) [of k] by (auto split: outcome.splits)
  obtain s where s: "BridgeRun sample_kernel sample_bridge_ip ''cluster.local'' sample_bridge_cfg (sample_ic ActiveActiveLbType) (NewBridgeServer k) = Returns s"
    "br_dnsEndpoints s = gmap_empty"
    using BridgeRun_returns [of sample_kernel "sample_ic ActiveActiveLbType" sample_bridge_cfg "NewBridgeServer k" gmap_empty k'] k'(1)
    by (auto simp: NewBridgeServer_def)
  let ?pol = "GetOutboundMeshTrafficPolicy ''cluster.local'' (NewMeshCatalog (sample_ic ActiveActiveLbType))"
  have "br_kernel s = snd (syncDNSResolves sample_kernel sample_bridge_ip ?pol (gmap_empty, k'))"
    using s(1) k'(1) by (auto simp: BridgeRun_def NewBridgeServer_def Let_def case_prod_beta)
  then have "snd (br_kernel s) = snd k'"
    using syncDNSResolves_endpoints [OF sample_kernel_contract(1), of sample_bridge_ip ?pol "(gmap_empty, k')"] by simp
  with s k'(2) show ?thesis by (simp add: bridge_runs_def sample_job_def)
qed

lemma sample_second_job:
  assumes "br_dnsEndpoints s = gmap_empty"
  shows "\<exists>s'. bridge_runs sample_kernel sample_bridge_ip ''cluster.local'' [sample_job LocalityLbType] s = Returns s'"
proof -
  obtain k' where "syncDNSEndpoints sample_kernel (sample_ic LocalityLbType) sample_bridge_cfg (gmap_empty, br_kernel s) = Returns (gmap_empty, k')"
    using sample_sync(2) [of "br_kernel s"] by (auto split: outcome.splits)
  with assms obtain s' where "BridgeRun sample_kernel sample_bridge_ip ''cluster.local'' sample_bridge_cfg (sample_ic LocalityLbType) s = Returns s'"
    using BridgeRun_returns [of sample_kernel "sample_ic LocalityLbType" sample_bridge_cfg s gmap_empty k'] by metis
  then show ?thesis by (simp add: bridge_runs_def sample_job_def)
qed

lemma sample_labels: "good_labels [''web'', ''shop'']"
  by code_simp

lemma sample_name:
  assumes "bridge_runs sample_kernel sample_bridge_ip ''cluster.local'' [sample_job ActiveActiveLbType] (NewBridgeServer k) = Returns s"
  shows "fst (br_kernel s) (dns_query dns_TypeA (padded (wire_name [''web'', ''shop'']))) \<noteq> None"
proof -
  have "kn_pack sample_kernel (dotted [''web'', ''shop'']) = Some (padded (wire_name [''web'', ''shop'']))"
    using sample_kernel_packs sample_labels unfolding packs_names_def by blast
  then have pack: "kn_pack sample_kernel (''web.shop'' @ ''.'') = Some (padded (wire_name [''web'', ''shop'']))" by (simp add: dotted_def)
  have "plain_hosts ''cluster.local'' ([] @ [(sample_bridge_cfg, sample_ic ActiveActiveLbType)])"
    "bridge_runs sample_kernel sample_bridge_ip ''cluster.local'' ([] @ [(sample_bridge_cfg, sample_ic ActiveActiveLbType)]) (NewBridgeServer k) = Returns s"
    using sample_plain_hosts(1) assms by (simp_all add: sample_job_def)
  from bridge_answers_hostnames [OF sample_kernel_contract this bridge_host pack] show ?thesis by simp
qed

theorem bridge_never_forgets_witness:
  "\<exists>s s'. bridge_runs sample_kernel sample_bridge_ip ''cluster.local'' [sample_job ActiveActiveLbType] (NewBridgeServer (Map.empty, Map.empty)) = Returns s \<and>
     bridge_runs sample_kernel sample_bridge_ip ''cluster.local'' [sample_job LocalityLbType] s = Returns s' \<and>
     fst (br_kernel s') (dns_query dns_TypeA (padded (wire_name [''web'', ''shop'']))) \<noteq> None \<and> snd (br_kernel s') [10, 0, 0, 1] \<noteq> None"
proof -
  obtain s where s: "bridge_runs sample_kernel sample_bridge_ip ''cluster.local'' [sample_job ActiveActiveLbType]
        (NewBridgeServer (Map.empty, Map.empty)) = Returns s"
    and "snd (br_kernel s) [10, 0, 0, 1] = Some [10, 96, 0, 7]" and "br_dnsEndpoints s = gmap_empty"
    using sample_first_job [of "(Map.empty, Map.empty)"] by (elim exE conjE)
  then have e: "snd (br_kernel s) [10, 0, 0, 1] \<noteq> None" by simp
  from sample_second_job [OF \<open>br_dnsEndpoints s = gmap_empty\<close>] obtain s'
    where s': "bridge_runs sample_kernel sample_bridge_ip ''cluster.local'' [sample_job LocalityLbType] s = Returns s'" ..
  note grows = bridge_never_forgets [OF sample_kernel_contract(1) sample_plain_hosts(2) s s']
  have "fst (br_kernel s') (dns_query dns_TypeA (padded (wire_name [''web'', ''shop'']))) \<noteq> None"
    using grows [THEN conjunct1] sample_name [OF s] unfolding domIff [symmetric] by (rule subsetD)
  moreover have "snd (br_kernel s') [10, 0, 0, 1] \<noteq> None"
    using grows [THEN conjunct2, THEN conjunct1] e unfolding domIff [symmetric] by (rule subsetD)
  ultimately show ?thesis using s s' by (intro exI conjI)
qed

end
