(* ===== verification/BpfDns.thy ===== *)
theory BpfDns
  imports DataPlane
begin

text \<open>
  \<open>bpf/ecnet_dnsproxy.c\<close>: the program in the kernel that answers DNS queries for the names that the bridge has entered.
  A frame is a list of bytes, a pointer into it an offset, and the structures of the headers are
  overlaid at fixed offsets (Ethernet 14 bytes, IPv4 20, UDP 8, DNS 12). The machine is little-endian, so a 16-bit
  word in memory is its first byte plus 256 times its second, and \<open>bpf_htons\<close> swaps bytes. The helper functions of the
  kernel (lookups in maps, \<open>bpf_xdp_adjust_tail\<close>, \<open>bpf_csum_diff\<close>) are parameters. Debug output is left out.
\<close>

unbundle bit_operations_syntax

section \<open>Bytes\<close>

definition slice :: "nat \<Rightarrow> nat \<Rightarrow> nat list \<Rightarrow> nat list" where
  "slice i n p = take n (drop i p)"

definition put :: "nat \<Rightarrow> nat list \<Rightarrow> nat list \<Rightarrow> nat list" where
  "put i bs p = take i p @ bs @ drop (i + length bs) p"

definition is_bytes :: "nat list \<Rightarrow> bool" where
  "is_bytes p \<longleftrightarrow> list_all (\<lambda>b. b < 256) p"

text \<open>The bytes of a number in network order.\<close>

definition be16 :: "nat \<Rightarrow> nat list" where
  "be16 n = [n div 256 mod 256, n mod 256]"

definition be32 :: "uint32 \<Rightarrow> nat list" where
  "be32 w = [unat w div 2 ^ 24, unat w div 2 ^ 16 mod 256, unat w div 2 ^ 8 mod 256, unat w mod 256]"

text \<open>The sum of the 16-bit words in memory; an odd last byte counts as it is.\<close>

fun sum16 :: "nat list \<Rightarrow> nat" where
  "sum16 [] = 0"
| "sum16 [b] = b"
| "sum16 (a # b # bs) = a + 256 * b + sum16 bs"

section \<open>The program\<close>

datatype xdp_action = XDP_PASS | XDP_TX

definition sizeof_eth :: nat where "sizeof_eth = 14"
definition sizeof_ip :: nat where "sizeof_ip = 20"
definition sizeof_udp :: nat where "sizeof_udp = 8"
definition sizeof_dns :: nat where "sizeof_dns = 12"

definition at_ip :: nat where "at_ip = sizeof_eth"
definition at_udp :: nat where "at_udp = at_ip + sizeof_ip"
definition at_dns :: nat where "at_dns = at_udp + sizeof_udp"
definition at_query :: nat where "at_query = at_dns + sizeof_dns"

lemmas offsets = at_ip_def at_udp_def at_dns_def at_query_def sizeof_eth_def sizeof_ip_def sizeof_udp_def sizeof_dns_def

definition MAX_DNS_NAME_LENGTH :: nat where "MAX_DNS_NAME_LENGTH = 256"

definition MAX_UDP_SIZE :: nat where "MAX_UDP_SIZE = 1480"

text \<open>The loop of \<open>parse_query\<close> over the bytes up to the end of the frame: the name and the bytes after its zero.\<close>

fun parse_name :: "nat \<Rightarrow> nat list \<Rightarrow> nat list \<Rightarrow> (nat list \<times> nat list) option" where
  "parse_name 0 name bs = None"
| "parse_name (Suc n) name [] = None"
| "parse_name (Suc n) name (b # bs) = (if b = 0 then Some (name, bs) else parse_name n (name @ [b]) bs)"

text \<open>The length of the query and the query, or \<open>None\<close> for the result \<open>-1\<close>.\<close>

definition parse_query :: "nat list \<Rightarrow> (nat \<times> dnsQuery) option" where
  "parse_query bs =
     (case parse_name MAX_DNS_NAME_LENGTH [] bs of
        None \<Rightarrow> None
      | Some (name, rest) \<Rightarrow>
          let (record_type, cls) =
            (if length rest < 4 then (0, 0) else (256 * rest ! 0 + rest ! 1, 256 * rest ! 2 + rest ! 3))
          in Some (length name + 1 + 2 + 2,
               \<lparr>dq_QType = of_nat record_type, dq_QClass = of_nat cls, dq_Name = name @ replicate (MAX_DNS_NAME_LENGTH - length name) 0\<rparr>))"

definition modify_dns_header_response :: "nat list \<Rightarrow> nat list" where
  "modify_dns_header_response p =
     put (at_dns + 6) (be16 1)
       (put (at_dns + 2) [if p ! (at_dns + 2) < 128 then p ! (at_dns + 2) + 128 else p ! (at_dns + 2),
          if p ! (at_dns + 3) < 128 then p ! (at_dns + 3) + 128 else p ! (at_dns + 3)] p)"

definition create_query_response :: "aRecord \<Rightarrow> nat list" where
  "create_query_response a = be16 0xc00c @ be16 1 @ be16 1 @ be32 (ar_TTL a) @ be16 4 @ be32 (ar_Addr a)"

definition copy_to_pkt_buf :: "nat \<Rightarrow> nat list \<Rightarrow> nat list \<Rightarrow> nat list" where
  "copy_to_pkt_buf dst src p = (if length p \<ge> dst + length src then put dst src p else p)"

definition swap_src_dst_mac :: "nat list \<Rightarrow> nat list" where
  "swap_src_dst_mac p = put 0 (slice 6 6 p @ slice 0 6 p) p"

definition swap_src_dst_udp :: "nat list \<Rightarrow> nat list" where
  "swap_src_dst_udp p = put at_udp (slice (at_udp + 2) 2 p @ slice at_udp 2 p) p"

text \<open>One round of \<open>csum_fold_helper\<close>, and its result as 16 bits.\<close>

definition fold_round :: "nat \<Rightarrow> nat" where
  "fold_round c = (if c div 2 ^ 16 \<noteq> 0 then c mod 2 ^ 16 + c div 2 ^ 16 else c)"

definition csum_fold_helper :: "uint64 \<Rightarrow> uint16" where
  "csum_fold_helper csum = NOT (of_nat ((fold_round ^^ 4) (unat csum)))"

text \<open>\<open>bpf_csum_diff\<close> is declared to return an \<open>int\<close>, which is extended with its sign to 64 bits.\<close>

definition ipv4_csum :: "(nat list \<Rightarrow> uint32) \<Rightarrow> nat list \<Rightarrow> uint16" where
  "ipv4_csum csum_diff bs = csum_fold_helper (scast (csum_diff bs))"

text \<open>The loop of \<open>cal_udp_csum\<close>: at most 740 words.\<close>

fun udp_csum_loop :: "nat \<Rightarrow> nat list \<Rightarrow> uint32 \<Rightarrow> uint32 \<times> nat list" where
  "udp_csum_loop (Suc n) (a # b # bs) acc = udp_csum_loop n bs (acc + of_nat (a + 256 * b))"
| "udp_csum_loop n bs acc = (acc, bs)"

definition cal_udp_csum :: "nat list \<Rightarrow> uint16" where
  "cal_udp_csum p =
     (let acc = of_nat (sum16 (slice (at_ip + 12) 8 p)) + of_nat (p ! (at_ip + 9)) * 256 + of_nat (sum16 (slice (at_udp + 4) 2 p));
          (acc, rest) = udp_csum_loop (MAX_UDP_SIZE div 2) (drop at_udp p) acc;
          acc = (if rest \<noteq> [] then acc + of_nat (hd rest) else acc)
      in NOT (ucast acc + ucast (drop_bit 16 acc)))"

text \<open>A 16-bit value stored in memory.\<close>

definition le16 :: "uint16 \<Rightarrow> nat list" where
  "le16 w = [unat w mod 256, unat w div 256]"

text \<open>The part of \<open>ecnet_dns_proxy\<close> after the tail has been adjusted.\<close>

definition finish_response :: "(nat list \<Rightarrow> uint32) \<Rightarrow> nat list \<Rightarrow> nat \<Rightarrow> nat list \<Rightarrow> nat list \<Rightarrow> nat list" where
  "finish_response csum_diff cluster_ip query_length answer p =
     (let p = copy_to_pkt_buf (at_query + query_length) answer p;
          p = put (at_ip + 2) (be16 (length p - sizeof_eth)) p;
          p = put (at_udp + 4) (be16 (length p - sizeof_eth - sizeof_ip)) p;
          p = put (at_ip + 12) (cluster_ip @ slice (at_ip + 12) 4 p) p;
          p = swap_src_dst_udp p;
          p = swap_src_dst_mac p;
          p = put (at_ip + 10) [0, 0] p;
          p = put (at_ip + 10) (le16 (ipv4_csum csum_diff (slice at_ip sizeof_ip p))) p;
          p = put (at_udp + 6) [0, 0] p
      in put (at_udp + 6) (le16 (cal_udp_csum p)) p)"

text \<open>Whether the frame is a query that the program looks at: the address of a DNS endpoint as destination of a
  standard query. The result is the cluster address of the DNS service.\<close>

definition dns_query_for :: "(nat list \<Rightarrow> nat list option) \<Rightarrow> nat list \<Rightarrow> nat list option" where
  "dns_query_for endpt p =
     (if length p < sizeof_eth + sizeof_ip then None
      else if slice 12 2 p \<noteq> be16 0x0800 then None
      else if p ! (at_ip + 9) \<noteq> 17 then None
      else if length p < at_query then None
      else case endpt (slice (at_ip + 16) 4 p) of
        None \<Rightarrow> None
      | Some cluster_ip \<Rightarrow>
          if slice (at_udp + 2) 2 p \<noteq> be16 53 then None
          else if p ! (at_dns + 2) div 8 \<noteq> 0 then None
          else Some cluster_ip)"

definition ecnet_dns_proxy ::
  "(nat list \<Rightarrow> nat list option) \<Rightarrow> (dnsQuery \<Rightarrow> aRecord option) \<Rightarrow> (int \<Rightarrow> nat list \<Rightarrow> nat list option) \<Rightarrow> (nat list \<Rightarrow> uint32) \<Rightarrow>
   nat list \<Rightarrow> xdp_action \<times> nat list" where
  "ecnet_dns_proxy endpt resdb adjust_tail csum_diff p =
     (case dns_query_for endpt p of
        None \<Rightarrow> (XDP_PASS, p)
      | Some cluster_ip \<Rightarrow>
          (case parse_query (drop at_query p) of
             None \<Rightarrow> (XDP_PASS, p)
           | Some (query_length, q) \<Rightarrow>
               (case resdb q of
                  None \<Rightarrow> (XDP_PASS, p)
                | Some a_record \<Rightarrow>
                    let p = modify_dns_header_response p;
                        answer = create_query_response a_record;
                        adjust = int (at_query + query_length + length answer) - int (length p)
                    in case adjust_tail adjust p of
                         None \<Rightarrow> (XDP_PASS, p)
                       | Some p \<Rightarrow>
                           if length p < at_dns then (XDP_PASS, p)
                           else (XDP_TX, finish_response csum_diff cluster_ip query_length answer p))))"

section \<open>Frames by their fields\<close>

text \<open>A frame with a DNS message of one question, field by field. \<open>fr_rest\<close> is what follows the question.\<close>

record dns_frame =
  fr_eth_dst :: "nat list"
  fr_eth_src :: "nat list"
  fr_ip_head :: "nat list"
  fr_ip_len :: "nat list"
  fr_ip_mid :: "nat list"
  fr_ip_check :: "nat list"
  fr_ip_src :: "nat list"
  fr_ip_dst :: "nat list"
  fr_udp_src :: "nat list"
  fr_udp_dst :: "nat list"
  fr_udp_len :: "nat list"
  fr_udp_check :: "nat list"
  fr_dns_id :: "nat list"
  fr_dns_flags1 :: nat
  fr_dns_flags2 :: nat
  fr_dns_qcount :: "nat list"
  fr_dns_ancount :: "nat list"
  fr_dns_counts :: "nat list"
  fr_name :: "nat list"
  fr_qtype :: uint16
  fr_qclass :: uint16
  fr_rest :: "nat list"

definition ip_bytes :: "dns_frame \<Rightarrow> nat list" where
  "ip_bytes f = fr_ip_head f @ fr_ip_len f @ fr_ip_mid f @ [17] @ fr_ip_check f @ fr_ip_src f @ fr_ip_dst f"

definition question_bytes :: "dns_frame \<Rightarrow> nat list" where
  "question_bytes f = fr_name f @ [0] @ be16 (unat (fr_qtype f)) @ be16 (unat (fr_qclass f))"

definition dns_bytes :: "dns_frame \<Rightarrow> nat list" where
  "dns_bytes f = fr_dns_id f @ [fr_dns_flags1 f, fr_dns_flags2 f] @ fr_dns_qcount f @ fr_dns_ancount f @ fr_dns_counts f @
     question_bytes f @ fr_rest f"

definition udp_bytes :: "dns_frame \<Rightarrow> nat list" where
  "udp_bytes f = fr_udp_src f @ fr_udp_dst f @ fr_udp_len f @ fr_udp_check f @ dns_bytes f"

definition frame_bytes :: "dns_frame \<Rightarrow> nat list" where
  "frame_bytes f = fr_eth_dst f @ fr_eth_src f @ be16 0x0800 @ ip_bytes f @ udp_bytes f"

lemmas frame_defs = frame_bytes_def ip_bytes_def udp_bytes_def dns_bytes_def question_bytes_def

definition shape :: "dns_frame \<Rightarrow> bool" where
  "shape f \<longleftrightarrow> length (fr_eth_dst f) = 6 \<and> length (fr_eth_src f) = 6 \<and> length (fr_ip_head f) = 2 \<and> length (fr_ip_len f) = 2 \<and>
     length (fr_ip_mid f) = 5 \<and> length (fr_ip_check f) = 2 \<and> length (fr_ip_src f) = 4 \<and> length (fr_ip_dst f) = 4 \<and>
     length (fr_udp_src f) = 2 \<and> length (fr_udp_dst f) = 2 \<and> length (fr_udp_len f) = 2 \<and> length (fr_udp_check f) = 2 \<and>
     length (fr_dns_id f) = 2 \<and> length (fr_dns_qcount f) = 2 \<and> length (fr_dns_ancount f) = 2 \<and> length (fr_dns_counts f) = 4"

definition wf_frame :: "dns_frame \<Rightarrow> bool" where
  "wf_frame f \<longleftrightarrow> shape f \<and> is_bytes (frame_bytes f) \<and> 0 \<notin> set (fr_name f) \<and> length (fr_name f) < MAX_DNS_NAME_LENGTH"

definition query_key :: "dns_frame \<Rightarrow> dnsQuery" where
  "query_key f = \<lparr>dq_QType = fr_qtype f, dq_QClass = fr_qclass f,
     dq_Name = fr_name f @ replicate (MAX_DNS_NAME_LENGTH - length (fr_name f)) 0\<rparr>"

text \<open>A standard query to the DNS service.\<close>

definition is_query :: "dns_frame \<Rightarrow> bool" where
  "is_query f \<longleftrightarrow> fr_udp_dst f = be16 53 \<and> fr_dns_flags1 f < 8"

text \<open>The response to a query before its checksums: the sender gets back its question with one answer, from the
  cluster address of the DNS service.\<close>

definition unchecked_response :: "nat list \<Rightarrow> aRecord \<Rightarrow> dns_frame \<Rightarrow> dns_frame" where
  "unchecked_response cluster_ip a f =
     (let n = 20 + 8 + 12 + length (question_bytes f) + 16 in
      f\<lparr>fr_eth_dst := fr_eth_src f, fr_eth_src := fr_eth_dst f, fr_ip_len := be16 n, fr_ip_check := [0, 0],
        fr_ip_src := cluster_ip, fr_ip_dst := fr_ip_src f, fr_udp_src := fr_udp_dst f, fr_udp_dst := fr_udp_src f,
        fr_udp_len := be16 (n - 20), fr_udp_check := [0, 0], fr_dns_flags1 := fr_dns_flags1 f + 128,
        fr_dns_flags2 := (if fr_dns_flags2 f < 128 then fr_dns_flags2 f + 128 else fr_dns_flags2 f),
        fr_dns_ancount := be16 1, fr_rest := create_query_response a\<rparr>)"

definition response :: "(nat list \<Rightarrow> uint32) \<Rightarrow> nat list \<Rightarrow> aRecord \<Rightarrow> dns_frame \<Rightarrow> dns_frame" where
  "response csum_diff cluster_ip a f =
     (let g = unchecked_response cluster_ip a f; g' = g\<lparr>fr_ip_check := le16 (ipv4_csum csum_diff (ip_bytes g))\<rparr> in
      g'\<lparr>fr_udp_check := le16 (cal_udp_csum (frame_bytes g'))\<rparr>)"

text \<open>\<open>bpf_xdp_adjust_tail\<close> fails or moves the end of the frame; added bytes are unspecified.\<close>

definition tail_contract :: "(int \<Rightarrow> nat list \<Rightarrow> nat list option) \<Rightarrow> bool" where
  "tail_contract adjust_tail \<longleftrightarrow> (\<forall>d p p'. adjust_tail d p = Some p' \<longrightarrow> int (length p') = int (length p) + d \<and>
     (\<forall>i < min (length p) (length p'). p' ! i = p ! i))"

section \<open>The response\<close>

lemma put_append: "length xs = i \<Longrightarrow> length ys = length bs \<Longrightarrow> put i bs (xs @ ys @ zs) = xs @ bs @ zs"
  by (simp add: put_def)

lemma parse_name_finds: "0 \<notin> set n \<Longrightarrow> length n < k \<Longrightarrow> parse_name k acc (n @ 0 # rest) = Some (acc @ n, rest)"
proof (induction n arbitrary: k acc)
  case Nil
  then show ?case by (cases k) simp_all
next
  case (Cons b n)
  then show ?case by (cases k) simp_all
qed

lemma be16_word: "of_nat (256 * (unat w div 256 mod 256) + unat w mod 256) = (w :: uint16)"
proof -
  have "unat w div 256 < 256" using unsigned_less [of w, where ?'a = nat] by simp
  then show ?thesis by simp
qed

lemma length_frame: "shape f \<Longrightarrow> length (frame_bytes f) = 54 + length (question_bytes f) + length (fr_rest f)"
  by (simp add: shape_def frame_defs be16_def)

lemma parse_query_frame:
  assumes "wf_frame f"
  shows "parse_query (drop at_query (frame_bytes f)) = Some (length (question_bytes f), query_key f)"
proof -
  have "drop at_query (frame_bytes f) = fr_name f @ 0 # be16 (unat (fr_qtype f)) @ be16 (unat (fr_qclass f)) @ fr_rest f"
    using assms by (simp add: wf_frame_def shape_def frame_defs offsets be16_def)
  moreover have "parse_name MAX_DNS_NAME_LENGTH [] (fr_name f @ 0 # be16 (unat (fr_qtype f)) @ be16 (unat (fr_qclass f)) @ fr_rest f) =
      Some (fr_name f, be16 (unat (fr_qtype f)) @ be16 (unat (fr_qclass f)) @ fr_rest f)"
    using assms parse_name_finds [of "fr_name f" MAX_DNS_NAME_LENGTH "[]"] by (simp add: wf_frame_def)
  ultimately show ?thesis
    using be16_word [of "fr_qtype f"] be16_word [of "fr_qclass f"]
    by (simp add: parse_query_def query_key_def question_bytes_def be16_def)
qed

lemma dns_query_for_frame:
  assumes "shape f" and "is_query f"
  shows "dns_query_for endpt (frame_bytes f) = endpt (fr_ip_dst f)"
proof -
  have "slice 12 2 (frame_bytes f) = be16 0x0800" "frame_bytes f ! (at_ip + 9) = 17" "slice (at_ip + 16) 4 (frame_bytes f) = fr_ip_dst f"
    "slice (at_udp + 2) 2 (frame_bytes f) = be16 53" "frame_bytes f ! (at_dns + 2) = fr_dns_flags1 f"
    using assms by (simp_all add: shape_def is_query_def slice_def frame_defs offsets nth_append be16_def)
  then show ?thesis
    using assms length_frame [OF assms(1)] by (simp add: dns_query_for_def offsets is_query_def split: option.split)
qed

lemma modify_dns_header_frame:
  assumes "shape f" and "is_query f"
  shows "modify_dns_header_response (frame_bytes f) = frame_bytes (f\<lparr>fr_dns_flags1 := fr_dns_flags1 f + 128,
     fr_dns_flags2 := (if fr_dns_flags2 f < 128 then fr_dns_flags2 f + 128 else fr_dns_flags2 f), fr_dns_ancount := be16 1\<rparr>)"
  using assms by (simp add: modify_dns_header_response_def shape_def is_query_def put_def frame_defs offsets nth_append be16_def)

text \<open>The writes into a frame change its fields.\<close>

definition frame_start :: "dns_frame \<Rightarrow> nat list" where
  "frame_start f = frame_bytes (f\<lparr>fr_rest := []\<rparr>)"

lemma frame_split: "frame_bytes (f\<lparr>fr_rest := x\<rparr>) = frame_start f @ x" "frame_bytes f = frame_start f @ fr_rest f"
  by (simp_all add: frame_start_def frame_defs)

lemma frame_start_rest [simp]: "frame_start (f\<lparr>fr_rest := x\<rparr>) = frame_start f"
  by (simp add: frame_start_def)

lemma length_start: "shape f \<Longrightarrow> length (frame_start f) = at_query + length (question_bytes f)"
  by (simp add: frame_start_def length_frame shape_def offsets question_bytes_def)

lemma copy_answer_frame:
  assumes "shape f" and "length (fr_rest f) = length answer"
  shows "copy_to_pkt_buf (at_query + length (question_bytes f)) answer (frame_bytes f) = frame_bytes (f\<lparr>fr_rest := answer\<rparr>)"
  using assms(2) length_start [OF assms(1)] by (simp add: copy_to_pkt_buf_def put_def frame_split)

lemma put_frame:
  assumes "shape f"
  shows "length b = 2 \<Longrightarrow> put (at_ip + 2) b (frame_bytes f) = frame_bytes (f\<lparr>fr_ip_len := b\<rparr>)"
    and "length b = 2 \<Longrightarrow> put (at_ip + 10) b (frame_bytes f) = frame_bytes (f\<lparr>fr_ip_check := b\<rparr>)"
    and "length b = 2 \<Longrightarrow> put (at_udp + 4) b (frame_bytes f) = frame_bytes (f\<lparr>fr_udp_len := b\<rparr>)"
    and "length b = 2 \<Longrightarrow> put (at_udp + 6) b (frame_bytes f) = frame_bytes (f\<lparr>fr_udp_check := b\<rparr>)"
    and "length c = 4 \<Longrightarrow> put (at_ip + 12) (c @ slice (at_ip + 12) 4 (frame_bytes f)) (frame_bytes f) =
       frame_bytes (f\<lparr>fr_ip_src := c, fr_ip_dst := fr_ip_src f\<rparr>)"
  using assms by (simp_all add: shape_def put_def slice_def frame_defs offsets be16_def)

lemma swap_frame:
  assumes "shape f"
  shows "swap_src_dst_udp (frame_bytes f) = frame_bytes (f\<lparr>fr_udp_src := fr_udp_dst f, fr_udp_dst := fr_udp_src f\<rparr>)"
    and "swap_src_dst_mac (frame_bytes f) = frame_bytes (f\<lparr>fr_eth_dst := fr_eth_src f, fr_eth_src := fr_eth_dst f\<rparr>)"
  using assms by (simp_all add: swap_src_dst_udp_def swap_src_dst_mac_def shape_def put_def slice_def frame_defs offsets be16_def)

lemma slice_ip: "shape f \<Longrightarrow> slice at_ip sizeof_ip (frame_bytes f) = ip_bytes f"
  by (simp add: shape_def slice_def frame_defs offsets be16_def)

lemma length_create [simp]: "length (create_query_response a) = 16"
  by (simp add: create_query_response_def be16_def be32_def)

lemma question_bytes_update [simp]:
  "question_bytes (f\<lparr>fr_rest := x\<rparr>) = question_bytes f" "question_bytes (f\<lparr>fr_dns_flags1 := n\<rparr>) = question_bytes f"
  "question_bytes (f\<lparr>fr_dns_flags2 := n\<rparr>) = question_bytes f" "question_bytes (f\<lparr>fr_dns_ancount := x\<rparr>) = question_bytes f"
  "question_bytes (f\<lparr>fr_ip_len := x\<rparr>) = question_bytes f"
  by (simp_all add: question_bytes_def)

lemma finish_response_frame:
  assumes "shape f" and "length t = 16" and "length cluster_ip = 4"
  shows "finish_response csum_diff cluster_ip (length (question_bytes f)) (create_query_response a)
      (frame_bytes (f\<lparr>fr_dns_flags1 := fr_dns_flags1 f + 128,
        fr_dns_flags2 := (if fr_dns_flags2 f < 128 then fr_dns_flags2 f + 128 else fr_dns_flags2 f), fr_dns_ancount := be16 1, fr_rest := t\<rparr>)) =
    frame_bytes (response csum_diff cluster_ip a f)"
proof -
  have lens: "length (be16 n) = 2" "length (le16 w) = 2" for n w by (simp_all add: be16_def le16_def)
  define g where "g = f\<lparr>fr_dns_flags1 := fr_dns_flags1 f + 128,
        fr_dns_flags2 := (if fr_dns_flags2 f < 128 then fr_dns_flags2 f + 128 else fr_dns_flags2 f), fr_dns_ancount := be16 1, fr_rest := t\<rparr>"
  have g: "shape g" "length (fr_rest g) = length (create_query_response a)" "question_bytes g = question_bytes f"
    using assms by (simp_all add: g_def shape_def lens)
  define g1 where "g1 = g\<lparr>fr_rest := create_query_response a\<rparr>"
  have g1: "shape g1" "question_bytes g1 = question_bytes f" "length (fr_rest g1) = 16" using g by (simp_all add: g1_def shape_def)
  define g2 where "g2 = g1\<lparr>fr_ip_len := be16 (20 + 8 + 12 + length (question_bytes f) + 16)\<rparr>"
  have g2: "shape g2" "question_bytes g2 = question_bytes f" "length (fr_rest g2) = 16" using g1 by (simp_all add: g2_def shape_def lens)
  define g3 where "g3 = g2\<lparr>fr_udp_len := be16 (8 + 12 + length (question_bytes f) + 16)\<rparr>"
  have g3: "shape g3" using g2 by (simp add: g3_def shape_def lens)
  define g4 where "g4 = g3\<lparr>fr_ip_src := cluster_ip, fr_ip_dst := fr_ip_src g3\<rparr>"
  have g4: "shape g4" using g3 assms(3) by (simp add: g4_def shape_def)
  define g5 where "g5 = g4\<lparr>fr_udp_src := fr_udp_dst g4, fr_udp_dst := fr_udp_src g4\<rparr>"
  have g5: "shape g5" using g4 by (simp add: g5_def shape_def)
  define g6 where "g6 = g5\<lparr>fr_eth_dst := fr_eth_src g5, fr_eth_src := fr_eth_dst g5\<rparr>"
  have g6: "shape g6" using g5 by (simp add: g6_def shape_def)
  define g7 where "g7 = g6\<lparr>fr_ip_check := [0, 0]\<rparr>"
  have g7: "shape g7" using g6 by (simp add: g7_def shape_def)
  define g8 where "g8 = g7\<lparr>fr_ip_check := le16 (ipv4_csum csum_diff (ip_bytes g7))\<rparr>"
  have g8: "shape g8" using g7 by (simp add: g8_def shape_def lens)
  define g9 where "g9 = g8\<lparr>fr_udp_check := [0, 0]\<rparr>"
  have g9: "shape g9" using g8 by (simp add: g9_def shape_def)
  have "copy_to_pkt_buf (at_query + length (question_bytes f)) (create_query_response a) (frame_bytes g) = frame_bytes g1"
    using copy_answer_frame [OF g(1,2)] by (simp add: g(3) g1_def)
  moreover have "put (at_ip + 2) (be16 (length (frame_bytes g1) - sizeof_eth)) (frame_bytes g1) = frame_bytes g2"
    using put_frame(1) [OF g1(1) lens(1)] by (simp add: g2_def length_frame [OF g1(1)] g1(2,3) sizeof_eth_def add.commute)
  moreover have "put (at_udp + 4) (be16 (length (frame_bytes g2) - sizeof_eth - sizeof_ip)) (frame_bytes g2) = frame_bytes g3"
    using put_frame(3) [OF g2(1) lens(1)] by (simp add: g3_def length_frame [OF g2(1)] g2(2,3) sizeof_eth_def sizeof_ip_def add.commute)
  moreover have "put (at_ip + 12) (cluster_ip @ slice (at_ip + 12) 4 (frame_bytes g3)) (frame_bytes g3) = frame_bytes g4"
    using put_frame(5) [OF g3 assms(3)] by (simp add: g4_def)
  moreover have "swap_src_dst_udp (frame_bytes g4) = frame_bytes g5" using swap_frame(1) [OF g4] by (simp add: g5_def)
  moreover have "swap_src_dst_mac (frame_bytes g5) = frame_bytes g6" using swap_frame(2) [OF g5] by (simp add: g6_def)
  moreover have "put (at_ip + 10) [0, 0] (frame_bytes g6) = frame_bytes g7" using put_frame(2) [OF g6, of "[0, 0]"] by (simp add: g7_def)
  moreover have "put (at_ip + 10) (le16 (ipv4_csum csum_diff (slice at_ip sizeof_ip (frame_bytes g7)))) (frame_bytes g7) = frame_bytes g8"
    using put_frame(2) [OF g7 lens(2)] by (simp add: slice_ip [OF g7] g8_def)
  moreover have "put (at_udp + 6) [0, 0] (frame_bytes g8) = frame_bytes g9" using put_frame(4) [OF g8, of "[0, 0]"] by (simp add: g9_def)
  ultimately have steps: "finish_response csum_diff cluster_ip (length (question_bytes f)) (create_query_response a) (frame_bytes g) =
      put (at_udp + 6) (le16 (cal_udp_csum (frame_bytes g9))) (frame_bytes g9)"
    by (simp only: finish_response_def Let_def)
  have "g9 = (unchecked_response cluster_ip a f)\<lparr>fr_ip_check := le16 (ipv4_csum csum_diff (ip_bytes g7))\<rparr>"
    by (simp add: unchecked_response_def Let_def g9_def g8_def g7_def g6_def g5_def g4_def g3_def g2_def g1_def g_def)
  moreover have "ip_bytes g7 = ip_bytes (unchecked_response cluster_ip a f)"
    by (simp add: unchecked_response_def Let_def ip_bytes_def g7_def g6_def g5_def g4_def g3_def g2_def g1_def g_def)
  ultimately have "frame_bytes (g9\<lparr>fr_udp_check := le16 (cal_udp_csum (frame_bytes g9))\<rparr>) = frame_bytes (response csum_diff cluster_ip a f)"
    by (simp add: response_def Let_def)
  then show ?thesis
    unfolding g_def [symmetric] steps by (simp add: put_frame(4) [OF g9] lens)
qed

section \<open>Checksums\<close>

text \<open>The ones' complement sum of RFC 1071: carries are added until 16 bits are left. A checksum is right when the sum
  with it is all ones.\<close>

function ones :: "nat \<Rightarrow> nat" where
  "ones n = (if n < 65536 then n else ones (n mod 65536 + n div 65536))"
  by pat_completeness auto
termination
proof (relation "measure id")
  fix n :: nat
  assume "\<not> n < 65536"
  then have "0 < n div 65536" by simp
  then have "n mod 65536 + n div 65536 < n" using div_mult_mod_eq [of n 65536] by linarith
  then show "(n mod 65536 + n div 65536, n) \<in> measure id" by simp
qed simp

declare ones.simps [simp del]

lemma fold_mod: "((n :: nat) mod 65536 + n div 65536) mod 65535 = n mod 65535"
proof -
  have "n = n mod 65536 + n div 65536 + n div 65536 * 65535" using div_mult_mod_eq [of n 65536] by simp
  then show ?thesis by (metis mod_mult_self1)
qed

lemma fold_zero: "(n :: nat) mod 65536 + n div 65536 = 0 \<longleftrightarrow> n = 0"
  using div_mult_mod_eq [of n 65536] by auto

lemma ones_facts: "ones n < 65536 \<and> ones n mod 65535 = n mod 65535 \<and> (ones n = 0 \<longleftrightarrow> n = 0)"
proof (induction n rule: ones.induct)
  case (1 n)
  then show ?case
    using fold_mod [of n] fold_zero [of n] ones.simps [of n] by (cases "n < 65536") simp_all
qed

lemma ones_valid: "ones n = 65535 \<longleftrightarrow> n \<noteq> 0 \<and> n mod 65535 = 0"
proof
  assume "ones n = 65535"
  with ones_facts [of n] show "n \<noteq> 0 \<and> n mod 65535 = 0" by auto
next
  assume "n \<noteq> 0 \<and> n mod 65535 = 0"
  with ones_facts [of n] have "ones n \<noteq> 0" "ones n mod 65535 = 0" "ones n < 65536" by auto
  then have "ones n = 65535 * (ones n div 65535)" using div_mult_mod_eq [of "ones n" 65535] by simp
  with \<open>ones n \<noteq> 0\<close> \<open>ones n < 65536\<close> show "ones n = 65535" by (cases "ones n div 65535") auto
qed

text \<open>Four rounds suffice for 64 bits.\<close>

lemma fold_round_facts: "fold_round c mod 65535 = c mod 65535" "fold_round c = 0 \<longleftrightarrow> c = 0"
  using fold_mod [of c] fold_zero [of c] by (auto simp: fold_round_def)

lemma fold_round_bound:
  assumes "c \<le> 65536 * M + 65534" and "0 < M"
  shows "fold_round c \<le> M + 65534"
proof -
  have c: "c = 65536 * (c div 65536) + c mod 65536" and "c mod 65536 < 65536" by simp_all
  with assms(1) have "c div 65536 < M \<or> c div 65536 = M \<and> c mod 65536 \<le> 65534" by linarith
  with \<open>c mod 65536 < 65536\<close> have "c mod 65536 + c div 65536 \<le> M + 65534" by linarith
  moreover have "c div 65536 = 0 \<Longrightarrow> c \<le> M + 65534" using c \<open>c mod 65536 < 65536\<close> assms(2) by linarith
  ultimately show ?thesis by (simp add: fold_round_def)
qed

lemma four_rounds:
  assumes "c < 2 ^ 64"
  shows "(fold_round ^^ 4) c < 65536 \<and> (fold_round ^^ 4) c mod 65535 = c mod 65535 \<and> ((fold_round ^^ 4) c = 0 \<longleftrightarrow> c = 0)"
proof -
  have "(fold_round ^^ 4) c = fold_round (fold_round (fold_round (fold_round c)))" by (simp add: numeral_eq_Suc)
  moreover have "fold_round (fold_round (fold_round (fold_round c))) < 2 ^ 16"
    using assms fold_round_bound [of c "2 ^ 48"] fold_round_bound [of "fold_round c" "2 ^ 32"]
      fold_round_bound [of "fold_round (fold_round c)" "2 ^ 16"] fold_round_bound [of "fold_round (fold_round (fold_round c))" 1]
    by simp
  ultimately show ?thesis by (simp add: fold_round_facts)
qed

lemma minus_diff_16: "- w - 1 = - 1 - (w :: uint16)"
  by simp

lemma unat_not: "unat (NOT w :: uint16) = 65535 - unat w"
proof -
  have "unat w \<le> 65535" using unsigned_less [of w, where ?'a = nat] by simp
  moreover have max: "unat (- 1 :: uint16) = 65535" by (simp add: unsigned_minus_1_eq_mask mask_eq_exp_minus_1)
  ultimately have "unat (- 1 - w) = unat (- 1 :: uint16) - unat w" by (intro unat_sub) (simp add: word_le_nat_alt)
  then show ?thesis by (simp add: not_eq_complement max minus_diff_16)
qed

text \<open>Sign extension adds a multiple of 65535.\<close>

lemma sint32: "sint (w :: uint32) = uint w \<or> sint w = uint w - 2 ^ 32"
proof -
  have "uint w < 2 ^ 32" using unsigned_less [of w, where ?'a = int] by simp
  then have "take_bit 32 (uint w) = uint w" by (simp add: take_bit_int_eq_self_iff)
  then show ?thesis by (simp add: sint_uint signed_take_bit_eq_take_bit_minus)
qed

lemma scast64: "uint (scast (w :: uint32) :: uint64) = sint w mod 2 ^ 64"
proof -
  have "(scast w :: uint64) = word_of_int (sint w)" by simp
  then show ?thesis by (simp only: uint_word_of_int) (simp add: take_bit_eq_mod)
qed

lemma scast64_cases: "uint (scast (w :: uint32) :: uint64) = uint w \<or> uint w \<noteq> 0 \<and> uint (scast w :: uint64) = uint w + (2 ^ 64 - 2 ^ 32)"
proof -
  have b: "0 \<le> uint w" "uint w < 2 ^ 32" using unsigned_less [of w, where ?'a = int] by simp_all
  consider "sint w = uint w" | "sint w = uint w - 2 ^ 32" "uint w \<noteq> 0" 
    using sint32 [of w] by (metis sint_0 uint_0_iff unsigned_0)
  then show ?thesis
  proof cases
    case 1
    with b show ?thesis by (simp add: scast64)
  next
    case 2
    then have "sint w mod 2 ^ 64 = (uint w + (2 ^ 64 - 2 ^ 32)) mod 2 ^ 64" by (simp add: mod_eq_dvd_iff)
    also have "\<dots> = uint w + (2 ^ 64 - 2 ^ 32)" using b by simp
    finally show ?thesis using 2 by (simp add: scast64)
  qed
qed

lemma unat_scast: "unat (scast (w :: uint32) :: uint64) mod 65535 = unat w mod 65535" "(scast (w :: uint32) :: uint64) = 0 \<longleftrightarrow> w = 0"
proof -
  have "(2 ^ 64 - 2 ^ 32 :: int) = 65535 * 281479271677952" by simp
  then have "uint (scast w :: uint64) mod 65535 = uint w mod 65535" using scast64_cases [of w] by (metis mod_mult_self2 mult.commute)
  then show "unat (scast w :: uint64) mod 65535 = unat w mod 65535"
    by (metis nat_mod_distrib uint_nonnegative unat_eq_nat_uint nat_numeral zero_le_numeral)
  have "0 \<le> x \<Longrightarrow> x + (2 ^ 64 - 2 ^ 32) \<noteq> 0" for x :: int by simp
  from this [OF unsigned_greater_eq [of w]] have "uint w + (2 ^ 64 - 2 ^ 32) \<noteq> 0" .
  then have "uint (scast w :: uint64) = 0 \<longleftrightarrow> uint w = 0" using scast64_cases [of w] by metis
  then show "(scast w :: uint64) = 0 \<longleftrightarrow> w = 0" by (simp only: uint_0_iff)
qed
lemma csum_fold:
  "unat (csum_fold_helper c) \<le> 65535" "(unat c + unat (csum_fold_helper c)) mod 65535 = 0"
  "unat c \<noteq> 0 \<Longrightarrow> unat (csum_fold_helper c) < 65535"
proof -
  let ?r = "(fold_round ^^ 4) (unat c)"
  have "unat c < 2 ^ 64" using unsigned_less [of c, where ?'a = nat] by simp
  note r = four_rounds [OF this]
  then have u: "unat (csum_fold_helper c) = 65535 - ?r" by (simp add: csum_fold_helper_def unat_not unat_of_nat)
  then show "unat (csum_fold_helper c) \<le> 65535" "unat c \<noteq> 0 \<Longrightarrow> unat (csum_fold_helper c) < 65535" using r by auto
  have "(unat c + (65535 - ?r)) mod 65535 = (unat c mod 65535 + (65535 - ?r)) mod 65535" by (simp add: mod_add_left_eq)
  also have "\<dots> = (?r mod 65535 + (65535 - ?r)) mod 65535" using r by simp
  also have "\<dots> = (?r + (65535 - ?r)) mod 65535" by (simp add: mod_add_left_eq)
  also have "\<dots> = 0" using r by simp
  finally show "(unat c + unat (csum_fold_helper c)) mod 65535 = 0" by (simp add: u)
qed

lemma sum16_append: "even (length xs) \<Longrightarrow> sum16 (xs @ ys) = sum16 xs + sum16 ys"
  by (induction xs rule: sum16.induct) simp_all

lemma sum16_le16 [simp]: "sum16 (le16 w) = unat w" "length (le16 w) = 2"
  by (simp_all add: le16_def add.commute)

lemma sum16_pair [simp]: "length xs = 2 \<Longrightarrow> sum16 xs = xs ! 0 + 256 * xs ! 1"
  by (auto simp: numeral_2_eq_2 length_Suc_conv)

text \<open>The checksum of the kernel, which takes a number of bytes that is a multiple of four: the sum of the words, up to carries.\<close>

definition csum_contract :: "(nat list \<Rightarrow> uint32) \<Rightarrow> bool" where
  "csum_contract csum_diff \<longleftrightarrow> (\<forall>bs. length bs mod 4 = 0 \<longrightarrow>
     unat (csum_diff bs) mod 65535 = sum16 bs mod 65535 \<and> (csum_diff bs = 0 \<longleftrightarrow> sum16 bs = 0))"

lemma ipv4_csum_sum:
  assumes "csum_contract csum_diff" and "sum16 bs \<noteq> 0" and "length bs mod 4 = 0"
  shows "ones (sum16 bs + unat (ipv4_csum csum_diff bs)) = 65535"
proof -
  let ?c = "scast (csum_diff bs) :: uint64"
  have "unat ?c mod 65535 = sum16 bs mod 65535" using assms(1,3) by (simp add: csum_contract_def unat_scast(1))
  moreover have "(unat ?c + unat (ipv4_csum csum_diff bs)) mod 65535 = 0" using csum_fold(2) [of ?c] by (simp add: ipv4_csum_def)
  ultimately have "(sum16 bs + unat (ipv4_csum csum_diff bs)) mod 65535 = 0" by (metis mod_add_left_eq)
  then show ?thesis using assms(2) by (simp add: ones_valid)
qed

lemma udp_csum_loop_none: "length bs \<le> 1 \<Longrightarrow> udp_csum_loop n bs acc = (acc, bs)"
  by (cases n; cases bs; cases "tl bs") simp_all

lemma udp_csum_loop_sum:
  assumes "length bs \<le> 2 * n + 1"
  shows "(let (acc, rest) = udp_csum_loop n bs acc in if rest \<noteq> [] then acc + of_nat (hd rest) else acc) = acc + of_nat (sum16 bs)"
  using assms
proof (induction bs arbitrary: n acc rule: sum16.induct)
  case (3 a b bs)
  then obtain m where "n = Suc m" by (cases n) simp_all
  with 3 show ?case by (simp add: add.assoc)
qed (simp_all add: udp_csum_loop_none)

lemma sum16_bound: "is_bytes bs \<Longrightarrow> sum16 bs \<le> 65535 * ((length bs + 1) div 2)"
  by (induction bs rule: sum16.induct) (auto simp: is_bytes_def)

text \<open>The sum over the pseudo header, the UDP header and the payload.\<close>

definition udp_sum :: "dns_frame \<Rightarrow> nat" where
  "udp_sum f = sum16 (fr_ip_src f @ fr_ip_dst f @ [0, 17] @ fr_udp_len f) + sum16 (udp_bytes f)"

lemma is_bytes_simps [simp]:
  "is_bytes (xs @ ys) \<longleftrightarrow> is_bytes xs \<and> is_bytes ys" "is_bytes (b # xs) \<longleftrightarrow> b < 256 \<and> is_bytes xs" "is_bytes []"
  by (simp_all add: is_bytes_def)

lemma ucast_halves:
  fixes acc :: uint32
  assumes "unat acc = n"
  shows "ucast acc = (of_nat (n mod 65536) :: uint16)" and "ucast (drop_bit 16 acc) = (of_nat (n div 65536) :: uint16)"
proof -
  have u: "ucast x = (of_nat (unat x) :: uint16)" for x :: uint32 by simp
  show "ucast acc = (of_nat (n mod 65536) :: uint16)" unfolding u assms by (simp add: word_of_nat_eq_iff take_bit_eq_mod)
  show "ucast (drop_bit 16 acc) = (of_nat (n div 65536) :: uint16)"
    unfolding u unat_drop_bit_eq assms by (simp add: word_of_nat_eq_iff take_bit_eq_mod drop_bit_eq_div)
qed

lemma cal_udp_csum_frame:
  assumes "shape f" and "length (udp_bytes f) \<le> 1481" and "is_bytes (frame_bytes f)"
  shows "udp_sum f < 2 ^ 32" and "cal_udp_csum (frame_bytes f) = NOT (of_nat (udp_sum f mod 65536) + of_nat (udp_sum f div 65536))"
proof -
  let ?pseudo = "fr_ip_src f @ fr_ip_dst f @ [0, 17] @ fr_udp_len f"
  have bytes: "is_bytes (fr_ip_src f)" "is_bytes (fr_ip_dst f)" "is_bytes (fr_udp_len f)" "is_bytes (udp_bytes f)"
    using assms(3) by (simp_all add: frame_bytes_def ip_bytes_def udp_bytes_def)
  then have "is_bytes ?pseudo" "length ?pseudo = 12" using assms(1) by (simp_all add: is_bytes_def shape_def)
  with sum16_bound [of ?pseudo] sum16_bound [OF bytes(4)] assms(2) show bound: "udp_sum f < 2 ^ 32"
    unfolding udp_sum_def by simp
  have parts: "slice (at_ip + 12) 8 (frame_bytes f) = fr_ip_src f @ fr_ip_dst f" "frame_bytes f ! (at_ip + 9) = 17"
    "slice (at_udp + 4) 2 (frame_bytes f) = fr_udp_len f" "drop at_udp (frame_bytes f) = udp_bytes f"
    using assms(1) by (simp_all add: shape_def slice_def frame_defs offsets nth_append be16_def)
  have acc: "of_nat (sum16 (fr_ip_src f @ fr_ip_dst f)) + of_nat 17 * 256 + of_nat (sum16 (fr_udp_len f)) + of_nat (sum16 (udp_bytes f)) =
      (of_nat (udp_sum f) :: uint32)"
    using assms(1) by (simp add: udp_sum_def sum16_append shape_def)
  let ?acc = "of_nat (udp_sum f) :: uint32"
  have "length (udp_bytes f) \<le> 2 * (MAX_UDP_SIZE div 2) + 1" using assms(2) by (simp add: MAX_UDP_SIZE_def)
  from udp_csum_loop_sum [OF this]
  have "cal_udp_csum (frame_bytes f) = NOT (ucast ?acc + ucast (drop_bit 16 ?acc))"
    unfolding cal_udp_csum_def Let_def parts by (simp only: case_prod_beta Let_def acc)
  moreover have u: "unat ?acc = udp_sum f" using bound by (simp add: unat_of_nat)
  ultimately show "cal_udp_csum (frame_bytes f) = NOT (of_nat (udp_sum f mod 65536) + of_nat (udp_sum f div 65536))"
    by (simp only: ucast_halves [OF u])
qed

section \<open>The program answers queries\<close>

lemma tail_answer:
  assumes "tail_contract adjust_tail" and "shape f" and "adjust_tail (16 - int (length (fr_rest f))) (frame_bytes f) = Some p'"
  shows "\<exists>t. length t = 16 \<and> p' = frame_bytes (f\<lparr>fr_rest := t\<rparr>)"
proof -
  have "int (length p') = int (length (frame_bytes f)) + (16 - int (length (fr_rest f)))"
    and same: "\<forall>i < min (length (frame_bytes f)) (length p'). p' ! i = frame_bytes f ! i"
    using assms(1,3) unfolding tail_contract_def by blast+
  then have len: "length p' = length (frame_start f) + 16" by (simp add: frame_split(2))
  have "take (length (frame_start f)) p' = frame_start f"
    using same by (intro nth_equalityI) (simp_all add: len frame_split(2) nth_append)
  then have "p' = frame_start f @ drop (length (frame_start f)) p'" by (metis append_take_drop_id)
  moreover have "length (drop (length (frame_start f)) p') = 16" by (simp add: len)
  ultimately show ?thesis using frame_split(1) by metis
qed

lemma answers_query:
  assumes "wf_frame f" and "is_query f" and "endpt (fr_ip_dst f) = Some cluster_ip" and "length cluster_ip = 4"
    and "resdb (query_key f) = Some a" and "tail_contract adjust_tail"
    and "adjust_tail (16 - int (length (fr_rest f))) (modify_dns_header_response (frame_bytes f)) \<noteq> None"
  shows "ecnet_dns_proxy endpt resdb adjust_tail csum_diff (frame_bytes f) = (XDP_TX, frame_bytes (response csum_diff cluster_ip a f))"
proof -
  have shape: "shape f" using assms(1) by (simp add: wf_frame_def)
  define h where "h = f\<lparr>fr_dns_flags1 := fr_dns_flags1 f + 128,
     fr_dns_flags2 := (if fr_dns_flags2 f < 128 then fr_dns_flags2 f + 128 else fr_dns_flags2 f), fr_dns_ancount := be16 1\<rparr>"
  have h: "modify_dns_header_response (frame_bytes f) = frame_bytes h" using modify_dns_header_frame [OF shape assms(2)] by (simp add: h_def)
  have "shape h" and q: "question_bytes h = question_bytes f" and r: "fr_rest h = fr_rest f"
    using shape by (simp_all add: h_def shape_def be16_def)
  have adjust: "int at_query + int (length (question_bytes f)) + 16 - int (length (frame_bytes h)) = 16 - int (length (fr_rest f))"
    using length_frame [OF \<open>shape h\<close>] by (simp add: q r offsets)
  obtain p' where p': "adjust_tail (16 - int (length (fr_rest f))) (frame_bytes h) = Some p'" using assms(7) by (auto simp: h)
  from tail_answer [OF assms(6) \<open>shape h\<close>] p' obtain t where t: "length t = 16" "p' = frame_bytes (h\<lparr>fr_rest := t\<rparr>)" by (auto simp: r)
  have "length p' \<ge> at_dns" using t \<open>shape h\<close> length_frame [of "h\<lparr>fr_rest := t\<rparr>"] by (simp add: shape_def offsets)
  moreover have "finish_response csum_diff cluster_ip (length (question_bytes f)) (create_query_response a) p' =
      frame_bytes (response csum_diff cluster_ip a f)"
    using finish_response_frame [OF shape t(1) assms(4), of csum_diff a] t(2) by (simp add: h_def)
  ultimately show ?thesis
    by (simp add: ecnet_dns_proxy_def dns_query_for_frame [OF shape assms(2)] assms(3,5) parse_query_frame [OF assms(1)] h Let_def adjust p')
qed

text \<open>C21. The DNS program refines its specification on frames by their fields: a well-formed standard query to an
  endpoint of the DNS service, for a name in the kernel map, is answered to its sender, with the question repeated, one A record with the
  address and time to live of the map, and lengths and checksums for the new frame. (When the kernel can move
  the end of the frame.)\<close>

theorem dns_proxy_answers:
  assumes "wf_frame f" and "is_query f" and "endpt (fr_ip_dst f) = Some cluster_ip" and "length cluster_ip = 4"
    and "resdb (query_key f) = Some a" and "tail_contract adjust_tail"
    and "adjust_tail (16 - int (length (fr_rest f))) (modify_dns_header_response (frame_bytes f)) \<noteq> None"
  shows "ecnet_dns_proxy endpt resdb adjust_tail csum_diff (frame_bytes f) = (XDP_TX, frame_bytes (response csum_diff cluster_ip a f))"
  using assms by (rule answers_query)

section \<open>The checksums of the response\<close>

text \<open>A receiver accepts a header checksum when the sum is all ones, and a UDP checksum also when it is absent.\<close>

definition ip_valid :: "dns_frame \<Rightarrow> bool" where
  "ip_valid f \<longleftrightarrow> ones (sum16 (ip_bytes f)) = 65535"

definition udp_valid :: "dns_frame \<Rightarrow> bool" where
  "udp_valid f \<longleftrightarrow> fr_udp_check f = [0, 0] \<or> ones (udp_sum f) = 65535"

lemma sum16_ip:
  assumes "shape f"
  shows "sum16 (ip_bytes (f\<lparr>fr_ip_check := le16 w\<rparr>)) = sum16 (ip_bytes (f\<lparr>fr_ip_check := [0, 0]\<rparr>)) + unat w"
    and "sum16 (ip_bytes f) \<noteq> 0"
proof -
  have mid: "even (length (fr_ip_head f @ fr_ip_len f @ fr_ip_mid f @ [17]))" using assms by (simp add: shape_def)
  have "ip_bytes (f\<lparr>fr_ip_check := c\<rparr>) = (fr_ip_head f @ fr_ip_len f @ fr_ip_mid f @ [17]) @ c @ fr_ip_src f @ fr_ip_dst f" for c
    by (simp add: ip_bytes_def)
  then show "sum16 (ip_bytes (f\<lparr>fr_ip_check := le16 w\<rparr>)) = sum16 (ip_bytes (f\<lparr>fr_ip_check := [0, 0]\<rparr>)) + unat w"
    by (simp only: sum16_append [OF mid]) (simp add: sum16_append)
  have "ip_bytes f = (fr_ip_head f @ fr_ip_len f) @ (fr_ip_mid f @ [17]) @ fr_ip_check f @ fr_ip_src f @ fr_ip_dst f"
    by (simp add: ip_bytes_def)
  moreover have "fr_ip_mid f @ [17] = [fr_ip_mid f ! 0, fr_ip_mid f ! 1, fr_ip_mid f ! 2, fr_ip_mid f ! 3, fr_ip_mid f ! 4, 17]"
    using assms by (auto simp: shape_def numeral_eq_Suc length_Suc_conv)
  ultimately show "sum16 (ip_bytes f) \<noteq> 0" using assms by (simp add: sum16_append shape_def)
qed

lemma response_shape:
  assumes "wf_frame f" and "is_query f" and "length cluster_ip = 4" and "is_bytes cluster_ip"
  shows "shape (unchecked_response cluster_ip a f)" and "is_bytes (frame_bytes (unchecked_response cluster_ip a f))"
    and "length (udp_bytes (unchecked_response cluster_ip a f)) \<le> 1481"
proof -
  have b: "is_bytes (be16 n)" "is_bytes (be32 w)" "is_bytes (create_query_response a)" for n w
    using unsigned_less [of w, where ?'a = nat] unsigned_less [of "ar_TTL a", where ?'a = nat] unsigned_less [of "ar_Addr a", where ?'a = nat]
    by (simp_all add: create_query_response_def be16_def be32_def less_mult_imp_div_less)
  show "shape (unchecked_response cluster_ip a f)"
    using assms by (simp add: wf_frame_def unchecked_response_def Let_def shape_def be16_def)
  show "is_bytes (frame_bytes (unchecked_response cluster_ip a f))"
    using assms b by (simp add: wf_frame_def is_query_def unchecked_response_def Let_def frame_defs)
  show "length (udp_bytes (unchecked_response cluster_ip a f)) \<le> 1481"
    using assms by (simp add: wf_frame_def MAX_DNS_NAME_LENGTH_def unchecked_response_def Let_def shape_def be16_def udp_bytes_def dns_bytes_def question_bytes_def)
qed

text \<open>C22. The header checksum of every response is right: with the checksum that the program folds from the kernel's sum,
  the 16-bit words of the IPv4 header add up to all ones, whatever the fields of the query.\<close>

theorem response_ip_checksum:
  assumes "wf_frame f" and "is_query f" and "length cluster_ip = 4" and "is_bytes cluster_ip" and "csum_contract csum_diff"
  shows "ip_valid (response csum_diff cluster_ip a f)"
proof -
  let ?g = "unchecked_response cluster_ip a f"
  have g: "?g\<lparr>fr_ip_check := [0, 0]\<rparr> = ?g" by (simp add: unchecked_response_def Let_def)
  note sum = sum16_ip [OF response_shape(1) [OF assms(1-4), of a], unfolded g]
  have "ip_bytes (response csum_diff cluster_ip a f) = ip_bytes (?g\<lparr>fr_ip_check := le16 (ipv4_csum csum_diff (ip_bytes ?g))\<rparr>)"
    by (simp add: response_def Let_def ip_bytes_def)
  moreover have "length (ip_bytes ?g) = 20" using response_shape(1) [OF assms(1-4), of a] by (simp add: shape_def ip_bytes_def)
  ultimately show ?thesis using ipv4_csum_sum [OF assms(5) sum(2)] by (simp add: ip_valid_def sum(1))
qed

lemma udp_sum_check:
  assumes "shape f" and "fr_udp_check f = [0, 0]"
  shows "udp_sum (f\<lparr>fr_udp_check := le16 w\<rparr>) = udp_sum f + unat w"
proof -
  have "even (length (fr_udp_src f @ fr_udp_dst f @ fr_udp_len f))" using assms(1) by (simp add: shape_def)
  from sum16_append [OF this, of "le16 w @ dns_bytes f"] sum16_append [OF this, of "[0, 0] @ dns_bytes f"] assms(2)
  have "sum16 (udp_bytes (f\<lparr>fr_udp_check := le16 w\<rparr>)) = sum16 (udp_bytes f) + unat w"
    by (simp add: udp_bytes_def dns_bytes_def question_bytes_def sum16_append)
  then show ?thesis by (simp add: udp_sum_def)
qed

lemma lost_carry:
  assumes "n < 2 ^ 32" and "0 < n" and "c = NOT (of_nat (n mod 65536) + of_nat (n div 65536) :: uint16)"
  shows "c = 0 \<or> ones (n + unat c) = 65535 \<longleftrightarrow> n mod 65536 + n div 65536 < 65536"
proof -
  let ?s = "n mod 65536 + n div 65536"
  have s: "?s mod 65535 = n mod 65535" "0 < ?s" using fold_mod [of n] fold_zero [of n] assms(2) by auto
  have "unat (of_nat (n mod 65536) + of_nat (n div 65536) :: uint16) = ?s mod 65536" by (simp add: unat_word_ariths unat_of_nat mod_simps)
  then have c: "unat c = 65535 - ?s mod 65536" using assms(3) by (simp only: unat_not)
  show ?thesis
  proof (cases "?s < 65536")
    case True
    then have "unat c = 65535 - ?s" using c by simp
    with True s have "(n + unat c) mod 65535 = (?s + (65535 - ?s)) mod 65535" by (metis mod_add_left_eq)
    with True have "(n + unat c) mod 65535 = 0" by simp
    with True assms(2) show ?thesis by (simp add: ones_valid)
  next
    case False
    have "n div 65536 < 65536" using assms(1) by (simp add: less_mult_imp_div_less)
    moreover have "n mod 65536 < 65536" by simp
    ultimately have "?s < 131071" by linarith
    moreover have "65536 \<le> x \<Longrightarrow> x < 131072 \<Longrightarrow> x mod 65536 = x - 65536" for x :: nat by (simp add: le_mod_geq)
    ultimately have m: "?s mod 65536 = ?s - 65536" "?s < 131071" using False by simp_all
    then have "unat c = 131071 - ?s" "c \<noteq> 0" using c False by auto
    then have "(n + unat c) mod 65535 = (?s + (131071 - ?s)) mod 65535" using s by (metis mod_add_left_eq)
    with m False have "(n + unat c) mod 65535 = 1" by simp
    with False \<open>c \<noteq> 0\<close> show ?thesis by (simp add: ones_valid)
  qed
qed

lemma le16_zero: "le16 w = [0, 0] \<longleftrightarrow> w = 0"
  by (auto simp: le16_def unat_eq_0 [symmetric] simp del: unat_eq_0)

text \<open>C26. The UDP checksum of a response is right exactly when one fold of the sum leaves no carry: when the halves of the
  sum add up to more than 16 bits, the carry is lost and the receiver drops the answer.\<close>

theorem response_udp_checksum:
  assumes "wf_frame f" and "is_query f" and "length cluster_ip = 4" and "is_bytes cluster_ip"
  shows "udp_valid (response csum_diff cluster_ip a f) \<longleftrightarrow>
     udp_sum (unchecked_response cluster_ip a f) mod 65536 + udp_sum (unchecked_response cluster_ip a f) div 65536 < 65536"
proof -
  let ?g = "unchecked_response cluster_ip a f"
  define h where "h = ?g\<lparr>fr_ip_check := le16 (ipv4_csum csum_diff (ip_bytes ?g))\<rparr>"
  have same: "udp_bytes h = udp_bytes ?g" "udp_sum h = udp_sum ?g" by (simp_all add: h_def udp_sum_def udp_bytes_def dns_bytes_def question_bytes_def)
  note g = response_shape [OF assms, of a]
  have "is_bytes (le16 w)" for w using unsigned_less [of w, where ?'a = nat] by (simp add: le16_def less_mult_imp_div_less)
  then have h: "shape h" "length (udp_bytes h) \<le> 1481" "is_bytes (frame_bytes h)" "fr_udp_check h = [0, 0]"
    using g by (simp_all add: same) (simp_all add: h_def shape_def frame_defs unchecked_response_def Let_def)
  define c where "c = cal_udp_csum (frame_bytes h)"
  have r: "response csum_diff cluster_ip a f = h\<lparr>fr_udp_check := le16 c\<rparr>" by (simp add: response_def Let_def h_def c_def)
  have "0 < udp_sum h" using h(1) by (simp add: udp_sum_def sum16_append shape_def)
  from lost_carry [OF cal_udp_csum_frame(1) [OF h(1-3)] this, of c] cal_udp_csum_frame(2) [OF h(1-3)]
  show ?thesis by (simp add: r udp_valid_def udp_sum_check [OF h(1,4)] le16_zero same c_def)
qed

section \<open>A query\<close>

definition sample_csum :: "nat list \<Rightarrow> uint32" where
  "sample_csum bs = of_nat (ones (sum16 bs))"

lemma sample_csum_contract: "csum_contract sample_csum"
proof -
  have "unat (sample_csum bs) = ones (sum16 bs)" for bs
    using ones_facts [of "sum16 bs"] by (simp add: sample_csum_def unat_of_nat)
  then show ?thesis using ones_facts by (simp add: csum_contract_def unat_eq_0 [symmetric] del: unat_eq_0)
qed

definition sample_tail :: "int \<Rightarrow> nat list \<Rightarrow> nat list option" where
  "sample_tail d p = (if int (length p) + d < 14 then None else Some (take (nat (int (length p) + d)) p @ replicate (nat d) 0))"

lemma sample_tail_contract: "tail_contract sample_tail"
  by (auto simp: tail_contract_def sample_tail_def nth_append split: if_splits)

definition sample_query :: "nat list \<Rightarrow> nat list \<Rightarrow> dns_frame" where
  "sample_query tid name = \<lparr>fr_eth_dst = [2, 0, 0, 0, 0, 1], fr_eth_src = [2, 0, 0, 0, 0, 9], fr_ip_head = [69, 0], fr_ip_len = [0, 60],
     fr_ip_mid = [0, 1, 64, 0, 64], fr_ip_check = [0, 0], fr_ip_src = [10, 0, 0, 9], fr_ip_dst = [10, 0, 0, 1], fr_udp_src = [200, 1],
     fr_udp_dst = [0, 53], fr_udp_len = [0, 40], fr_udp_check = [0, 0], fr_dns_id = tid, fr_dns_flags1 = 1, fr_dns_flags2 = 0,
     fr_dns_qcount = [0, 1], fr_dns_ancount = [0, 0], fr_dns_counts = [0, 0, 0, 0], fr_name = name, fr_qtype = 1, fr_qclass = 1,
     fr_rest = []\<rparr>"

definition web_shop :: "nat list" where
  "web_shop = [3] @ map byte ''web'' @ [4] @ map byte ''shop''"

lemma sample_query_facts:
  "wf_frame (sample_query [7, 7] web_shop)" "is_query (sample_query [7, 7] web_shop)"
  "sample_tail 16 (modify_dns_header_response (frame_bytes (sample_query [7, 7] web_shop))) \<noteq> None"
  by code_simp+

theorem dns_proxy_answers_witness:
  "ecnet_dns_proxy (\<lambda>ip. if ip = [10, 0, 0, 1] then Some [10, 96, 0, 10] else None)
     (\<lambda>q. if q = query_key (sample_query [7, 7] web_shop) then Some \<lparr>ar_Addr = 176160769, ar_TTL = 60\<rparr> else None) sample_tail sample_csum
     (frame_bytes (sample_query [7, 7] web_shop)) =
   (XDP_TX, frame_bytes (response sample_csum [10, 96, 0, 10] \<lparr>ar_Addr = 176160769, ar_TTL = 60\<rparr> (sample_query [7, 7] web_shop)))"
  by (rule dns_proxy_answers [OF sample_query_facts(1,2) _ _ _ sample_tail_contract])
    (use sample_query_facts(3) in \<open>simp_all add: sample_query_def\<close>)

theorem response_ip_checksum_witness:
  "ip_valid (response sample_csum [10, 96, 0, 10] \<lparr>ar_Addr = 176160769, ar_TTL = 60\<rparr> (sample_query [7, 7] web_shop))"
  by (rule response_ip_checksum [OF sample_query_facts(1,2) _ _ sample_csum_contract]) simp_all

lemma carry_query_facts:
  "wf_frame (sample_query [145, 208] web_shop)" "is_query (sample_query [145, 208] web_shop)"
  "\<not> udp_sum (unchecked_response [10, 96, 0, 10] \<lparr>ar_Addr = 176160769, ar_TTL = 60\<rparr> (sample_query [145, 208] web_shop)) mod 65536 +
     udp_sum (unchecked_response [10, 96, 0, 10] \<lparr>ar_Addr = 176160769, ar_TTL = 60\<rparr> (sample_query [145, 208] web_shop)) div 65536 < 65536"
  "udp_sum (unchecked_response [10, 96, 0, 10] \<lparr>ar_Addr = 176160769, ar_TTL = 60\<rparr> (sample_query [7, 7] web_shop)) mod 65536 +
     udp_sum (unchecked_response [10, 96, 0, 10] \<lparr>ar_Addr = 176160769, ar_TTL = 60\<rparr> (sample_query [7, 7] web_shop)) div 65536 < 65536"
  by code_simp+

theorem response_udp_checksum_witness:
  "udp_valid (response sample_csum [10, 96, 0, 10] \<lparr>ar_Addr = 176160769, ar_TTL = 60\<rparr> (sample_query [7, 7] web_shop)) \<and>
   \<not> udp_valid (response sample_csum [10, 96, 0, 10] \<lparr>ar_Addr = 176160769, ar_TTL = 60\<rparr> (sample_query [145, 208] web_shop))"
proof -
  have c: "length [10, 96, 0, 10 :: nat] = 4" "is_bytes [10, 96, 0, 10]" by simp_all
  from carry_query_facts(3,4) show ?thesis
    by (simp only: response_udp_checksum [OF sample_query_facts(1,2) c] response_udp_checksum [OF carry_query_facts(1,2) c] simp_thms)
qed

section \<open>Names of the mesh\<close>

lemma base256:
  fixes n :: nat
  assumes bytes: "a < 256" "b < 256" "c < 256" "d < 256" and n_def: "n = ((a * 256 + b) * 256 + c) * 256 + d"
  shows "n mod 256 = d \<and> n div 2 ^ 8 mod 256 = c \<and> n div 2 ^ 16 mod 256 = b \<and> n div 2 ^ 24 = a"
proof -
  have last: "(x * 256 + y) div 256 = x" "(x * 256 + y) mod 256 = y" if "y < 256" for x y :: nat using that by simp_all
  have "n div 256 = (a * 256 + b) * 256 + c" "n mod 256 = d" unfolding n_def by (simp_all only: last bytes)
  moreover from this(1) have "n div 256 mod 256 = c" "n div 256 div 256 mod 256 = b" "n div 256 div 256 div 256 = a"
    by (simp_all only: last bytes)
  moreover have "n div 2 ^ 8 = n div 256" "n div 2 ^ 16 = n div 256 div 256" "n div 2 ^ 24 = n div 256 div 256 div 256"
    by (simp_all add: div_mult2_eq [symmetric])
  ultimately show ?thesis by (simp only:)
qed

lemma be32_be_uint32:
  assumes "length addr = 4" and "is_bytes addr"
  shows "be32 (be_uint32 addr) = addr"
proof -
  obtain a b c d where addr: "addr = [a, b, c, d]" using assms(1) by (auto simp: numeral_eq_Suc length_Suc_conv)
  have bytes: "a < 256" "b < 256" "c < 256" "d < 256" using assms(2) by (simp_all add: addr)
  define n where "n = ((a * 256 + b) * 256 + c) * 256 + d"
  have "n < 2 ^ 32" using bytes by (simp add: n_def)
  then have "unat (of_nat n :: uint32) = n" by (simp add: unat_of_nat)
  moreover have "be_uint32 addr = of_nat n" by (simp add: be_uint32_def addr n_def)
  ultimately have "unat (be_uint32 addr) = n" by (simp only:)
  moreover note base256 [OF bytes n_def]
  ultimately show ?thesis by (simp add: be32_def addr)
qed

lemma query_key_wire:
  assumes "fr_name f = wire_name ls" and "fr_qclass f = dns_ClassINET"
  shows "query_key f = dns_query (fr_qtype f) (padded (wire_name ls))"
  using assms by (simp add: query_key_def dns_query_def padded_def MAX_DNS_NAME_LENGTH_def)

text \<open>C20. Names of the mesh resolve to the bridge, from the cluster's resources to the frames on the network: after any sequence of jobs of
  the bridge, a query of type A or AAAA for a hostname of the last job's cluster, sent to a recorded endpoint of the DNS service, is answered
  to its sender with one A record that holds the bridge's address for 60 seconds. (When the kernel takes
  all updates, and names are packed as RFC 1035 says.)\<close>

theorem mesh_names_resolve:
  assumes "kernel_contract kn lookupR lookupE" and "updates_succeed kn lookupR" and "packs_names kn"
    and "plain_hosts trustDomain (steps @ [(cfg, ic)])"
    and "bridge_runs kn b trustDomain (steps @ [(cfg, ic)]) (NewBridgeServer k) = Returns s"
    and "bridgeIPInt b = be_uint32 addr" and "length addr = 4" and "is_bytes addr"
    and "h \<in> policy_hosts (GetOutboundMeshTrafficPolicy trustDomain (NewMeshCatalog ic))" and "h @ ''.'' = dotted ls" and "good_labels ls"
    and "wf_frame f" and "is_query f" and "fr_name f = wire_name ls" and "fr_qtype f \<in> {dns_TypeA, dns_TypeAAAA}" and "fr_qclass f = dns_ClassINET"
    and "lookupE (br_kernel s) (fr_ip_dst f) = Some cluster_ip" and "length cluster_ip = 4"
    and "tail_contract adjust_tail"
    and "adjust_tail (16 - int (length (fr_rest f))) (modify_dns_header_response (frame_bytes f)) \<noteq> None"
  shows "\<exists>g. ecnet_dns_proxy (lookupE (br_kernel s)) (lookupR (br_kernel s)) adjust_tail csum_diff (frame_bytes f) = (XDP_TX, frame_bytes g) \<and>
     fr_eth_dst g = fr_eth_src f \<and> fr_ip_src g = cluster_ip \<and> fr_ip_dst g = fr_ip_src f \<and> fr_udp_src g = be16 53 \<and> fr_udp_dst g = fr_udp_src f \<and>
     fr_dns_id g = fr_dns_id f \<and> fr_name g = wire_name ls \<and> fr_qtype g = fr_qtype f \<and>
     fr_rest g = be16 0xc00c @ be16 1 @ be16 1 @ be32 60 @ be16 4 @ addr"
proof -
  let ?a = "\<lparr>ar_Addr = bridgeIPInt b, ar_TTL = 60\<rparr>"
  have "kn_pack kn (h @ ''.'') = Some (padded (wire_name ls))" using assms(3,10,11) by (simp add: packs_names_def)
  from bridge_answers_hostnames [OF assms(1,2,4,5,9) this] assms(15)
  have found: "lookupR (br_kernel s) (query_key f) = Some ?a" unfolding query_key_wire [OF assms(14,16)] by auto
  have "create_query_response ?a = be16 0xc00c @ be16 1 @ be16 1 @ be32 60 @ be16 4 @ addr"
    by (simp add: create_query_response_def assms(6) be32_be_uint32 [OF assms(7,8)])
  then have "fr_rest (response csum_diff cluster_ip ?a f) = be16 0xc00c @ be16 1 @ be16 1 @ be32 60 @ be16 4 @ addr"
    by (simp add: response_def unchecked_response_def Let_def)
  moreover have "ecnet_dns_proxy (lookupE (br_kernel s)) (lookupR (br_kernel s)) adjust_tail csum_diff (frame_bytes f) =
      (XDP_TX, frame_bytes (response csum_diff cluster_ip ?a f))"
    using assms(12,13,17,18) found assms(19,20) by (rule answers_query)
  ultimately show ?thesis
    using assms(13,14)
    by (intro exI [of _ "response csum_diff cluster_ip ?a f"]) (simp add: response_def unchecked_response_def Let_def is_query_def)
qed

theorem mesh_names_resolve_witness:
  "\<exists>s g. bridge_runs sample_kernel sample_bridge_ip ''cluster.local'' [sample_job ActiveActiveLbType] (NewBridgeServer (Map.empty, Map.empty)) = Returns s \<and>
     ecnet_dns_proxy (snd (br_kernel s)) (fst (br_kernel s)) sample_tail sample_csum (frame_bytes (sample_query [7, 7] web_shop)) =
       (XDP_TX, frame_bytes g) \<and> fr_ip_dst g = [10, 0, 0, 9] \<and>
     fr_rest g = be16 0xc00c @ be16 1 @ be16 1 @ be32 60 @ be16 4 @ [10, 128, 0, 1]"
proof -
  obtain s where s: "bridge_runs sample_kernel sample_bridge_ip ''cluster.local'' [sample_job ActiveActiveLbType]
        (NewBridgeServer (Map.empty, Map.empty)) = Returns s"
    and e: "snd (br_kernel s) [10, 0, 0, 1] = Some [10, 96, 0, 7]"
    using sample_first_job [of "(Map.empty, Map.empty)"] by (elim exE conjE)
  have runs: "plain_hosts ''cluster.local'' ([] @ [(sample_bridge_cfg, sample_ic ActiveActiveLbType)])"
    "bridge_runs sample_kernel sample_bridge_ip ''cluster.local'' ([] @ [(sample_bridge_cfg, sample_ic ActiveActiveLbType)])
        (NewBridgeServer (Map.empty, Map.empty)) = Returns s"
    using sample_plain_hosts(1) s by (simp_all add: sample_job_def)
  have addr: "bridgeIPInt sample_bridge_ip = be_uint32 [10, 128, 0, 1]" "length [10, 128, 0, 1 :: nat] = 4" "is_bytes [10, 128, 0, 1]"
    by (simp_all add: sample_bridge_ip_def be_uint32_def)
  have name: "''web.shop'' @ ''.'' = dotted [''web'', ''shop'']" "fr_name (sample_query [7, 7] web_shop) = wire_name [''web'', ''shop'']"
    by (simp_all add: dotted_def sample_query_def web_shop_def wire_name_def)
  have query: "fr_qtype (sample_query [7, 7] web_shop) \<in> {dns_TypeA, dns_TypeAAAA}" "fr_qclass (sample_query [7, 7] web_shop) = dns_ClassINET"
    "snd (br_kernel s) (fr_ip_dst (sample_query [7, 7] web_shop)) = Some [10, 96, 0, 7]" "length [10, 96, 0, 7 :: nat] = 4"
    "sample_tail (16 - int (length (fr_rest (sample_query [7, 7] web_shop))))
       (modify_dns_header_response (frame_bytes (sample_query [7, 7] web_shop))) \<noteq> None"
    using sample_query_facts(3) e by (simp_all add: sample_query_def dns_TypeA_def dns_ClassINET_def)
  from mesh_names_resolve [OF sample_kernel_contract sample_kernel_packs runs addr bridge_host name(1) sample_labels
      sample_query_facts(1,2) name(2) query(1-4) sample_tail_contract query(5), of sample_csum]
  obtain g where "ecnet_dns_proxy (snd (br_kernel s)) (fst (br_kernel s)) sample_tail sample_csum (frame_bytes (sample_query [7, 7] web_shop)) =
       (XDP_TX, frame_bytes g)" "fr_ip_dst g = fr_ip_src (sample_query [7, 7] web_shop)"
     "fr_rest g = be16 0xc00c @ be16 1 @ be16 1 @ be32 60 @ be16 4 @ [10, 128, 0, 1]" by (elim exE conjE)
  then show ?thesis using s by (intro exI conjI) (simp_all add: sample_query_def)
qed

end
