(* ===== verification/BpfSock.thy ===== *)
theory BpfSock
  imports BpfDns
begin

text \<open>
  \<open>bpf/ecnet_connect.c\<close>, \<open>ecnet_sockops.c\<close>, \<open>ecnet_sockopt.c\<close> and \<open>ecnet_redirmsg.c\<close>: the programs in the kernel that send
  connections for the bridge to the node's proxy and tell the proxy where they were going. Addresses and ports are
  words in memory of a little-endian machine: an address or port in network order has its first byte
  lowest. The kernel's maps are parameters, and so is \<open>BRIDGE_IP\<close>, which \<open>LoadProgs\<close> sets when it compiles the programs. What the helper functions say about
  the caller (cookie of the socket, user) is part of the context.
\<close>

unbundle bit_operations_syntax

section \<open>helpers/prog.go: loading the programs\<close>

text \<open>\<open>mk\<close> runs the build tool with arguments and additions to the environment; it gives the exit code and
  whether there was an error.\<close>

type_synonym make_tool = "string list \<Rightarrow> string list \<Rightarrow> int \<times> bool"

definition make_result :: "int \<times> bool \<Rightarrow> bool" where
  "make_result r = (fst r = 0 \<and> \<not> snd r)"

text \<open>\<open>GetBridgeIP\<close> returns only with an address; \<open>bridgeIP\<close> is that address as a number. The result says whether the
  call succeeded.\<close>

definition LoadProgs :: "make_tool \<Rightarrow> nat \<Rightarrow> bool \<Rightarrow> string \<Rightarrow> uint32 \<Rightarrow> bool" where
  "LoadProgs mk uid kernelTracing bridgeEth bridgeIP =
     (if uid \<noteq> 0 then False
      else let env = (if \<not> kernelTracing then [''DEBUG=0''] else []) in
        if length bridgeEth > 0 then
          let env = env @ [''BRIDGE_ETH='' @ bridgeEth] in
          if bridgeIP > 0 then make_result (mk [''load''] (env @ [''BRIDGE_IP='' @ fmt_word bridgeIP])) else False
        else False)"

definition AttachProgs :: "make_tool \<Rightarrow> nat \<Rightarrow> bool" where
  "AttachProgs mk uid = (if uid \<noteq> 0 then False else make_result (mk [''attach''] []))"

definition UnLoadProgs :: "make_tool \<Rightarrow> bool" where
  "UnLoadProgs mk = make_result (mk [''-k'', ''clean''] [])"

section \<open>Byte order\<close>

text \<open>An address as a word in memory.\<close>

definition addr_word :: "nat list \<Rightarrow> uint32" where
  "addr_word b = of_nat (b ! 0 + 256 * (b ! 1 + 256 * (b ! 2 + 256 * b ! 3)))"

text \<open>The word that holds a number's bytes in network order.\<close>

definition bpf_htons :: "uint16 \<Rightarrow> uint16" where
  "bpf_htons x = of_nat (unat x div 256 + 256 * (unat x mod 256))"

definition bpf_htonl :: "uint32 \<Rightarrow> uint32" where
  "bpf_htonl x = addr_word (be32 x)"

section \<open>The programs\<close>

definition ECNET_PROXY_PORT :: uint16 where "ECNET_PROXY_PORT = 15001"
definition PROXY_USER_ID :: uint64 where "PROXY_USER_ID = 1600"
definition IPPROTO_TCP :: uint32 where "IPPROTO_TCP = 6"
definition AF_INET :: uint32 where "AF_INET = 2"
definition SO_ORIGINAL_DST :: int where "SO_ORIGINAL_DST = 80"
definition MAX_OPS_BUFF_LENGTH :: int where "MAX_OPS_BUFF_LENGTH = 4096"
definition BPF_SOCK_OPS_ACTIVE_ESTABLISHED_CB :: uint32 where "BPF_SOCK_OPS_ACTIVE_ESTABLISHED_CB = 4"
definition BPF_SOCK_OPS_PASSIVE_ESTABLISHED_CB :: uint32 where "BPF_SOCK_OPS_PASSIVE_ESTABLISHED_CB = 5"

record sock_pair =
  p_sip :: uint32
  p_dip :: uint32
  p_sport :: uint16
  p_dport :: uint16

record origin_info =
  oi_ip :: uint32
  oi_port :: uint16

text \<open>The kernel maps. An update gives the new state and whether it failed; a socket is known by its cookie.\<close>

record 'k sock_kernel =
  sk_update_sess :: "uint64 \<Rightarrow> origin_info \<Rightarrow> 'k \<Rightarrow> 'k \<times> bool"
  sk_lookup_sess :: "'k \<Rightarrow> uint64 \<Rightarrow> origin_info option"
  sk_update_pair :: "sock_pair \<Rightarrow> origin_info \<Rightarrow> 'k \<Rightarrow> 'k \<times> bool"
  sk_lookup_pair :: "'k \<Rightarrow> sock_pair \<Rightarrow> origin_info option"
  sk_hash_update :: "sock_pair \<Rightarrow> uint64 \<Rightarrow> 'k \<Rightarrow> 'k \<times> bool"
  sk_lookup_sock :: "'k \<Rightarrow> sock_pair \<Rightarrow> uint64 option"

text \<open>\<open>struct bpf_sock_addr\<close>, with the caller's cookie and user.\<close>

record bpf_sock_addr =
  sa_protocol :: uint32
  sa_user_ip4 :: uint32
  sa_user_port :: uint32
  sa_uid_gid :: uint64
  sa_cookie :: uint64

definition ecnet_tcp_con4 :: "uint32 \<Rightarrow> 'k sock_kernel \<Rightarrow> bpf_sock_addr \<Rightarrow> 'k \<Rightarrow> bool \<times> bpf_sock_addr \<times> 'k" where
  "ecnet_tcp_con4 BRIDGE_IP kn ctx k =
     (if bpf_htons (ucast (sa_user_port ctx)) = ECNET_PROXY_PORT then (True, ctx, k)
      else let dst_ip = sa_user_ip4 ctx in
      if dst_ip AND 0xff = 0x7f then (True, ctx, k)
      else let bridge_ip = bpf_htonl BRIDGE_IP in
      if dst_ip \<noteq> bridge_ip then (True, ctx, k)
      else let uid = sa_uid_gid ctx AND 0xffffffff in
      if uid = 0 \<or> uid = PROXY_USER_ID then (True, ctx, k)
      else
        let cookie = sa_cookie ctx;
            origin = \<lparr>oi_ip = dst_ip, oi_port = ucast (sa_user_port ctx)\<rparr>;
            (k, failed) = sk_update_sess kn cookie origin k
        in if failed then (False, ctx, k) else (True, ctx\<lparr>sa_user_port := ucast (bpf_htons ECNET_PROXY_PORT)\<rparr>, k))"

definition ecnet_sock_connect4 :: "uint32 \<Rightarrow> 'k sock_kernel \<Rightarrow> bpf_sock_addr \<Rightarrow> 'k \<Rightarrow> bool \<times> bpf_sock_addr \<times> 'k" where
  "ecnet_sock_connect4 BRIDGE_IP kn ctx k = (if sa_protocol ctx = IPPROTO_TCP then ecnet_tcp_con4 BRIDGE_IP kn ctx k else (True, ctx, k))"

text \<open>\<open>struct bpf_sock_ops\<close>: the local port is in host order, the remote port in network order in the upper half.\<close>

record bpf_sock_ops =
  so_op :: uint32
  so_family :: uint32
  so_local_ip4 :: uint32
  so_remote_ip4 :: uint32
  so_local_port :: uint32
  so_remote_port :: uint32
  so_cookie :: uint64

definition ops_pair :: "bpf_sock_ops \<Rightarrow> sock_pair" where
  "ops_pair skops = \<lparr>p_sip = so_local_ip4 skops, p_dip = so_remote_ip4 skops,
     p_sport = bpf_htons (ucast (so_local_port skops)), p_dport = ucast (drop_bit 16 (so_remote_port skops))\<rparr>"

definition ecnet_sockops4 :: "uint32 \<Rightarrow> 'k sock_kernel \<Rightarrow> bpf_sock_ops \<Rightarrow> 'k \<Rightarrow> nat \<times> 'k" where
  "ecnet_sockops4 BRIDGE_IP kn skops k =
     (let bridge_ip = bpf_htonl BRIDGE_IP in
      if so_local_ip4 skops \<noteq> bridge_ip \<and> so_remote_ip4 skops \<noteq> bridge_ip then (1, k)
      else
        let cookie = so_cookie skops;
            p = ops_pair skops;
            k = (case sk_lookup_sess kn k cookie of None \<Rightarrow> k | Some dd \<Rightarrow> fst (sk_update_pair kn p dd k))
        in (0, fst (sk_hash_update kn p cookie k)))"

definition ecnet_sockops :: "uint32 \<Rightarrow> 'k sock_kernel \<Rightarrow> bpf_sock_ops \<Rightarrow> 'k \<Rightarrow> nat \<times> 'k" where
  "ecnet_sockops BRIDGE_IP kn skops k =
     (if so_op skops = BPF_SOCK_OPS_PASSIVE_ESTABLISHED_CB \<or> so_op skops = BPF_SOCK_OPS_ACTIVE_ESTABLISHED_CB then
        (if so_family skops = AF_INET then ecnet_sockops4 BRIDGE_IP kn skops k else (0, k))
      else (0, k))"

record sockaddr_in =
  sin_family :: uint32
  sin_port :: uint16
  sin_addr :: uint32

text \<open>\<open>struct bpf_sockopt\<close>: the source port is in host order, the destination port in network order. \<open>ov_room\<close> is
  the number of bytes up to \<open>optval_end\<close>.\<close>

record bpf_sockopt =
  ov_optlen :: int
  ov_optname :: int
  ov_family :: uint32
  ov_src_ip4 :: uint32
  ov_dst_ip4 :: uint32
  ov_src_port :: uint32
  ov_dst_port :: uint16
  ov_room :: nat
  ov_optval :: "sockaddr_in option"
  ov_retval :: int

definition sizeof_sockaddr_in :: nat where "sizeof_sockaddr_in = 16"

definition opt_pair :: "bpf_sockopt \<Rightarrow> sock_pair" where
  "opt_pair ctx = \<lparr>p_sip = ov_dst_ip4 ctx, p_dip = ov_src_ip4 ctx, p_sport = ov_dst_port ctx, p_dport = bpf_htons (ucast (ov_src_port ctx))\<rparr>"

definition ecnet_sockopt4 :: "'k sock_kernel \<Rightarrow> bpf_sockopt \<Rightarrow> 'k \<Rightarrow> bpf_sockopt" where
  "ecnet_sockopt4 kn ctx k =
     (let ctx = (if ov_optlen ctx > MAX_OPS_BUFF_LENGTH then ctx\<lparr>ov_optlen := MAX_OPS_BUFF_LENGTH\<rparr> else ctx) in
      if ov_optname ctx \<noteq> SO_ORIGINAL_DST then ctx
      else if ov_family ctx \<noteq> AF_INET then ctx
      else case sk_lookup_pair kn k (opt_pair ctx) of
        None \<Rightarrow> ctx
      | Some origin \<Rightarrow>
          let ctx = ctx\<lparr>ov_optlen := int sizeof_sockaddr_in\<rparr> in
          if ov_room ctx < sizeof_sockaddr_in then ctx
          else ctx\<lparr>ov_retval := 0, ov_optval := Some \<lparr>sin_family = ov_family ctx, sin_port = oi_port origin, sin_addr = oi_ip origin\<rparr>\<rparr>)"

text \<open>\<open>struct sk_msg_md\<close>, and the socket that a message is redirected to (\<open>None\<close>: it takes its normal way).\<close>

record sk_msg_md =
  mg_family :: uint32
  mg_local_ip4 :: uint32
  mg_remote_ip4 :: uint32
  mg_local_port :: uint32
  mg_remote_port :: uint32

definition ecnet_redirmsg :: "'k sock_kernel \<Rightarrow> sk_msg_md \<Rightarrow> 'k \<Rightarrow> uint64 option" where
  "ecnet_redirmsg kn msg k =
     (let p = \<lparr>p_sip = 0, p_dip = 0, p_sport = ucast (drop_bit 16 (mg_remote_port msg)), p_dport = bpf_htons (ucast (mg_local_port msg))\<rparr>;
          p = (if mg_family msg = AF_INET then p\<lparr>p_dip := mg_local_ip4 msg, p_sip := mg_remote_ip4 msg\<rparr> else p)
      in sk_lookup_sock kn k p)"

section \<open>Connections\<close>

datatype sock_event = Connecting bpf_sock_addr | Establishing bpf_sock_ops

definition sock_step :: "uint32 \<Rightarrow> 'k sock_kernel \<Rightarrow> sock_event \<Rightarrow> 'k \<Rightarrow> 'k" where
  "sock_step BRIDGE_IP kn ev k =
     (case ev of Connecting ctx \<Rightarrow> snd (snd (ecnet_sock_connect4 BRIDGE_IP kn ctx k)) | Establishing skops \<Rightarrow> snd (ecnet_sockops BRIDGE_IP kn skops k))"

text \<open>The contract of the maps: an update writes its entry or fails and changes nothing; only an entry that does not exist is written
  into the map of sockets. (The maps are assumed not to be full.)\<close>

definition sock_contract :: "'k sock_kernel \<Rightarrow> bool" where
  "sock_contract kn \<longleftrightarrow>
     (\<forall>c or k. let (k', failed) = sk_update_sess kn c or k in
        sk_lookup_sess kn k' = (if failed then sk_lookup_sess kn k else (sk_lookup_sess kn k)(c \<mapsto> or)) \<and>
        sk_lookup_pair kn k' = sk_lookup_pair kn k \<and> sk_lookup_sock kn k' = sk_lookup_sock kn k) \<and>
     (\<forall>p or k. let (k', failed) = sk_update_pair kn p or k in
        sk_lookup_pair kn k' = (if failed then sk_lookup_pair kn k else (sk_lookup_pair kn k)(p \<mapsto> or)) \<and>
        sk_lookup_sess kn k' = sk_lookup_sess kn k \<and> sk_lookup_sock kn k' = sk_lookup_sock kn k) \<and>
     (\<forall>p c k. let (k', failed) = sk_hash_update kn p c k in
        sk_lookup_sock kn k' = (if failed then sk_lookup_sock kn k else (sk_lookup_sock kn k)(p \<mapsto> c)) \<and>
        (sk_lookup_sock kn k p \<noteq> None \<longrightarrow> failed) \<and>
        sk_lookup_sess kn k' = sk_lookup_sess kn k \<and> sk_lookup_pair kn k' = sk_lookup_pair kn k)"

definition sock_updates_succeed :: "'k sock_kernel \<Rightarrow> bool" where
  "sock_updates_succeed kn \<longleftrightarrow> (\<forall>c d k. \<not> snd (sk_update_sess kn c d k)) \<and> (\<forall>p d k. \<not> snd (sk_update_pair kn p d k))"

lemma sock_laws:
  assumes "sock_contract kn" and "sock_updates_succeed kn"
  shows "sk_lookup_sess kn (fst (sk_update_sess kn c d k)) = (sk_lookup_sess kn k)(c \<mapsto> d)"
    and "sk_lookup_pair kn (fst (sk_update_sess kn c d k)) = sk_lookup_pair kn k"
    and "sk_lookup_pair kn (fst (sk_update_pair kn p d k)) = (sk_lookup_pair kn k)(p \<mapsto> d)"
    and "sk_lookup_sess kn (fst (sk_update_pair kn p d k)) = sk_lookup_sess kn k"
    and "sk_lookup_sess kn (fst (sk_hash_update kn p c k)) = sk_lookup_sess kn k"
    and "sk_lookup_pair kn (fst (sk_hash_update kn p c k)) = sk_lookup_pair kn k"
  using assms by (simp_all add: sock_contract_def sock_updates_succeed_def case_prod_beta Let_def)

lemma bpf_htons_invol [simp]: "bpf_htons (bpf_htons x) = x"
proof -
  define n where "n = unat x div 256 + 256 * (unat x mod 256)"
  have "unat x < 256 * 256" using unsigned_less [of x, where ?'a = nat] by simp
  then have d: "unat x div 256 < 256" by (rule less_mult_imp_div_less)
  have "n < 2 ^ 16" using d mod_less_divisor [of 256 "unat x"] by (simp add: n_def)
  then have "unat (bpf_htons x) = n" unfolding bpf_htons_def n_def [symmetric] by (simp add: unat_of_nat)
  moreover have "n div 256 = unat x mod 256" "n mod 256 = unat x div 256" using d by (simp_all add: n_def)
  ultimately show ?thesis by (simp add: bpf_htons_def [of "bpf_htons x"] add.commute del: of_nat_add of_nat_mult)
qed

lemma ucast_widen [simp]: "ucast (ucast (w :: uint16) :: uint32) = w"
  by (rule bit_word_eqI) (simp add: bit_simps)

lemma bpf_htonl_bytes: "length b = 4 \<Longrightarrow> is_bytes b \<Longrightarrow> bpf_htonl (be_uint32 b) = addr_word b"
  by (simp add: bpf_htonl_def be32_be_uint32)

section \<open>The original destination\<close>

lemma step_sess:
  assumes "sock_contract kn" and "sock_updates_succeed kn"
    and "\<forall>ctx. ev = Connecting ctx \<longrightarrow> sa_cookie ctx \<noteq> c"
  shows "sk_lookup_sess kn (sock_step B kn ev k) c = sk_lookup_sess kn k c"
proof (cases ev)
  case (Connecting ctx)
  with assms(3) show ?thesis
    by (simp add: sock_step_def ecnet_sock_connect4_def ecnet_tcp_con4_def Let_def case_prod_beta sock_laws [OF assms(1,2)])
next
  case (Establishing skops)
  then show ?thesis
    by (simp add: sock_step_def ecnet_sockops_def ecnet_sockops4_def Let_def sock_laws [OF assms(1,2)] split: option.split)
qed

lemma step_pair:
  assumes "sock_contract kn" and "sock_updates_succeed kn"
    and "\<forall>skops. ev = Establishing skops \<longrightarrow> ops_pair skops \<noteq> p"
  shows "sk_lookup_pair kn (sock_step B kn ev k) p = sk_lookup_pair kn k p"
proof (cases ev)
  case (Connecting ctx)
  then show ?thesis
    by (simp add: sock_step_def ecnet_sock_connect4_def ecnet_tcp_con4_def Let_def case_prod_beta sock_laws [OF assms(1,2)])
next
  case (Establishing skops)
  with assms(3) show ?thesis
    by (simp add: sock_step_def ecnet_sockops_def ecnet_sockops4_def Let_def sock_laws [OF assms(1,2)] split: option.split)
qed

lemma fold_keeps_events: "\<forall>ev \<in> set evs. \<forall>k. g (f ev k) = g k \<Longrightarrow> g (fold f evs k) = g k"
  by (induction evs arbitrary: k) simp_all

text \<open>The socket that the proxy accepted is the other end of a connection.\<close>

definition accepted_end :: "bpf_sockopt \<Rightarrow> bpf_sock_ops \<Rightarrow> bool" where
  "accepted_end opt skops \<longleftrightarrow> ov_src_ip4 opt = so_remote_ip4 skops \<and> ov_dst_ip4 opt = so_local_ip4 skops \<and>
     ov_src_port opt = ucast (bpf_htons (ucast (drop_bit 16 (so_remote_port skops)))) \<and> ov_dst_port opt = bpf_htons (ucast (so_local_port skops))"

lemma accepted_pair: "accepted_end opt skops \<Longrightarrow> opt_pair opt = ops_pair skops"
  by (simp add: accepted_end_def opt_pair_def ops_pair_def)

text \<open>A connection that the programs redirect: TCP to the bridge's address, not to the proxy's own port, by an ordinary user.\<close>

definition redirected :: "uint32 \<Rightarrow> bpf_sock_addr \<Rightarrow> bool" where
  "redirected BRIDGE_IP ctx \<longleftrightarrow> sa_protocol ctx = IPPROTO_TCP \<and> sa_user_ip4 ctx = bpf_htonl BRIDGE_IP \<and> sa_user_ip4 ctx AND 0xff \<noteq> 0x7f \<and>
     bpf_htons (ucast (sa_user_port ctx)) \<noteq> ECNET_PROXY_PORT \<and> sa_uid_gid ctx AND 0xffffffff \<notin> {0, PROXY_USER_ID}"

lemma connect_redirected:
  assumes "sock_updates_succeed kn" and "redirected BRIDGE_IP ctx"
  shows "ecnet_sock_connect4 BRIDGE_IP kn ctx k = (True, ctx\<lparr>sa_user_port := ucast (bpf_htons ECNET_PROXY_PORT)\<rparr>,
     fst (sk_update_sess kn (sa_cookie ctx) \<lparr>oi_ip = sa_user_ip4 ctx, oi_port = ucast (sa_user_port ctx)\<rparr> k))"
proof -
  have ip: "bpf_htonl BRIDGE_IP AND 0xff \<noteq> 0x7f" using assms(2) unfolding redirected_def by metis
  show ?thesis
    using assms ip by (simp add: ecnet_sock_connect4_def ecnet_tcp_con4_def redirected_def Let_def case_prod_beta sock_updates_succeed_def)
qed

text \<open>C30. The proxy learns the original destination: when an ordinary user connects to a port of the bridge's address, the kernel
  sends the connection to the proxy's port instead. Once it is established, the proxy's question for the
  original destination on the accepted socket is answered with the address and port of the first step,
  whatever other sockets do in between, as long as the socket's cookie and the connection's addresses are not used again.\<close>

theorem original_destination:
  assumes "sock_contract kn" and "sock_updates_succeed kn" and "redirected BRIDGE_IP ctx"
    and "\<forall>ctx'. Connecting ctx' \<in> set before \<longrightarrow> sa_cookie ctx' \<noteq> sa_cookie ctx"
    and "so_op skops = BPF_SOCK_OPS_ACTIVE_ESTABLISHED_CB" and "so_family skops = AF_INET" and "so_cookie skops = sa_cookie ctx"
    and "so_remote_ip4 skops = sa_user_ip4 ctx"
    and "\<forall>skops'. Establishing skops' \<in> set after \<longrightarrow> ops_pair skops' \<noteq> ops_pair skops"
    and "accepted_end opt skops" and "ov_family opt = AF_INET" and "ov_optname opt = SO_ORIGINAL_DST" and "ov_room opt \<ge> sizeof_sockaddr_in"
  shows "fst (snd (ecnet_sock_connect4 BRIDGE_IP kn ctx k)) = ctx\<lparr>sa_user_port := ucast (bpf_htons ECNET_PROXY_PORT)\<rparr> \<and>
     ov_optval (ecnet_sockopt4 kn opt (fold (sock_step BRIDGE_IP kn) (Connecting ctx # before @ Establishing skops # after) k)) =
       Some \<lparr>sin_family = AF_INET, sin_port = ucast (sa_user_port ctx), sin_addr = sa_user_ip4 ctx\<rparr>"
proof -
  let ?or = "\<lparr>oi_ip = sa_user_ip4 ctx, oi_port = ucast (sa_user_port ctx)\<rparr>" and ?step = "sock_step BRIDGE_IP kn"
  define k1 where "k1 = ?step (Connecting ctx) k"
  define k2 where "k2 = fold ?step before k1"
  define k3 where "k3 = ?step (Establishing skops) k2"
  note laws = sock_laws [OF assms(1,2)]
  have "sk_lookup_sess kn k1 (sa_cookie ctx) = Some ?or"
    by (simp add: k1_def sock_step_def connect_redirected [OF assms(2,3)] laws)
  moreover have "sk_lookup_sess kn k2 (sa_cookie ctx) = sk_lookup_sess kn k1 (sa_cookie ctx)"
    unfolding k2_def
    by (rule fold_keeps_events [where g = "\<lambda>k. sk_lookup_sess kn k (sa_cookie ctx)"]) (intro ballI allI step_sess [OF assms(1,2)], use assms(4) in blast)
  ultimately have "sk_lookup_pair kn k3 (ops_pair skops) = Some ?or"
    using assms(3,5-8) by (simp add: k3_def sock_step_def ecnet_sockops_def ecnet_sockops4_def redirected_def Let_def laws)
  moreover have "sk_lookup_pair kn (fold ?step after k3) (ops_pair skops) = sk_lookup_pair kn k3 (ops_pair skops)"
    by (rule fold_keeps_events [where g = "\<lambda>k. sk_lookup_pair kn k (ops_pair skops)"]) (intro ballI allI step_pair [OF assms(1,2)], use assms(9) in blast)
  ultimately have "sk_lookup_pair kn (fold ?step (Connecting ctx # before @ Establishing skops # after) k) (opt_pair opt) = Some ?or"
    using accepted_pair [OF assms(10)] by (simp add: k1_def k2_def k3_def)
  then show ?thesis
    using assms(11-13) by (simp add: connect_redirected [OF assms(2,3)] ecnet_sockopt4_def Let_def opt_pair_def del: fold.simps)
qed

section \<open>Messages between the ends\<close>

text \<open>A message on a socket is redirected to the other end of its connection, when that end has entered itself into the map.\<close>

definition msg_end :: "sk_msg_md \<Rightarrow> bpf_sock_ops \<Rightarrow> bool" where
  "msg_end msg skops \<longleftrightarrow> mg_family msg = AF_INET \<and> mg_local_ip4 msg = so_remote_ip4 skops \<and> mg_remote_ip4 msg = so_local_ip4 skops \<and>
     bpf_htons (ucast (mg_local_port msg)) = ucast (drop_bit 16 (so_remote_port skops)) \<and>
     ucast (drop_bit 16 (mg_remote_port msg)) = bpf_htons (ucast (so_local_port skops))"

lemma redirmsg_other_end:
  assumes "sock_contract kn" and "sk_lookup_sock kn k (ops_pair skops) = None" and "\<not> snd (sk_hash_update kn (ops_pair skops) (so_cookie skops) k')"
    and "so_op skops \<in> {BPF_SOCK_OPS_ACTIVE_ESTABLISHED_CB, BPF_SOCK_OPS_PASSIVE_ESTABLISHED_CB}" and "so_family skops = AF_INET"
    and "so_remote_ip4 skops = bpf_htonl BRIDGE_IP \<or> so_local_ip4 skops = bpf_htonl BRIDGE_IP" and "msg_end msg skops"
    and k': "k' = (case sk_lookup_sess kn k (so_cookie skops) of None \<Rightarrow> k | Some dd \<Rightarrow> fst (sk_update_pair kn (ops_pair skops) dd k))"
  shows "ecnet_redirmsg kn msg (snd (ecnet_sockops BRIDGE_IP kn skops k)) = Some (so_cookie skops)"
proof -
  have "snd (ecnet_sockops BRIDGE_IP kn skops k) = fst (sk_hash_update kn (ops_pair skops) (so_cookie skops) k')"
    using assms(4-6) by (auto simp: ecnet_sockops_def ecnet_sockops4_def Let_def k')
  moreover have "sk_lookup_sock kn (fst (sk_hash_update kn (ops_pair skops) (so_cookie skops) k')) (ops_pair skops) = Some (so_cookie skops)"
    using assms(1,3) by (simp add: sock_contract_def Let_def case_prod_beta)
  ultimately show ?thesis using assms(7) by (simp add: ecnet_redirmsg_def msg_end_def ops_pair_def Let_def)
qed

section \<open>A connection\<close>

type_synonym map_socks = "(uint64 \<Rightarrow> origin_info option) \<times> (sock_pair \<Rightarrow> origin_info option) \<times> (sock_pair \<Rightarrow> uint64 option)"

definition sample_socks :: "map_socks sock_kernel" where
  "sample_socks = \<lparr>sk_update_sess = (\<lambda>c d k. (((fst k)(c \<mapsto> d), snd k), False)), sk_lookup_sess = fst,
     sk_update_pair = (\<lambda>p d k. ((fst k, (fst (snd k))(p \<mapsto> d), snd (snd k)), False)), sk_lookup_pair = fst \<circ> snd,
     sk_hash_update = (\<lambda>p c k. if snd (snd k) p = None then ((fst k, fst (snd k), (snd (snd k))(p \<mapsto> c)), False) else (k, True)),
     sk_lookup_sock = snd \<circ> snd\<rparr>"

lemma sample_socks_contract: "sock_contract sample_socks" "sock_updates_succeed sample_socks"
  by (auto simp: sock_contract_def sock_updates_succeed_def sample_socks_def Let_def)

definition sample_connect :: "uint64 \<Rightarrow> uint32 \<Rightarrow> bpf_sock_addr" where
  "sample_connect cookie port = \<lparr>sa_protocol = IPPROTO_TCP, sa_user_ip4 = addr_word [10, 128, 0, 1], sa_user_port = port, sa_uid_gid = 1000, sa_cookie = cookie\<rparr>"

definition sample_established :: "uint64 \<Rightarrow> uint32 \<Rightarrow> bpf_sock_ops" where
  "sample_established cookie lport = \<lparr>so_op = BPF_SOCK_OPS_ACTIVE_ESTABLISHED_CB, so_family = AF_INET, so_local_ip4 = addr_word [10, 128, 0, 9],
     so_remote_ip4 = addr_word [10, 128, 0, 1], so_local_port = lport, so_remote_port = push_bit 16 (ucast (bpf_htons ECNET_PROXY_PORT)), so_cookie = cookie\<rparr>"

definition sample_opt :: bpf_sockopt where
  "sample_opt = \<lparr>ov_optlen = 16, ov_optname = SO_ORIGINAL_DST, ov_family = AF_INET, ov_src_ip4 = addr_word [10, 128, 0, 1],
     ov_dst_ip4 = addr_word [10, 128, 0, 9], ov_src_port = 15001, ov_dst_port = bpf_htons 40000, ov_room = 16, ov_optval = None, ov_retval = -1\<rparr>"

lemma sample_connection_facts:
  "redirected 176160769 (sample_connect 7 (ucast (bpf_htons 8080)))" "accepted_end sample_opt (sample_established 7 40000)"
  "ops_pair (sample_established 8 40001) \<noteq> ops_pair (sample_established 7 40000)"
  by code_simp+

theorem original_destination_witness:
  "ov_optval (ecnet_sockopt4 sample_socks sample_opt (fold (sock_step 176160769 sample_socks)
       (Connecting (sample_connect 7 (ucast (bpf_htons 8080))) # [Connecting (sample_connect 8 (ucast (bpf_htons 9090)))] @
        Establishing (sample_established 7 40000) # [Establishing (sample_established 8 40001)]) (Map.empty, Map.empty, Map.empty))) =
   Some \<lparr>sin_family = AF_INET, sin_port = bpf_htons 8080, sin_addr = addr_word [10, 128, 0, 1]\<rparr>"
proof -
  have "so_op (sample_established 7 40000) = BPF_SOCK_OPS_ACTIVE_ESTABLISHED_CB" "so_family (sample_established 7 40000) = AF_INET"
    "so_cookie (sample_established 7 40000) = sa_cookie (sample_connect 7 (ucast (bpf_htons 8080)))"
    "so_remote_ip4 (sample_established 7 40000) = sa_user_ip4 (sample_connect 7 (ucast (bpf_htons 8080)))"
    "ov_family sample_opt = AF_INET" "ov_optname sample_opt = SO_ORIGINAL_DST" "ov_room sample_opt \<ge> sizeof_sockaddr_in"
    by (simp_all add: sample_established_def sample_connect_def sample_opt_def sizeof_sockaddr_in_def)
  moreover have "\<forall>ctx'. Connecting ctx' \<in> set [Connecting (sample_connect 8 (ucast (bpf_htons 9090)))] \<longrightarrow>
      sa_cookie ctx' \<noteq> sa_cookie (sample_connect 7 (ucast (bpf_htons 8080)))"
    by (simp add: sample_connect_def)
  moreover have "\<forall>skops'. Establishing skops' \<in> set [Establishing (sample_established 8 40001)] \<longrightarrow>
      ops_pair skops' \<noteq> ops_pair (sample_established 7 40000)"
    using sample_connection_facts(3) by simp
  ultimately have "ov_optval (ecnet_sockopt4 sample_socks sample_opt (fold (sock_step 176160769 sample_socks)
       (Connecting (sample_connect 7 (ucast (bpf_htons 8080))) # [Connecting (sample_connect 8 (ucast (bpf_htons 9090)))] @
        Establishing (sample_established 7 40000) # [Establishing (sample_established 8 40001)]) (Map.empty, Map.empty, Map.empty))) =
      Some \<lparr>sin_family = AF_INET, sin_port = ucast (sa_user_port (sample_connect 7 (ucast (bpf_htons 8080)))),
        sin_addr = sa_user_ip4 (sample_connect 7 (ucast (bpf_htons 8080)))\<rparr>"
    using original_destination [OF sample_socks_contract sample_connection_facts(1) _ _ _ _ _ _ sample_connection_facts(2)] by blast
  then show ?thesis by (simp add: sample_connect_def)
qed

end
