(* ===== verification/Ticker.thy ===== *)
theory Ticker
  imports Messaging GoTime
begin

text \<open>
  \<open>ticker/ticker.go\<close>: the ticker that queues periodic proxy updates, and the routine that starts and stops it when
  the configuration changes. The state has what the configuration routine does, the ticker routines
  that have been started but not run yet, and those that tick; a step is one operation on a channel or
  one assignment to the shared flag \<open>running\<close>, so that the routines interleave as they do in the code. The program makes the ticker
  with a minimum of 30 seconds (\<open>catalog.go\<close>), so a ticker routine never has an interval that \<open>time.NewTicker\<close> refuses.
\<close>

section \<open>The routines\<close>

text \<open>What a caller of \<open>stopTicker\<close> does once it has returned.\<close>

datatype after_stop = Begin int | Restart int | Carry_on | Return

text \<open>\<open>Stopping\<close>: before the stop signal is received; \<open>Signalled\<close>: after it, before \<open>running\<close> is cleared.\<close>

datatype watcher = NotStarted | Listening | Stopping after_stop | Signalled after_stop | Returned

record ResyncTicker =
  rt_running :: bool
  rt_minTickInterval :: int
  rt_invalidIntervalCounter :: uint64
  rt_watcher :: watcher
  rt_spawned :: "int list"
  rt_routines :: "int list"
  rt_queue :: "PubSubMessage list"

definition NewResyncTicker :: "int \<Rightarrow> ResyncTicker" where
  "NewResyncTicker minTickInterval =
     \<lparr>rt_running = False, rt_minTickInterval = minTickInterval, rt_invalidIntervalCounter = 0, rt_watcher = NotStarted,
      rt_spawned = [], rt_routines = [], rt_queue = []\<rparr>"

definition spawn :: "int \<Rightarrow> ResyncTicker \<Rightarrow> ResyncTicker" where
  "spawn d r = r\<lparr>rt_spawned := rt_spawned r @ [d]\<rparr>"

definition start_watch :: "int \<Rightarrow> ResyncTicker \<Rightarrow> ResyncTicker" where
  "start_watch resyncInterval r =
     (let r = (if resyncInterval \<ge> rt_minTickInterval r then spawn resyncInterval r else r) in r\<lparr>rt_watcher := Listening\<rparr>)"

definition ticker_Start :: "int \<Rightarrow> ResyncTicker \<Rightarrow> ResyncTicker" where
  "ticker_Start resyncInterval r =
     (if rt_running r then r\<lparr>rt_watcher := Stopping (Begin resyncInterval)\<rparr> else start_watch resyncInterval r)"

text \<open>The new interval that a message asks for.\<close>

definition new_interval :: "queue_item \<Rightarrow> int option" where
  "new_interval item =
     (case item of
        MessageItem event \<Rightarrow>
          (case (psm_OldObj event, psm_NewObj event) of
             (EcnetConfigObject oldMeshSpec, EcnetConfigObject newMeshSpec) \<Rightarrow>
               let old = sc_ConfigResyncInterval (ecs_Sidecar (ec_Spec oldMeshSpec));
                   new = sc_ConfigResyncInterval (ecs_Sidecar (ec_Spec newMeshSpec))
               in if old = new \<or> new = [] then None else ParseDuration new
           | _ \<Rightarrow> None)
      | OtherItem \<Rightarrow> None)"

definition on_message :: "queue_item \<Rightarrow> ResyncTicker \<Rightarrow> ResyncTicker" where
  "on_message item r =
     (case new_interval item of
        None \<Rightarrow> r
      | Some newResyncInterval \<Rightarrow>
          if newResyncInterval \<ge> rt_minTickInterval r
          then if rt_running r then r\<lparr>rt_watcher := Stopping (Restart newResyncInterval)\<rparr> else spawn newResyncInterval r
          else if newResyncInterval = 0 then r\<lparr>rt_watcher := Stopping Carry_on\<rparr>
          else r\<lparr>rt_invalidIntervalCounter := rt_invalidIntervalCounter r + 1\<rparr>)"

text \<open>The end of \<open>stopTicker\<close>, and what follows its call.\<close>

definition after_stopping :: "after_stop \<Rightarrow> ResyncTicker \<Rightarrow> ResyncTicker" where
  "after_stopping k r =
     (let r = r\<lparr>rt_running := False\<rparr> in
      case k of
        Begin d \<Rightarrow> start_watch d r
      | Restart d \<Rightarrow> (spawn d r)\<lparr>rt_watcher := Listening\<rparr>
      | Carry_on \<Rightarrow> r\<lparr>rt_watcher := Listening\<rparr>
      | Return \<Rightarrow> r\<lparr>rt_watcher := Returned\<rparr>)"

definition tick_message :: PubSubMessage where
  "tick_message = \<lparr>psm_Kind = ProxyUpdate, psm_OldObj = NilObject, psm_NewObj = NilObject\<rparr>"

text \<open>The steps that need no message from outside and no tick.\<close>

inductive settle_step :: "ResyncTicker \<Rightarrow> ResyncTicker \<Rightarrow> bool" where
  run: "rt_spawned r = xs @ d # ys \<Longrightarrow>
    settle_step r (r\<lparr>rt_spawned := xs @ ys, rt_routines := rt_routines r @ [d], rt_running := True\<rparr>)"
| handoff: "rt_watcher r = Stopping k \<Longrightarrow> rt_routines r = xs @ d # ys \<Longrightarrow>
    settle_step r (r\<lparr>rt_routines := xs @ ys, rt_watcher := Signalled k\<rparr>)"
| proceed: "rt_watcher r = Signalled k \<Longrightarrow> settle_step r (after_stopping k r)"

inductive ticker_step :: "ResyncTicker \<Rightarrow> ResyncTicker \<Rightarrow> bool" where
  settle: "settle_step r r' \<Longrightarrow> ticker_step r r'"
| message: "rt_watcher r = Listening \<Longrightarrow> ticker_step r (on_message item r)"
| quit: "rt_watcher r = Listening \<Longrightarrow> ticker_step r (r\<lparr>rt_watcher := Stopping Return\<rparr>)"
| tick: "d \<in> set (rt_routines r) \<Longrightarrow> ticker_step r (r\<lparr>rt_queue := rt_queue r @ [tick_message]\<rparr>)"

inductive_cases settle_stepE: "settle_step r r'"
inductive_cases ticker_stepE: "ticker_step r r'"

section \<open>Orderly runs\<close>

text \<open>A message is orderly when the steps it causes are done before the next one is taken.\<close>

definition settles :: "ResyncTicker \<Rightarrow> ResyncTicker \<Rightarrow> bool" where
  "settles r r' \<longleftrightarrow> settle_step\<^sup>*\<^sup>* r r' \<and> (\<forall>r''. \<not> settle_step r' r'')"

text \<open>Messages that come while the configuration routine does not listen are not taken.\<close>

inductive orderly :: "queue_item list \<Rightarrow> ResyncTicker \<Rightarrow> ResyncTicker \<Rightarrow> bool" where
  no_more: "orderly [] r r"
| deaf: "rt_watcher r \<noteq> Listening \<Longrightarrow> orderly items r r"
| item: "rt_watcher r = Listening \<Longrightarrow> settles (on_message item r) r' \<Longrightarrow> orderly items r' r'' \<Longrightarrow> orderly (item # items) r r''"

text \<open>What the messages ask for: the interval of the ticker, if it is to tick; \<open>None\<close> when it is told to stop
  although it does not tick.\<close>

fun asked :: "int \<Rightarrow> queue_item list \<Rightarrow> int option \<Rightarrow> int option option" where
  "asked mn [] current = Some current"
| "asked mn (item # items) current =
     (case new_interval item of
        None \<Rightarrow> asked mn items current
      | Some d \<Rightarrow>
          if d \<ge> mn then asked mn items (Some d)
          else if d = 0 then if current = None then None else asked mn items None
          else asked mn items current)"

definition ticks :: "int \<Rightarrow> int option \<Rightarrow> ResyncTicker \<Rightarrow> bool" where
  "ticks mn current r \<longleftrightarrow> rt_watcher r = Listening \<and> rt_spawned r = [] \<and> rt_routines r = (case current of None \<Rightarrow> [] | Some d \<Rightarrow> [d]) \<and>
     rt_running r = (current \<noteq> None) \<and> rt_minTickInterval r = mn"

text \<open>The configuration routine waits for ever for a ticker that does not tick.\<close>

definition hangs :: "ResyncTicker \<Rightarrow> bool" where
  "hangs r \<longleftrightarrow> (\<exists>k. rt_watcher r = Stopping k) \<and> rt_spawned r = [] \<and> rt_routines r = []"

lemma hangs_step: "ticker_step r r' \<Longrightarrow> hangs r \<Longrightarrow> hangs r'"
  by (erule ticker_stepE; (erule settle_stepE)?) (auto simp: hangs_def)

interpretation hanging: step_invariant ticker_step hangs
  by unfold_locales (rule hangs_step)

inductive_simps settle_step_iff: "settle_step r r'"

lemma settles_next: "(\<And>x. settle_step r x \<longleftrightarrow> x = r1) \<Longrightarrow> settles r r' \<longleftrightarrow> settles r1 r'"
  unfolding settles_def by (metis converse_rtranclp_into_rtranclp converse_rtranclpE)

lemma settles_here: "(\<And>x. \<not> settle_step r x) \<Longrightarrow> settles r r' \<longleftrightarrow> r' = r"
  unfolding settles_def by (metis converse_rtranclpE rtranclp.rtrancl_refl)

lemma singleton_split: "[c] = xs @ d # ys \<longleftrightarrow> xs = [] \<and> d = c \<and> ys = []"
  by (auto simp: Cons_eq_append_conv)

lemmas settle_simps = settle_step_iff singleton_split after_stopping_def spawn_def Let_def

lemma settles_idle: "rt_watcher r = Listening \<Longrightarrow> rt_spawned r = [] \<Longrightarrow> settles r r' \<longleftrightarrow> r' = r"
  by (rule settles_here) (simp add: settle_simps)

lemma settles_spawned:
  assumes "rt_watcher r = Listening" and "rt_spawned r = [d]"
  shows "settles r r' \<longleftrightarrow> r' = r\<lparr>rt_spawned := [], rt_routines := rt_routines r @ [d], rt_running := True\<rparr>"
proof -
  have "settle_step r x \<longleftrightarrow> x = r\<lparr>rt_spawned := [], rt_routines := rt_routines r @ [d], rt_running := True\<rparr>" for x
    using assms by (auto simp: settle_simps)
  from settles_next [OF this] show ?thesis using assms by (subst (asm) settles_idle) simp_all
qed

lemma settles_stopping:
  assumes "rt_watcher r = Stopping k" and "rt_spawned r = []" and "rt_routines r = [c]"
  shows "settles r r' \<longleftrightarrow> settles (after_stopping k (r\<lparr>rt_routines := [], rt_watcher := Signalled k\<rparr>)) r'"
proof -
  have 1: "settle_step r x \<longleftrightarrow> x = r\<lparr>rt_routines := [], rt_watcher := Signalled k\<rparr>" for x
    using assms by (auto simp: settle_step_iff singleton_split)
  have "settle_step (r\<lparr>rt_routines := [], rt_watcher := Signalled k\<rparr>) x \<longleftrightarrow>
      x = after_stopping k (r\<lparr>rt_routines := [], rt_watcher := Signalled k\<rparr>)" for x
    using assms by (auto simp: settle_step_iff)
  with settles_next [OF 1] settles_next [OF this] show ?thesis by simp
qed

lemma settles_hanging: "rt_watcher r = Stopping k \<Longrightarrow> rt_spawned r = [] \<Longrightarrow> rt_routines r = [] \<Longrightarrow> settles r r' \<longleftrightarrow> r' = r"
  by (rule settles_here) (simp add: settle_simps)

text \<open>One message.\<close>

lemma message_settles:
  assumes "ticks mn current r" and "settles (on_message item r) r'"
  shows "case asked mn [item] current of None \<Rightarrow> hangs r' | Some current' \<Rightarrow> ticks mn current' r'"
proof (cases "new_interval item")
  case None
  then show ?thesis using assms by (simp add: on_message_def ticks_def settles_idle)
next
  case (Some d)
  consider (start) "d \<ge> mn" "current = None" | (restart) c where "d \<ge> mn" "current = Some c"
    | (hang) "d < mn" "d = 0" "current = None" | (stop) c where "d < mn" "d = 0" "current = Some c" | (ignore) "d < mn" "d \<noteq> 0"
    by (cases current) force+
  then show ?thesis
  proof cases
    case start
    then have "settles (spawn d r) r'" using assms Some by (simp add: on_message_def ticks_def)
    then show ?thesis using start assms(1) Some
      by (subst (asm) settles_spawned [of _ d]) (auto simp: spawn_def ticks_def)
  next
    case restart
    then have "settles (r\<lparr>rt_watcher := Stopping (Restart d)\<rparr>) r'" using assms Some by (simp add: on_message_def ticks_def)
    then show ?thesis using restart assms(1) Some
      by (subst (asm) settles_stopping [of _ _ c])
        (auto simp: ticks_def after_stopping_def Let_def spawn_def settles_spawned [of _ d])
  next
    case hang
    then have "settles (r\<lparr>rt_watcher := Stopping Carry_on\<rparr>) r'" using assms Some by (simp add: on_message_def ticks_def)
    then show ?thesis using hang assms(1) Some by (auto simp: ticks_def settles_hanging hangs_def)
  next
    case stop
    then have "settles (r\<lparr>rt_watcher := Stopping Carry_on\<rparr>) r'" using assms Some by (simp add: on_message_def ticks_def)
    then show ?thesis using stop assms(1) Some
      by (subst (asm) settles_stopping [of _ _ c]) (auto simp: ticks_def after_stopping_def Let_def settles_idle)
  next
    case ignore
    then show ?thesis using assms Some by (auto simp: on_message_def ticks_def settles_idle)
  qed
qed

lemma asked_Cons: "asked mn (item # items) current = Option.bind (asked mn [item] current) (asked mn items)"
  by (auto split: option.splits)

lemma orderly_asked:
  assumes "orderly items r r'" and "ticks mn current r"
  shows "case asked mn items current of None \<Rightarrow> hangs r' | Some current' \<Rightarrow> ticks mn current' r'"
  using assms
proof (induction arbitrary: current rule: orderly.induct)
  case (deaf r items)
  then show ?case by (simp add: ticks_def)
next
  case (item r i r' items r'')
  note one = message_settles [OF item.prems item.hyps(2)]
  show ?case
  proof (cases "asked mn [i] current")
    case None
    then have "hangs r'" using one by simp
    then have "r'' = r'" "hangs r'" using item.hyps(3) by (auto simp: hangs_def elim: orderly.cases)
    then show ?thesis using None by (simp add: asked_Cons [of mn i items] del: asked.simps)
  next
    case (Some c)
    then have "ticks mn c r'" using one by simp
    from item.IH [OF this] show ?thesis using Some by (simp add: asked_Cons [of mn i items] del: asked.simps)
  qed
qed simp

lemma message_settles_somewhere:
  assumes "ticks mn current r"
  shows "\<exists>r'. settles (on_message item r) r'"
proof (cases "rt_running r")
  case True
  then obtain c where c: "current = Some c" using assms by (auto simp: ticks_def)
  have "\<exists>r'. settles (r\<lparr>rt_watcher := Stopping (Restart d)\<rparr>) r'" for d
    using assms c by (subst settles_stopping [of _ _ c])
      (auto simp: ticks_def after_stopping_def Let_def spawn_def settles_spawned [of _ d])
  moreover have "\<exists>r'. settles (r\<lparr>rt_watcher := Stopping Carry_on\<rparr>) r'"
    using assms c by (subst settles_stopping [of _ _ c]) (auto simp: ticks_def after_stopping_def Let_def settles_idle)
  ultimately show ?thesis using assms c True by (auto simp: on_message_def ticks_def settles_idle split: option.splits)
next
  case False
  then have "current = None" using assms by (auto simp: ticks_def)
  then show ?thesis using assms False
    by (auto simp: on_message_def ticks_def settles_idle settles_hanging spawn_def settles_spawned split: option.splits)
qed

lemma orderly_somewhere: "ticks mn current r \<Longrightarrow> \<exists>r'. orderly items r r'"
proof (induction items arbitrary: r current)
  case Nil
  show ?case using orderly.no_more by blast
next
  case (Cons item items)
  obtain r1 where r1: "settles (on_message item r) r1" using message_settles_somewhere [OF Cons.prems] by blast
  have "\<exists>r2. orderly items r1 r2"
  proof (cases "asked mn [item] current")
    case None
    then show ?thesis using message_settles [OF Cons.prems r1] orderly.deaf [of r1 items] by (auto simp: hangs_def)
  next
    case (Some c)
    then show ?thesis using message_settles [OF Cons.prems r1] Cons.IH by auto
  qed
  then show ?case using orderly.item [OF _ r1] Cons.prems by (auto simp: ticks_def)
qed

lemma start_settles:
  assumes "settles (ticker_Start d (NewResyncTicker mn)) r"
  shows "ticks mn (if d \<ge> mn then Some d else None) r"
proof (cases "d \<ge> mn")
  case True
  then show ?thesis using assms
    by (subst (asm) settles_spawned [of _ d]) (auto simp: ticks_def ticker_Start_def NewResyncTicker_def start_watch_def spawn_def)
next
  case False
  then show ?thesis using assms
    by (subst (asm) settles_idle) (auto simp: ticks_def ticker_Start_def NewResyncTicker_def start_watch_def)
qed

text \<open>A change of the interval that comes before the ticker routine of the change before has set \<open>running\<close> starts a second
  ticker beside the first.\<close>

lemma two_tickers:
  assumes "rt_watcher r = Listening" and "rt_spawned r = []" and "rt_routines r = []" and "\<not> rt_running r"
    and "new_interval item1 = Some d1" and "rt_minTickInterval r \<le> d1" and "new_interval item2 = Some d2" and "rt_minTickInterval r \<le> d2"
  shows "\<exists>r'. ticker_step\<^sup>*\<^sup>* r r' \<and> rt_watcher r' = Listening \<and> rt_routines r' = [d1, d2]"
proof -
  define r1 r2 where "r1 = on_message item1 r" and "r2 = on_message item2 r1"
  define r3 where "r3 = r2\<lparr>rt_spawned := [d2], rt_routines := [d1], rt_running := True\<rparr>"
  define r4 where "r4 = r3\<lparr>rt_spawned := [], rt_routines := [d1, d2], rt_running := True\<rparr>"
  have r1: "r1 = spawn d1 r" using assms by (simp add: r1_def on_message_def)
  then have r2: "r2 = spawn d2 (spawn d1 r)" using assms by (simp add: r2_def on_message_def spawn_def)
  have "ticker_step r r1" unfolding r1_def using assms(1) by (rule ticker_step.message)
  moreover have "ticker_step r1 r2" unfolding r2_def using assms(1) r1 by (intro ticker_step.message) (simp add: spawn_def)
  moreover have "settle_step r2 r3"
    using settle_step.run [of r2 "[]" d1 "[d2]"] assms(2,3) by (simp add: r3_def r2 spawn_def)
  moreover have "settle_step r3 r4" using settle_step.run [of r3 "[]" d2 "[]"] by (simp add: r4_def r3_def)
  ultimately have "ticker_step\<^sup>*\<^sup>* r r4"
    by (meson r_into_rtranclp rtranclp.rtrancl_into_rtrancl ticker_step.settle)
  then show ?thesis using assms(1) r2 by (intro exI [of _ r4]) (simp add: r4_def r3_def spawn_def)
qed

section \<open>Properties\<close>

text \<open>C15. The ticker follows the configuration, until it is told to stop while it does not tick: when each
  change of the configuration is worked off before the next one comes, there is at most one ticker, and
  it ticks at the last interval that was asked for and not below the minimum, or not at all when it was
  switched off. But a change to the interval zero while no ticker runs makes the configuration routine wait for ever: it
  takes no message again, and no ticker ever runs again.\<close>

theorem ticker_follows_config:
  assumes "settles (ticker_Start d (NewResyncTicker mn)) r0"
  shows "(\<exists>r. orderly items r0 r) \<and>
     (\<forall>r. orderly items r0 r \<longrightarrow>
       (case asked mn items (if d \<ge> mn then Some d else None) of
          Some current \<Rightarrow> rt_watcher r = Listening \<and> rt_routines r = (case current of None \<Rightarrow> [] | Some i \<Rightarrow> [i])
        | None \<Rightarrow> (\<forall>r'. ticker_step\<^sup>*\<^sup>* r r' \<longrightarrow> (\<exists>k. rt_watcher r' = Stopping k) \<and> rt_routines r' = [])))"
proof -
  note start = start_settles [OF assms]
  have "case asked mn items (if d \<ge> mn then Some d else None) of
          Some current \<Rightarrow> rt_watcher r = Listening \<and> rt_routines r = (case current of None \<Rightarrow> [] | Some i \<Rightarrow> [i])
        | None \<Rightarrow> (\<forall>r'. ticker_step\<^sup>*\<^sup>* r r' \<longrightarrow> (\<exists>k. rt_watcher r' = Stopping k) \<and> rt_routines r' = [])"
    if "orderly items r0 r" for r
  proof (cases "asked mn items (if d \<ge> mn then Some d else None)")
    case None
    then have "hangs r" using orderly_asked [OF that start] by simp
    then show ?thesis using None hanging.reachable_inv by (auto simp: hangs_def)
  next
    case (Some c)
    then show ?thesis using orderly_asked [OF that start] by (auto simp: ticks_def)
  qed
  then show ?thesis using orderly_somewhere [OF start] by blast
qed

text \<open>From one minute to ninety seconds, to zero, and to zero again in another notation.\<close>

definition sample_change :: "string \<Rightarrow> string \<Rightarrow> queue_item" where
  "sample_change old new =
     (let c = (\<lambda>i. EcnetConfigObject (EcnetConfig_zero\<lparr>ec_Spec := (ec_Spec EcnetConfig_zero)\<lparr>ecs_Sidecar :=
         (ecs_Sidecar (ec_Spec EcnetConfig_zero))\<lparr>sc_ConfigResyncInterval := i\<rparr>\<rparr>\<rparr>))
      in MessageItem \<lparr>psm_Kind = EcnetConfigUpdated, psm_OldObj = c old, psm_NewObj = c new\<rparr>)"

theorem ticker_follows_config_witness:
  "\<exists>r0 r1 r2. settles (ticker_Start 60000000000 (NewResyncTicker 30000000000)) r0 \<and>
     orderly [sample_change ''1m'' ''90s''] r0 r1 \<and> rt_routines r1 = [90000000000] \<and>
     orderly [sample_change ''1m'' ''90s'', sample_change ''90s'' ''0s'', sample_change ''0s'' ''0''] r0 r2 \<and> \<not> ticker_step r2 r1"
proof -
  define r0 where "r0 = (ticker_Start 60000000000 (NewResyncTicker 30000000000))\<lparr>rt_spawned := [], rt_routines := [60000000000], rt_running := True\<rparr>"
  have "settles (ticker_Start 60000000000 (NewResyncTicker 30000000000)) r0"
    by (subst settles_spawned [of _ "60000000000"]) (simp_all add: r0_def ticker_Start_def NewResyncTicker_def start_watch_def spawn_def)
  note follows = ticker_follows_config [OF this]
  have 1: "asked 30000000000 [sample_change ''1m'' ''90s''] (Some 60000000000) = Some (Some 90000000000)" by code_simp
  have 2: "asked 30000000000 [sample_change ''1m'' ''90s'', sample_change ''90s'' ''0s'', sample_change ''0s'' ''0''] (Some 60000000000) = None"
    by code_simp
  obtain r1 where r1: "orderly [sample_change ''1m'' ''90s''] r0 r1" "rt_watcher r1 = Listening" "rt_routines r1 = [90000000000]"
    using follows [of "[sample_change ''1m'' ''90s'']"] 1 by (auto simp del: asked.simps)
  obtain r2 where r2: "orderly [sample_change ''1m'' ''90s'', sample_change ''90s'' ''0s'', sample_change ''0s'' ''0''] r0 r2"
    "\<forall>r'. ticker_step\<^sup>*\<^sup>* r2 r' \<longrightarrow> (\<exists>k. rt_watcher r' = Stopping k) \<and> rt_routines r' = []"
    using follows [of "[sample_change ''1m'' ''90s'', sample_change ''90s'' ''0s'', sample_change ''0s'' ''0'']"] 2
    by (auto simp del: asked.simps)
  then have "\<not> ticker_step r2 r1" using r1(3) by auto
  then show ?thesis using r1 r2 \<open>settles _ r0\<close> by blast
qed

end
