(* ===== verification/WorkerPool.thy ===== *)
theory WorkerPool
  imports Prelude
begin

text \<open>
  \<open>workerpool/workerpool.go\<close>: the pool of workers that run the jobs of the servers. The state has the
  jobs whose \<open>AddJob\<close> still waits for room in the channel, the buffered channel, and what each worker does;
  \<open>wp_added\<close>, \<open>wp_started\<close> and \<open>wp_finished\<close> record the history. A step is one operation on a channel or the end of a
  job. Jobs are abstract.
\<close>

datatype 'j worker = Idle | Working 'j | Stopped

record 'j pool =
  wp_nWorkers :: uint64
  wp_senders :: "'j list"
  wp_jobs :: "'j list"
  wp_workers :: "'j worker list"
  wp_stop :: bool
  wp_added :: "'j list"
  wp_started :: "'j list"
  wp_finished :: "'j list"

text \<open>\<open>goMaxProcs\<close> is \<open>runtime.GOMAXPROCS(-1)\<close>; a channel with a negative capacity cannot be made.\<close>

definition NewWorkerPool :: "int \<Rightarrow> int \<Rightarrow> 'j pool outcome" where
  "NewWorkerPool goMaxProcs nWorkers =
     (let nWorkers = (if nWorkers = 0 then goMaxProcs else nWorkers) in
      if nWorkers < 0 then Panics
      else Returns \<lparr>wp_nWorkers = word_of_int nWorkers, wp_senders = [], wp_jobs = [], wp_workers = replicate (nat nWorkers) Idle, wp_stop = False,
        wp_added = [], wp_started = [], wp_finished = []\<rparr>)"

definition GetWorkerNumber :: "'j pool \<Rightarrow> int" where
  "GetWorkerNumber wp = sint (wp_nWorkers wp)"

text \<open>\<open>AddJob\<close> up to its wait for room in the channel.\<close>

definition AddJob :: "'j \<Rightarrow> 'j pool \<Rightarrow> 'j pool" where
  "AddJob job wp = wp\<lparr>wp_senders := wp_senders wp @ [job], wp_added := wp_added wp @ [job]\<rparr>"

text \<open>\<open>Stop\<close> closes the stop channel; closing it twice panics.\<close>

definition pool_Stop :: "'j pool \<Rightarrow> 'j pool outcome" where
  "pool_Stop wp = (if wp_stop wp then Panics else Returns (wp\<lparr>wp_stop := True\<rparr>))"

text \<open>The steps of the pool itself: room in the channel for the first waiting sender, and the branches of \<open>work\<close>.\<close>

inductive work_step :: "'j pool \<Rightarrow> 'j pool \<Rightarrow> bool" where
  send: "wp_senders wp = job # rest \<Longrightarrow> length (wp_jobs wp) < length (wp_workers wp) \<Longrightarrow>
    work_step wp (wp\<lparr>wp_senders := rest, wp_jobs := wp_jobs wp @ [job]\<rparr>)"
| take: "i < length (wp_workers wp) \<Longrightarrow> wp_workers wp ! i = Idle \<Longrightarrow> wp_jobs wp = job # rest \<Longrightarrow>
    work_step wp (wp\<lparr>wp_jobs := rest, wp_workers := (wp_workers wp)[i := Working job], wp_started := wp_started wp @ [job]\<rparr>)"
| finish: "i < length (wp_workers wp) \<Longrightarrow> wp_workers wp ! i = Working job \<Longrightarrow>
    work_step wp (wp\<lparr>wp_workers := (wp_workers wp)[i := Idle], wp_finished := wp_finished wp @ [job]\<rparr>)"
| stopped: "i < length (wp_workers wp) \<Longrightarrow> wp_workers wp ! i = Idle \<Longrightarrow> wp_stop wp \<Longrightarrow>
    work_step wp (wp\<lparr>wp_workers := (wp_workers wp)[i := Stopped]\<rparr>)"

inductive pool_step :: "'j pool \<Rightarrow> 'j pool \<Rightarrow> bool" where
  work: "work_step wp wp' \<Longrightarrow> pool_step wp wp'"
| add: "pool_step wp (AddJob job wp)"
| stop: "pool_Stop wp = Returns wp' \<Longrightarrow> pool_step wp wp'"

inductive_cases work_stepE: "work_step wp wp'"
inductive_cases pool_stepE: "pool_step wp wp'"

section \<open>Every job runs once, in order\<close>

definition working :: "'j worker list \<Rightarrow> 'j multiset" where
  "working ws = mset (concat (map (\<lambda>w. case w of Working j \<Rightarrow> [j] | _ \<Rightarrow> []) ws))"

definition pool_inv :: "nat \<Rightarrow> 'j pool \<Rightarrow> bool" where
  "pool_inv n wp \<longleftrightarrow> length (wp_workers wp) = n \<and> length (wp_jobs wp) \<le> n \<and>
     wp_started wp @ wp_jobs wp @ wp_senders wp = wp_added wp \<and>
     mset (wp_started wp) = working (wp_workers wp) + mset (wp_finished wp) \<and>
     (wp_stop wp \<or> Stopped \<notin> set (wp_workers wp))"

lemma working_update:
  "i < length ws \<Longrightarrow> working (ws[i := w]) + working [ws ! i] = working ws + working [w]"
proof (induction ws arbitrary: i)
  case (Cons v ws)
  then show ?case by (cases i) (auto simp: working_def ac_simps)
qed simp

lemma working_simps [simp]: "working [Idle] = {#}" "working [Stopped] = {#}" "working [Working j] = {#j#}"
  by (simp_all add: working_def)

lemma working_take: "i < length ws \<Longrightarrow> ws ! i = Idle \<Longrightarrow> working (ws[i := Working j]) = add_mset j (working ws)"
  using working_update [of i ws "Working j"] by simp

lemma working_finish: "i < length ws \<Longrightarrow> ws ! i = Working j \<Longrightarrow> working ws = add_mset j (working (ws[i := Idle]))"
  using working_update [of i ws Idle] by simp

lemma working_stop: "i < length ws \<Longrightarrow> ws ! i = Idle \<Longrightarrow> working (ws[i := Stopped]) = working ws"
  using working_update [of i ws Stopped] by simp

lemma working_size: "size (working ws) \<le> length ws"
  by (induction ws) (auto simp: working_def split: worker.splits)

lemma work_inv:
  assumes "work_step wp wp'" and "pool_inv n wp"
  shows "pool_inv n wp'"
  using assms
proof cases
  case (send job rest)
  then show ?thesis using assms(2) by (auto simp: pool_inv_def)
next
  case (take i job rest)
  then show ?thesis using assms(2) set_update_subset_insert [of "wp_workers wp" i "Working job"]
    by (auto simp: pool_inv_def working_take)
next
  case (finish i job)
  then show ?thesis using assms(2) set_update_subset_insert [of "wp_workers wp" i Idle]
    by (auto simp: pool_inv_def working_finish [OF finish(2,3)])
next
  case (stopped i)
  then show ?thesis using assms(2) by (auto simp: pool_inv_def working_stop)
qed

lemma pool_inv_step: "pool_step wp wp' \<Longrightarrow> pool_inv n wp \<Longrightarrow> pool_inv n wp'"
proof (erule pool_stepE)
  show "pool_inv n wp \<Longrightarrow> work_step wp wp' \<Longrightarrow> pool_inv n wp'" by (rule work_inv)
qed (auto simp: pool_inv_def AddJob_def pool_Stop_def split: if_splits)

interpretation pool: step_invariant pool_step "pool_inv n" for n
  by unfold_locales (rule pool_inv_step)

lemma pool_inv_new: "NewWorkerPool goMaxProcs m = Returns wp \<Longrightarrow> pool_inv (length (wp_workers wp)) wp"
  by (auto simp: NewWorkerPool_def pool_inv_def working_def Let_def split: if_splits)

section \<open>Every job finishes\<close>

definition work_left :: "'j pool \<Rightarrow> nat" where
  "work_left wp = 3 * length (wp_senders wp) + 2 * length (wp_jobs wp) + size (working (wp_workers wp))"

lemma work_step_left:
  assumes "work_step wp wp'" and "\<not> wp_stop wp"
  shows "work_left wp' < work_left wp \<and> \<not> wp_stop wp' \<and> wp_added wp' = wp_added wp"
  using assms
proof cases
  case (finish i job)
  then show ?thesis using assms(2) by (simp add: work_left_def working_finish [OF finish(2,3)])
qed (auto simp: work_left_def working_take)

lemma work_steps_left:
  "(work_step ^^ k) wp wp' \<Longrightarrow> \<not> wp_stop wp \<Longrightarrow>
   k + work_left wp' \<le> work_left wp \<and> \<not> wp_stop wp' \<and> wp_added wp' = wp_added wp"
proof (induction k arbitrary: wp')
  case (Suc k)
  then obtain u where u: "(work_step ^^ k) wp u" "work_step u wp'" by auto
  from Suc.IH [OF u(1) Suc.prems(2)] work_step_left [OF u(2)] show ?case by simp
qed simp

lemma work_steps_inv: "(work_step ^^ k) wp wp' \<Longrightarrow> pool_inv n wp \<Longrightarrow> pool_inv n wp'"
  by (induction k arbitrary: wp') (auto intro: work_inv)

lemma work_possible:
  assumes "pool_inv n wp" and "\<not> wp_stop wp" and "0 < n" and "0 < work_left wp"
  shows "\<exists>wp'. work_step wp wp'"
proof (cases "\<exists>i j. i < n \<and> wp_workers wp ! i = Working j")
  case True
  then obtain i j where "i < length (wp_workers wp)" "wp_workers wp ! i = Working j" using assms(1) by (auto simp: pool_inv_def)
  from work_step.finish [OF this] show ?thesis by blast
next
  case False
  then have idle: "wp_workers wp ! i = Idle" if "i < n" for i
    using that assms(1,2) by (cases "wp_workers wp ! i") (auto simp: pool_inv_def in_set_conv_nth)
  have n: "length (wp_workers wp) = n" using assms(1) by (simp add: pool_inv_def)
  show ?thesis
  proof (cases "wp_jobs wp")
    case (Cons j js)
    from work_step.take [OF _ idle this, of 0] n assms(3) show ?thesis by auto
  next
    case Nil
    have "working (wp_workers wp) = {#}" using idle n
      by (auto simp: working_def in_set_conv_nth split: worker.splits)
    then obtain j js where "wp_senders wp = j # js" using assms(4) Nil by (cases "wp_senders wp") (auto simp: work_left_def)
    from work_step.send [OF this] Nil n assms(3) show ?thesis by auto
  qed
qed

lemma no_work_left:
  assumes "pool_inv n wp" and "work_left wp = 0"
  shows "mset (wp_finished wp) = mset (wp_added wp)"
proof -
  have "wp_started wp = wp_added wp" "working (wp_workers wp) = {#}" using assms by (auto simp: pool_inv_def work_left_def)
  then show ?thesis using assms(1) by (auto simp: pool_inv_def)
qed

section \<open>Properties\<close>

text \<open>C17. The worker pool runs every job exactly once, in the order of submission, and no more jobs at a time than
  it has workers: at any time the started jobs, the jobs in the channel and the jobs of waiting
  senders are the added jobs in order, and the started jobs are those that run and those that have
  finished. As long as the pool is not stopped, every job finishes: a run of the pool's own steps is at
  most as long as the work that is left, and where it can go no further, all added jobs have finished.\<close>

theorem pool_runs_every_job:
  assumes "NewWorkerPool goMaxProcs m = Returns wp0" and "0 < length (wp_workers wp0)" and "pool_step\<^sup>*\<^sup>* wp0 wp"
  shows "wp_started wp @ wp_jobs wp @ wp_senders wp = wp_added wp \<and>
     mset (wp_started wp) = working (wp_workers wp) + mset (wp_finished wp) \<and>
     size (working (wp_workers wp)) \<le> length (wp_workers wp0) \<and>
     (\<not> wp_stop wp \<longrightarrow> (\<forall>k wp'. (work_step ^^ k) wp wp' \<longrightarrow>
        k \<le> work_left wp \<and> ((\<exists>wp''. work_step wp' wp'') \<or> mset (wp_finished wp') = mset (wp_added wp))))"
proof -
  have inv: "pool_inv (length (wp_workers wp0)) wp" by (rule pool.reachable_inv [OF assms(3) pool_inv_new [OF assms(1)]])
  then have "size (working (wp_workers wp)) \<le> length (wp_workers wp0)"
    using working_size [of "wp_workers wp"] by (simp add: pool_inv_def)
  moreover have "k \<le> work_left wp \<and> ((\<exists>wp''. work_step wp' wp'') \<or> mset (wp_finished wp') = mset (wp_added wp))"
    if "\<not> wp_stop wp" and k: "(work_step ^^ k) wp wp'" for k wp'
  proof -
    note left = work_steps_left [OF k that(1)]
    have inv': "pool_inv (length (wp_workers wp0)) wp'" by (rule work_steps_inv [OF k inv])
    show ?thesis
      using left work_possible [OF inv' _ assms(2)] no_work_left [OF inv'] by fastforce
  qed
  ultimately show ?thesis using inv unfolding pool_inv_def by blast
qed

text \<open>One worker and two jobs.\<close>

theorem pool_runs_every_job_witness:
  "\<exists>wp0 wp. NewWorkerPool 1 0 = Returns wp0 \<and> pool_step\<^sup>*\<^sup>* wp0 wp \<and> wp_added wp = ''ab'' \<and> wp_started wp = ''a'' \<and>
     wp_jobs wp @ wp_senders wp = ''b'' \<and> working (wp_workers wp) = {#CHR ''a''#} \<and> size (working (wp_workers wp)) \<le> 1"
proof -
  define p :: "char pool" where "p = \<lparr>wp_nWorkers = 1, wp_senders = [], wp_jobs = [], wp_workers = [Idle], wp_stop = False,
        wp_added = [], wp_started = [], wp_finished = []\<rparr>"
  define q where "q = AddJob (CHR ''b'') (AddJob (CHR ''a'') p)"
  define r where "r = q\<lparr>wp_senders := ''b'', wp_jobs := ''a''\<rparr>"
  define u where "u = r\<lparr>wp_jobs := [], wp_workers := [Working (CHR ''a'')], wp_started := ''a''\<rparr>"
  have new: "NewWorkerPool 1 0 = Returns p" by (simp add: NewWorkerPool_def p_def)
  have "pool_step\<^sup>*\<^sup>* p q" unfolding q_def by (meson pool_step.add r_into_rtranclp rtranclp_trans)
  moreover have "work_step q r" unfolding r_def
    using work_step.send [of q "CHR ''a''" "''b''"] by (simp add: q_def p_def AddJob_def)
  moreover have "work_step r u" unfolding u_def
    using work_step.take [of 0 r "CHR ''a''" "[]"] by (simp add: r_def q_def p_def AddJob_def)
  ultimately have "pool_step\<^sup>*\<^sup>* p u" by (meson pool_step.work rtranclp.rtrancl_into_rtrancl)
  with pool_runs_every_job [OF new _ this] new show ?thesis
    by (intro exI [of _ p] exI [of _ u]) (simp add: u_def r_def q_def p_def AddJob_def)
qed

end
