(* ===== verification/KubeApi.thy ===== *)
theory KubeApi
  imports Constants
begin

text \<open>
  The API server of Kubernetes as the command line and the installer use it. Its operations are parameters, a
  record of functions on its state; what the code relies on is the predicate \<open>api_contract\<close>: lists select by
  labels, and a strategic merge patch of a namespace sets and removes labels and annotations. The
  patches are JSON texts that the code prints; a cluster in memory, which parses them, satisfies the contract.
\<close>

section \<open>Objects and operations\<close>

datatype api_error = NotFound | AlreadyExists | ApiFailure string

record Deployment =
  dep_Namespace :: string
  dep_Labels :: "(string, string) gomap"

record ns_object =
  nso_Name :: string
  nso_Labels :: "(string, string) gomap"
  nso_Annotations :: "(string, string) gomap"

text \<open>A list that fails still returns a list object; the namespace \<open>[]\<close> stands for all namespaces. The second
  argument of a list is the label selector, that of a patch its text.\<close>

record 'k kube_api =
  list_deployments :: "string \<Rightarrow> string \<Rightarrow> 'k \<Rightarrow> Deployment list \<times> api_error option"
  get_namespace :: "string \<Rightarrow> 'k \<Rightarrow> api_error + ns_object"
  list_namespaces :: "string \<Rightarrow> 'k \<Rightarrow> api_error + ns_object list"
  patch_namespace :: "string \<Rightarrow> string \<Rightarrow> 'k \<Rightarrow> api_error option \<times> 'k"
  delete_namespace :: "string \<Rightarrow> 'k \<Rightarrow> api_error option \<times> 'k"
  delete_crd :: "string \<Rightarrow> 'k \<Rightarrow> api_error option \<times> 'k"

text \<open>\<open>m[key]\<close> of a map of strings.\<close>

definition label :: "(string, string) gomap \<Rightarrow> string \<Rightarrow> string" where
  "label m key = (case gmap_get m key of None \<Rightarrow> [] | Some v \<Rightarrow> v)"

definition equals_selector :: "string \<Rightarrow> string \<Rightarrow> string" where
  "equals_selector key v = key @ ''='' @ v"

fun strings_Join :: "string \<Rightarrow> string list \<Rightarrow> string" where
  "strings_Join sep [] = []"
| "strings_Join sep [s] = s"
| "strings_Join sep (s # t # ts) = s @ sep @ strings_Join sep (t # ts)"

section \<open>Patches\<close>

text \<open>A strategic merge patch of the metadata of a namespace: values to set, and keys to remove (\<open>null\<close>).\<close>

type_synonym patch_entries = "(string \<times> string option) list"

record ns_patch =
  patch_labels :: patch_entries
  patch_annotations :: patch_entries

definition json_string :: "string \<Rightarrow> string" where
  "json_string s = CHR 0x22 # s @ [CHR 0x22]"

definition json_line :: "nat \<Rightarrow> string" where
  "json_line n = CHR 0x0A # replicate n (CHR 0x09)"

definition json_entry :: "string \<times> string option \<Rightarrow> string" where
  "json_entry e = json_line 3 @ json_string (fst e) @ '': '' @ (case snd e of None \<Rightarrow> ''null'' | Some v \<Rightarrow> json_string v)"

definition json_section :: "string \<Rightarrow> patch_entries \<Rightarrow> string" where
  "json_section name es = json_line 2 @ json_string name @ '': {'' @ strings_Join '','' (map json_entry es) @ json_line 2 @ ''}''"

definition patch_text :: "ns_patch \<Rightarrow> string" where
  "patch_text p =
     json_line 0 @ ''{'' @ json_line 1 @ json_string ''metadata'' @ '': {'' @
     strings_Join '','' ([json_section ''labels'' (patch_labels p)] @
       (if patch_annotations p = [] then [] else [json_section ''annotations'' (patch_annotations p)])) @
     json_line 1 @ ''}'' @ json_line 0 @ ''}''"

definition apply_entries :: "patch_entries \<Rightarrow> (string \<rightharpoonup> string) \<Rightarrow> (string \<rightharpoonup> string)" where
  "apply_entries = fold (\<lambda>(key, v) m. m(key := v))"

text \<open>The characters of label keys and values.\<close>

definition plain_char :: "char \<Rightarrow> bool" where
  "plain_char c \<longleftrightarrow> is_digit c \<or> 65 \<le> byte c \<and> byte c \<le> 90 \<or> 97 \<le> byte c \<and> byte c \<le> 122 \<or> c \<in> set ''-_./''"

definition plain :: "string \<Rightarrow> bool" where
  "plain s \<longleftrightarrow> list_all plain_char s"

definition plain_entries :: "patch_entries \<Rightarrow> bool" where
  "plain_entries es \<longleftrightarrow> es \<noteq> [] \<and> (\<forall>(key, v) \<in> set es. plain key \<and> (case v of None \<Rightarrow> True | Some v \<Rightarrow> plain v))"

section \<open>The contract\<close>

text \<open>\<open>nss\<close> and \<open>deps\<close> read the namespaces and the deployments from the state. An operation may fail at any time, and
  then changes nothing.\<close>

definition ns_same :: "ns_object \<Rightarrow> ns_object \<Rightarrow> bool" where
  "ns_same a b \<longleftrightarrow> gmap_get (nso_Labels a) = gmap_get (nso_Labels b) \<and> gmap_get (nso_Annotations a) = gmap_get (nso_Annotations b)"

definition api_contract :: "'k kube_api \<Rightarrow> ('k \<Rightarrow> string \<Rightarrow> ns_object option) \<Rightarrow> ('k \<Rightarrow> Deployment list) \<Rightarrow> bool" where
  "api_contract api nss deps \<longleftrightarrow>
     (\<forall>n key v k ds. plain key \<longrightarrow> plain v \<longrightarrow> list_deployments api n (equals_selector key v) k = (ds, None) \<longrightarrow>
        set ds = {d \<in> set (deps k). (n = [] \<or> dep_Namespace d = n) \<and> gmap_get (dep_Labels d) key = Some v}) \<and>
     (\<forall>n selector k ds e. list_deployments api n selector k = (ds, Some e) \<longrightarrow> ds = []) \<and>
     (\<forall>n k ns. get_namespace api n k = Inr ns \<longrightarrow> (\<exists>ns'. nss k n = Some ns' \<and> ns_same ns ns')) \<and>
     (\<forall>key v k nl. plain key \<longrightarrow> plain v \<longrightarrow> list_namespaces api (equals_selector key v) k = Inr nl \<longrightarrow>
        set (map nso_Name nl) = {n. \<exists>ns. nss k n = Some ns \<and> gmap_get (nso_Labels ns) key = Some v}) \<and>
     (\<forall>n p k r k'. plain_entries (patch_labels p) \<longrightarrow> (patch_annotations p = [] \<or> plain_entries (patch_annotations p)) \<longrightarrow>
        patch_namespace api n (patch_text p) k = (r, k') \<longrightarrow>
        deps k' = deps k \<and> (\<forall>m. m \<noteq> n \<longrightarrow> nss k' m = nss k m) \<and>
        (if r = None then \<exists>a b. nss k n = Some a \<and> nss k' n = Some b \<and>
             gmap_get (nso_Labels b) = apply_entries (patch_labels p) (gmap_get (nso_Labels a)) \<and>
             gmap_get (nso_Annotations b) = apply_entries (patch_annotations p) (gmap_get (nso_Annotations a))
         else nss k' n = nss k n))"

section \<open>Reading a patch\<close>

datatype token = Str string | Null | Punct char

fun lex_string :: "string \<Rightarrow> string \<Rightarrow> (string \<times> string) option" where
  "lex_string acc [] = None"
| "lex_string acc (c # cs) = (if c = CHR 0x22 then Some (rev acc, cs) else lex_string (c # acc) cs)"

lemma lex_string_length: "lex_string acc s = Some (t, r) \<Longrightarrow> length r < length s"
  by (induction acc s rule: lex_string.induct) (auto split: if_splits)

function lex_json :: "string \<Rightarrow> token list option" where
  "lex_json [] = Some []"
| "lex_json (c # cs) =
     (if c = CHR 0x0A \<or> c = CHR 0x09 \<or> c = CHR '' '' then lex_json cs
      else if c \<in> set ''{}:,'' then map_option (\<lambda>us. Punct c # us) (lex_json cs)
      else if c = CHR 0x22 then (case lex_string [] cs of None \<Rightarrow> None | Some (s, r) \<Rightarrow> map_option (\<lambda>us. Str s # us) (lex_json r))
      else if take 4 (c # cs) = ''null'' then map_option (\<lambda>us. Null # us) (lex_json (drop 4 (c # cs)))
      else None)"
  by pat_completeness auto
termination
  by (relation "measure length") (auto dest: lex_string_length)

declare lex_json.simps [simp del]

fun parse_entries :: "token list \<Rightarrow> (patch_entries \<times> token list) option" where
  "parse_entries (Str key # Punct c # v # Punct d # ts) =
     (if c \<noteq> CHR '':'' then None
      else case (case v of Str s \<Rightarrow> Some (Some s) | Null \<Rightarrow> Some None | Punct _ \<Rightarrow> None) of
        None \<Rightarrow> None
      | Some v \<Rightarrow>
          if d = CHR ''}'' then Some ([(key, v)], ts)
          else if d = CHR '','' then map_option (\<lambda>(es, r). ((key, v) # es, r)) (parse_entries ts)
          else None)"
| "parse_entries _ = None"

definition open_object :: "string \<Rightarrow> token list" where
  "open_object name = [Str name, Punct (CHR '':''), Punct (CHR ''{'')]"

definition parse_section :: "string \<Rightarrow> token list \<Rightarrow> (patch_entries \<times> token list) option" where
  "parse_section name ts = (if take 3 ts = open_object name then parse_entries (drop 3 ts) else None)"

definition closing :: "token list" where
  "closing = [Punct (CHR ''}''), Punct (CHR ''}'')]"

definition parse_patch :: "string \<Rightarrow> ns_patch option" where
  "parse_patch text =
     (case lex_json text of
        None \<Rightarrow> None
      | Some ts \<Rightarrow>
          if take 4 ts \<noteq> Punct (CHR ''{'') # open_object ''metadata'' then None
          else case parse_section ''labels'' (drop 4 ts) of
            None \<Rightarrow> None
          | Some (ls, r) \<Rightarrow>
              if r = closing then Some \<lparr>patch_labels = ls, patch_annotations = []\<rparr>
              else if r = [] \<or> hd r \<noteq> Punct (CHR '','') then None
              else case parse_section ''annotations'' (tl r) of
                None \<Rightarrow> None
              | Some (as, r') \<Rightarrow> if r' = closing then Some \<lparr>patch_labels = ls, patch_annotations = as\<rparr> else None)"

definition lexes :: "string \<Rightarrow> token list \<Rightarrow> bool" where
  "lexes s ts \<longleftrightarrow> (\<forall>r. lex_json (s @ r) = map_option (\<lambda>us. ts @ us) (lex_json r))"

lemma lexes_Nil [simp]: "lexes [] []" by (simp add: lexes_def option.map_ident)

lemma lexes_append: "lexes s ts \<Longrightarrow> lexes s' ts' \<Longrightarrow> lexes (s @ s') (ts @ ts')"
  by (simp add: lexes_def option.map_comp comp_def)

lemma lexes_blank: "c = CHR 0x0A \<or> c = CHR 0x09 \<or> c = CHR '' '' \<Longrightarrow> lexes [c] []"
  by (auto simp: lexes_def lex_json.simps option.map_ident)

lemma lexes_line: "lexes (json_line n) []"
proof -
  have "lexes (replicate n (CHR 0x09)) []" by (induction n) (use lexes_append [OF lexes_blank, of "CHR 0x09"] in auto)
  from lexes_append [OF lexes_blank this, of "CHR 0x0A"] show ?thesis by (simp add: json_line_def)
qed

lemma lexes_punct: "c \<in> set ''{}:,'' \<Longrightarrow> lexes [c] [Punct c]"
  by (auto simp: lexes_def lex_json.simps comp_def)

lemma lexes_null: "lexes ''null'' [Null]"
  by (simp add: lexes_def lex_json.simps comp_def)

lemma plain_no_quote: "plain s \<Longrightarrow> CHR 0x22 \<notin> set s"
  by (auto simp: plain_def list_all_iff plain_char_def is_digit_def byte_def)

lemma lex_string_plain: "CHR 0x22 \<notin> set s \<Longrightarrow> lex_string acc (s @ CHR 0x22 # r) = Some (rev acc @ s, r)"
  by (induction s arbitrary: acc) auto

lemma lexes_string: "plain s \<Longrightarrow> lexes (json_string s) [Str s]"
  using lex_string_plain [OF plain_no_quote] by (simp add: lexes_def json_string_def lex_json.simps comp_def)

lemmas lexes_intros = lexes_append lexes_line lexes_string lexes_null

fun entry_tokens :: "string \<times> string option \<Rightarrow> token list" where
  "entry_tokens (key, v) = [Str key, Punct (CHR '':''), case v of None \<Rightarrow> Null | Some s \<Rightarrow> Str s]"

fun entries_tokens :: "patch_entries \<Rightarrow> token list" where
  "entries_tokens [] = []"
| "entries_tokens [e] = entry_tokens e"
| "entries_tokens (e # f # es) = entry_tokens e @ [Punct (CHR '','')] @ entries_tokens (f # es)"

lemma lexes_colon: "lexes '': '' [Punct (CHR '':'')]"
  using lexes_append [OF lexes_punct [of "CHR '':''"] lexes_blank [of "CHR '' ''"]] by simp

lemma lexes_open: "lexes '': {'' [Punct (CHR '':''), Punct (CHR ''{'')]"
  using lexes_append [OF lexes_colon lexes_punct [of "CHR ''{''"]] by simp

lemma lexes_close: "lexes ''}'' [Punct (CHR ''}'')]" "lexes ''{'' [Punct (CHR ''{'')]" "lexes '','' [Punct (CHR '','')]"
  by (simp_all add: lexes_punct)

lemma lexes_entry:
  assumes "plain key" and "case v of None \<Rightarrow> True | Some s \<Rightarrow> plain s"
  shows "lexes (json_entry (key, v)) (entry_tokens (key, v))"
proof -
  have "lexes (case v of None \<Rightarrow> ''null'' | Some s \<Rightarrow> json_string s) [case v of None \<Rightarrow> Null | Some s \<Rightarrow> Str s]"
    using assms(2) by (cases v) (auto intro: lexes_null lexes_string)
  from lexes_append [OF lexes_line lexes_append [OF lexes_string [OF assms(1)] lexes_append [OF lexes_colon this]], of 3]
  show ?thesis by (simp add: json_entry_def)
qed

lemma lexes_entries:
  "\<forall>(key, v) \<in> set es. plain key \<and> (case v of None \<Rightarrow> True | Some v \<Rightarrow> plain v) \<Longrightarrow>
   lexes (strings_Join '','' (map json_entry es)) (entries_tokens es)"
proof (induction es rule: entries_tokens.induct)
  case (2 e)
  then show ?case using lexes_entry [of "fst e" "snd e"] by (simp add: case_prod_unfold del: entry_tokens.simps)
next
  case (3 e f es)
  have e: "lexes (json_entry e) (entry_tokens e)"
    using "3.prems" lexes_entry [of "fst e" "snd e"] by (simp add: case_prod_unfold del: entry_tokens.simps)
  have "lexes (strings_Join '','' (map json_entry (f # es))) (entries_tokens (f # es))" using 3 by simp
  from lexes_append [OF e lexes_append [OF lexes_close(3) this]] show ?case by simp
qed simp

lemma parse_entries_tokens: "es \<noteq> [] \<Longrightarrow> parse_entries (entries_tokens es @ Punct (CHR ''}'') # ts) = Some (es, ts)"
proof (induction es rule: entries_tokens.induct)
  case (2 e)
  then show ?case by (cases e; cases "snd e") auto
next
  case (3 e f es)
  then show ?case by (cases e; cases "snd e") auto
qed simp

lemma lexes_section:
  assumes "plain name" and "plain_entries es"
  shows "lexes (json_section name es) (open_object name @ entries_tokens es @ [Punct (CHR ''}'')])"
proof -
  have "lexes (strings_Join '','' (map json_entry es)) (entries_tokens es)"
    by (rule lexes_entries) (use assms(2) in \<open>simp add: plain_entries_def\<close>)
  from lexes_append [OF lexes_line lexes_append [OF lexes_string [OF assms(1)] lexes_append [OF lexes_open
        lexes_append [OF this lexes_append [OF lexes_line lexes_close(1)]]]], of 2 2]
  show ?thesis by (simp add: json_section_def open_object_def)
qed

lemma parse_section_tokens: "es \<noteq> [] \<Longrightarrow> parse_section name (open_object name @ entries_tokens es @ Punct (CHR ''}'') # ts) = Some (es, ts)"
  by (simp add: parse_section_def open_object_def parse_entries_tokens)

lemma plain_words: "plain ''metadata''" "plain ''labels''" "plain ''annotations''"
  by (simp_all add: plain_def plain_char_def byte_def)

lemma lexes_eof: "lexes s ts \<Longrightarrow> lex_json s = Some ts"
  unfolding lexes_def by (drule spec [of _ "[]"]) (simp add: lex_json.simps)

definition patch_tokens :: "ns_patch \<Rightarrow> token list" where
  "patch_tokens p =
     Punct (CHR ''{'') # open_object ''metadata'' @ open_object ''labels'' @ entries_tokens (patch_labels p) @ Punct (CHR ''}'') #
     (if patch_annotations p = [] then []
      else Punct (CHR '','') # open_object ''annotations'' @ entries_tokens (patch_annotations p) @ [Punct (CHR ''}'')]) @ closing"

lemma lex_patch:
  assumes "plain_entries (patch_labels p)" and "patch_annotations p = [] \<or> plain_entries (patch_annotations p)"
  shows "lex_json (patch_text p) = Some (patch_tokens p)"
proof -
  note labels = lexes_section [OF plain_words(2) assms(1)]
  have sections: "lexes (strings_Join '','' ([json_section ''labels'' (patch_labels p)] @
       (if patch_annotations p = [] then [] else [json_section ''annotations'' (patch_annotations p)])))
     (open_object ''labels'' @ entries_tokens (patch_labels p) @ Punct (CHR ''}'') #
      (if patch_annotations p = [] then []
       else Punct (CHR '','') # open_object ''annotations'' @ entries_tokens (patch_annotations p) @ [Punct (CHR ''}'')]))"
  proof (cases "patch_annotations p = []")
    case False
    then have "lexes (json_section ''annotations'' (patch_annotations p)) (open_object ''annotations'' @ entries_tokens (patch_annotations p) @ [Punct (CHR ''}'')])"
      using assms(2) by (intro lexes_section plain_words) simp
    from lexes_append [OF labels lexes_append [OF lexes_close(3) this]] False show ?thesis by simp
  qed (use labels in simp)
  have "lexes (patch_text p) (patch_tokens p)"
    using lexes_append [OF lexes_line [of 0] lexes_append [OF lexes_close(2) lexes_append [OF lexes_line [of 1]
        lexes_append [OF lexes_string [OF plain_words(1)] lexes_append [OF lexes_open lexes_append [OF sections
        lexes_append [OF lexes_line [of 1] lexes_append [OF lexes_close(1) lexes_append [OF lexes_line [of 0] lexes_close(1)]]]]]]]]]
    by (simp add: patch_text_def patch_tokens_def closing_def open_object_def)
  then show ?thesis by (rule lexes_eof)
qed

lemma parse_patch_text:
  assumes "plain_entries (patch_labels p)" and "patch_annotations p = [] \<or> plain_entries (patch_annotations p)"
  shows "parse_patch (patch_text p) = Some p"
proof -
  have "patch_labels p \<noteq> []" using assms(1) by (simp add: plain_entries_def)
  then have "parse_section ''labels'' (drop 4 (patch_tokens p)) = Some (patch_labels p,
      (if patch_annotations p = [] then []
      else Punct (CHR '','') # open_object ''annotations'' @ entries_tokens (patch_annotations p) @ [Punct (CHR ''}'')]) @ closing)"
    using parse_section_tokens [of "patch_labels p" "''labels''"] by (simp add: patch_tokens_def open_object_def)
  moreover have "take 4 (patch_tokens p) = Punct (CHR ''{'') # open_object ''metadata''" by (simp add: patch_tokens_def open_object_def)
  ultimately show ?thesis
    using parse_section_tokens [of "patch_annotations p" "''annotations''" closing]
    by (simp add: parse_patch_def lex_patch [OF assms] closing_def)
qed

section \<open>A cluster in memory\<close>

record memory_cluster =
  mem_namespaces :: "(string, ns_object) gomap"
  mem_deployments :: "Deployment list"
  mem_crds :: "string list"

definition selects :: "string \<Rightarrow> (string, string) gomap \<Rightarrow> bool" where
  "selects selector labels =
     (case split_on (CHR ''='') selector of
        [key, v] \<Rightarrow> gmap_get labels key = Some v
      | [key] \<Rightarrow> gmap_get labels key \<noteq> None
      | _ \<Rightarrow> False)"

definition patch_map :: "patch_entries \<Rightarrow> (string, string) gomap \<Rightarrow> (string, string) gomap" where
  "patch_map = fold (\<lambda>(key, v) m. case v of None \<Rightarrow> gmap_delete m key | Some v \<Rightarrow> gmap_put m key v)"

lemma gmap_get_patch_map: "gmap_get (patch_map es m) = apply_entries es (gmap_get m)"
proof (induction es arbitrary: m)
  case (Cons e es)
  have "gmap_get (case snd e of None \<Rightarrow> gmap_delete m (fst e) | Some v \<Rightarrow> gmap_put m (fst e) v) = (gmap_get m)(fst e := snd e)"
    by (auto split: option.splits)
  then show ?case using Cons by (simp add: patch_map_def apply_entries_def case_prod_unfold fun_upd_def)
qed (simp add: patch_map_def apply_entries_def)

definition patch_object :: "ns_patch \<Rightarrow> ns_object \<Rightarrow> ns_object" where
  "patch_object p ns = ns\<lparr>nso_Labels := patch_map (patch_labels p) (nso_Labels ns),
     nso_Annotations := patch_map (patch_annotations p) (nso_Annotations ns)\<rparr>"

definition memory_api :: "memory_cluster kube_api" where
  "memory_api =
     \<lparr>list_deployments = (\<lambda>n selector m. (filter (\<lambda>d. (n = [] \<or> dep_Namespace d = n) \<and> selects selector (dep_Labels d)) (mem_deployments m), None)),
      get_namespace = (\<lambda>n m. case gmap_get (mem_namespaces m) n of None \<Rightarrow> Inl NotFound | Some ns \<Rightarrow> Inr ns),
      list_namespaces = (\<lambda>selector m. Inr (map (\<lambda>(n, ns). ns\<lparr>nso_Name := n\<rparr>)
        (filter (\<lambda>(n, ns). gmap_get (mem_namespaces m) n = Some ns \<and> selects selector (nso_Labels ns)) (entries (mem_namespaces m))))),
      patch_namespace = (\<lambda>n text m.
        case parse_patch text of
          None \<Rightarrow> (Some (ApiFailure ''invalid patch''), m)
        | Some p \<Rightarrow> (case gmap_get (mem_namespaces m) n of
              None \<Rightarrow> (Some NotFound, m)
            | Some ns \<Rightarrow> (None, m\<lparr>mem_namespaces := gmap_put (mem_namespaces m) n (patch_object p ns)\<rparr>))),
      delete_namespace = (\<lambda>n m. if gmap_get (mem_namespaces m) n = None then (Some NotFound, m)
        else (None, m\<lparr>mem_namespaces := gmap_delete (mem_namespaces m) n\<rparr>)),
      delete_crd = (\<lambda>n m. if n \<in> set (mem_crds m) then (None, m\<lparr>mem_crds := removeAll n (mem_crds m)\<rparr>) else (Some NotFound, m))\<rparr>"

lemma plain_no_equals: "plain s \<Longrightarrow> CHR ''='' \<notin> set s"
  by (auto simp: plain_def list_all_iff plain_char_def is_digit_def byte_def)

lemma selects_equals: "plain key \<Longrightarrow> plain v \<Longrightarrow> selects (equals_selector key v) labels \<longleftrightarrow> gmap_get labels key = Some v"
  by (simp add: selects_def equals_selector_def split_on_append split_on_notin plain_no_equals)

lemma memory_list_namespaces:
  assumes "plain key" and "plain v" and "list_namespaces memory_api (equals_selector key v) m = Inr nl"
  shows "set (map nso_Name nl) = {n. \<exists>ns. gmap_get (mem_namespaces m) n = Some ns \<and> gmap_get (nso_Labels ns) key = Some v}"
proof -
  have "gmap_get (mem_namespaces m) n = Some ns \<Longrightarrow> (n, ns) \<in> set (entries (mem_namespaces m))" for n ns
    by (rule gmap_get_in)
  then show ?thesis using assms by (force simp: memory_api_def selects_equals)
qed

lemma memory_api_contract: "api_contract memory_api (\<lambda>m. gmap_get (mem_namespaces m)) mem_deployments"
  unfolding api_contract_def
proof (intro conjI)
  show "\<forall>key v k nl. plain key \<longrightarrow> plain v \<longrightarrow> list_namespaces memory_api (equals_selector key v) k = Inr nl \<longrightarrow>
      set (map nso_Name nl) = {n. \<exists>ns. gmap_get (mem_namespaces k) n = Some ns \<and> gmap_get (nso_Labels ns) key = Some v}"
    by (intro allI impI memory_list_namespaces)
qed (auto simp: memory_api_def selects_equals parse_patch_text ns_same_def patch_object_def gmap_get_patch_map split: option.splits if_splits)

end
