(* ===== verification/Namespaces.thy ===== *)
theory Namespaces
  imports KubeApi
begin

text \<open>
  \<open>cmd/ecnet/cli/namespace_*.go\<close>: the commands that add namespaces to a mesh, remove them, let them be ignored, and
  list them. A command returns its error, what it printed, and the state of the API server. The
  wiring of flags and the layout of tables by \<open>tabwriter\<close> are left out.
\<close>

section \<open>The commands\<close>

text \<open>An error is its message and the error it wraps.\<close>

datatype cli_error = CliError string "api_error option"

type_synonym 'k cli_result = "cli_error option \<times> string list \<times> 'k"

definition say :: "string \<Rightarrow> 'k cli_result \<Rightarrow> 'k cli_result" where
  "say s r = (fst r, s # fst (snd r), snd (snd r))"

abbreviation fails :: "string \<Rightarrow> api_error option \<Rightarrow> 'k \<Rightarrow> 'k cli_result" where
  "fails msg e k \<equiv> (Some (CliError msg e), [], k)"

definition trueValue :: string where "trueValue = ''true''"

definition meshExists :: "'k kube_api \<Rightarrow> string \<Rightarrow> 'k \<Rightarrow> cli_error + bool" where
  "meshExists api ecnetName k =
     (case list_deployments api [] (equals_selector ''ecnetName'' ecnetName) k of
        (_, Some e) \<Rightarrow> Inl (CliError (''Cannot obtain information about the mesh ['' @ ecnetName @ '']'') (Some e))
      | (ds, None) \<Rightarrow> Inr (length ds \<noteq> 0))"

definition add_patch :: "string \<Rightarrow> bool \<Rightarrow> ns_patch" where
  "add_patch ecnetName disableSidecarInjection =
     \<lparr>patch_labels = [(ECNETKubeResourceMonitorAnnotation, Some ecnetName)],
      patch_annotations = [(SidecarInjectionAnnotation, Some (if disableSidecarInjection then ''disabled'' else ''enabled''))]\<rparr>"

fun namespaceAdd_run :: "'k kube_api \<Rightarrow> string \<Rightarrow> bool \<Rightarrow> string list \<Rightarrow> 'k \<Rightarrow> 'k cli_result" where
  "namespaceAdd_run api ecnetName disableSidecarInjection [] k = (None, [], k)"
| "namespaceAdd_run api ecnetName disableSidecarInjection (ns # namespaces) k =
     (case meshExists api ecnetName k of
        Inl (CliError msg e) \<Rightarrow> fails msg e k
      | Inr exists \<Rightarrow>
          if \<not> exists then
            fails (''ecnet ['' @ ecnetName @ ''] does not exist, please specify another ecnet using --ecnet-name or create a new ecnet'') None k
          else if length (fst (list_deployments api ns (equals_selector AppLabel ECNETControllerName) k)) \<noteq> 0 then
            say (''Namespace ['' @ ns @ ''] already has ['' @ ECNETControllerName @ ''] installed and cannot be added to ecnet ['' @ ecnetName @ '']'')
              (namespaceAdd_run api ecnetName disableSidecarInjection namespaces k)
          else case get_namespace api ns k of
            Inl e \<Rightarrow> fails (''Could not add namespace ['' @ ns @ ''] to ecnet ['' @ ecnetName @ '']'') (Some e) k
          | Inr namespace \<Rightarrow>
              if ecnetName = label (nso_Labels namespace) ECNETKubeResourceMonitorAnnotation then
                say (''Namespace ['' @ ns @ ''] has already been added to ecnet ['' @ ecnetName @ '']'')
                  (namespaceAdd_run api ecnetName disableSidecarInjection namespaces k)
              else if gmap_get (nso_Labels namespace) IgnoreLabel = Some trueValue then fails ''Cannot add ignored namespace'' None k
              else case patch_namespace api ns (patch_text (add_patch ecnetName disableSidecarInjection)) k of
                (Some e, k) \<Rightarrow> fails (''Could not add namespace ['' @ ns @ ''] to ecnet ['' @ ecnetName @ '']'') (Some e) k
              | (None, k) \<Rightarrow>
                  say (''Namespace ['' @ ns @ ''] successfully added to ecnet ['' @ ecnetName @ '']'')
                    (namespaceAdd_run api ecnetName disableSidecarInjection namespaces k))"

definition remove_patch :: ns_patch where
  "remove_patch = \<lparr>patch_labels = [(ECNETKubeResourceMonitorAnnotation, None), (IgnoreLabel, None)],
     patch_annotations = [(SidecarInjectionAnnotation, None), (MetricsAnnotation, None)]\<rparr>"

definition namespaceRemove_run :: "'k kube_api \<Rightarrow> string \<Rightarrow> string \<Rightarrow> 'k \<Rightarrow> 'k cli_result" where
  "namespaceRemove_run api ecnetName ns k =
     (case get_namespace api ns k of
        Inl e \<Rightarrow> fails (''Could not get namespace ['' @ ns @ '']'') (Some e) k
      | Inr namespace \<Rightarrow>
          (case gmap_get (nso_Labels namespace) ECNETKubeResourceMonitorAnnotation of
             None \<Rightarrow> say (''Namespace ['' @ ns @ ''] already does not belong to any ecnet'') (None, [], k)
           | Some val \<Rightarrow>
               if val = ecnetName then
                 (case patch_namespace api ns (patch_text remove_patch) k of
                    (Some e, k) \<Rightarrow> fails (''Could not remove namespace ['' @ ns @ ''] from ecnet ['' @ ecnetName @ '']'') (Some e) k
                  | (None, k) \<Rightarrow> say (''Namespace ['' @ ns @ ''] successfully removed from ecnet ['' @ ecnetName @ '']'') (None, [], k))
               else fails (''Namespace belongs to ecnet ['' @ val @ ''], not ecnet ['' @ ecnetName @ '']. Please specify the correct ecnet'') None k))"

definition ignore_patch :: ns_patch where
  "ignore_patch = \<lparr>patch_labels = [(IgnoreLabel, Some ''true'')], patch_annotations = []\<rparr>"

text \<open>\<open>strings.TrimSpace\<close>, for ASCII.\<close>

definition is_space :: "char \<Rightarrow> bool" where
  "is_space c \<longleftrightarrow> 9 \<le> byte c \<and> byte c \<le> 13 \<or> byte c = 32"

definition trim_space :: "string \<Rightarrow> string" where
  "trim_space s = rev (dropWhile is_space (rev (dropWhile is_space s)))"

fun namespaceIgnore_run :: "'k kube_api \<Rightarrow> string list \<Rightarrow> 'k \<Rightarrow> 'k cli_result" where
  "namespaceIgnore_run api [] k = (None, [], k)"
| "namespaceIgnore_run api (n # namespaces) k =
     (let ns = trim_space n in
      case get_namespace api ns k of
        Inl e \<Rightarrow> fails (''Failed to retrieve namespace ['' @ ns @ '']'') (Some e) k
      | Inr _ \<Rightarrow>
          (case patch_namespace api ns (patch_text ignore_patch) k of
             (Some e, k) \<Rightarrow> fails (''Failed to configure namespace ['' @ ns @ ''] to be ignored'') (Some e) k
           | (None, k) \<Rightarrow> say (''Successfully configured namespace ['' @ ns @ ''] to be ignored'') (namespaceIgnore_run api namespaces k)))"

definition selectNamespacesMonitoredByEcnet :: "'k kube_api \<Rightarrow> string \<Rightarrow> 'k \<Rightarrow> api_error + ns_object list" where
  "selectNamespacesMonitoredByEcnet api ecnetName k =
     list_namespaces api (if ecnetName \<noteq> [] then equals_selector ECNETKubeResourceMonitorAnnotation ecnetName
       else ECNETKubeResourceMonitorAnnotation) k"

definition namespace_row :: "ns_object \<Rightarrow> string list" where
  "namespace_row ns =
     (let ecnetName = label (nso_Labels ns) ECNETKubeResourceMonitorAnnotation;
          sidecarInjectionEnabled = (case gmap_get (nso_Annotations ns) SidecarInjectionAnnotation of None \<Rightarrow> ''-'' | Some v \<Rightarrow> v);
          sidecarInjectionEnabled = (if gmap_get (nso_Labels ns) IgnoreLabel \<noteq> None then ''disabled (ignored)'' else sidecarInjectionEnabled)
      in [nso_Name ns, ecnetName, sidecarInjectionEnabled])"

text \<open>The rows of the table, below its heading; a message instead when there is none.\<close>

definition namespaceList_run :: "'k kube_api \<Rightarrow> string \<Rightarrow> 'k \<Rightarrow> cli_error + string list list" where
  "namespaceList_run api ecnetName k =
     (case selectNamespacesMonitoredByEcnet api ecnetName k of
        Inl e \<Rightarrow> Inl (CliError (''Could not list namespaces related to ecnet ['' @ ecnetName @ '']'') (Some e))
      | Inr items \<Rightarrow>
          if length items = 0 then
            Inr [[if ecnetName \<noteq> [] then ''No namespaces in ecnet ['' @ ecnetName @ '']'' else ''No namespaces in any ecnet'']]
          else Inr ([''NAMESPACE'', ''ECNET'', ''SIDECAR-INJECTION''] # map namespace_row items))"

section \<open>Members of a mesh\<close>

definition member :: "('k \<Rightarrow> string \<Rightarrow> ns_object option) \<Rightarrow> 'k \<Rightarrow> string \<Rightarrow> string \<Rightarrow> bool" where
  "member nss k mesh n \<longleftrightarrow> (\<exists>ns. nss k n = Some ns \<and> gmap_get (nso_Labels ns) ECNETKubeResourceMonitorAnnotation = Some mesh)"

text \<open>The namespace has a control plane of its own.\<close>

definition controlled :: "('k \<Rightarrow> Deployment list) \<Rightarrow> 'k \<Rightarrow> string \<Rightarrow> bool" where
  "controlled deps k n \<longleftrightarrow> (\<exists>d \<in> set (deps k). dep_Namespace d = n \<and> gmap_get (dep_Labels d) AppLabel = Some ECNETControllerName)"

definition ignored :: "('k \<Rightarrow> string \<Rightarrow> ns_object option) \<Rightarrow> 'k \<Rightarrow> string \<Rightarrow> bool" where
  "ignored nss k n \<longleftrightarrow> (\<exists>ns. nss k n = Some ns \<and> gmap_get (nso_Labels ns) IgnoreLabel = Some ''true'')"

lemmas label_keys = ECNETKubeResourceMonitorAnnotation_def IgnoreLabel_def SidecarInjectionAnnotation_def MetricsAnnotation_def AppLabel_def
  ECNETControllerName_def

lemma plain_keys [simp]:
  "plain ECNETKubeResourceMonitorAnnotation" "plain IgnoreLabel" "plain SidecarInjectionAnnotation" "plain MetricsAnnotation"
  "plain AppLabel" "plain ECNETControllerName" "plain ''ecnetName''" "plain ''enabled''" "plain ''disabled''" "plain ''true''"
  by code_simp+

lemma distinct_keys [simp]:
  "ECNETKubeResourceMonitorAnnotation \<noteq> IgnoreLabel" "IgnoreLabel \<noteq> ECNETKubeResourceMonitorAnnotation"
  "SidecarInjectionAnnotation \<noteq> MetricsAnnotation" "MetricsAnnotation \<noteq> SidecarInjectionAnnotation"
  by (simp_all add: label_keys)

lemma list_law:
  assumes "api_contract api nss deps" and "list_deployments api n (equals_selector key v) k = (ds, None)" and "plain key" and "plain v"
  shows "set ds = {d \<in> set (deps k). (n = [] \<or> dep_Namespace d = n) \<and> gmap_get (dep_Labels d) key = Some v}"
  using conjunct1 [OF assms(1) [unfolded api_contract_def]] assms(2-4) by blast

lemma failed_list_law:
  assumes "api_contract api nss deps" and "list_deployments api n selector k = (ds, Some e)"
  shows "ds = []"
  using conjunct1 [OF conjunct2 [OF assms(1) [unfolded api_contract_def]]] assms(2) by blast

lemma get_law:
  assumes "api_contract api nss deps" and "get_namespace api n k = Inr ns"
  shows "\<exists>ns'. nss k n = Some ns' \<and> ns_same ns ns'"
  using conjunct1 [OF conjunct2 [OF conjunct2 [OF assms(1) [unfolded api_contract_def]]]] assms(2) by blast

lemma list_namespaces_law:
  assumes "api_contract api nss deps" and "list_namespaces api (equals_selector key v) k = Inr nl" and "plain key" and "plain v"
  shows "set (map nso_Name nl) = {n. \<exists>ns. nss k n = Some ns \<and> gmap_get (nso_Labels ns) key = Some v}"
  using conjunct1 [OF conjunct2 [OF conjunct2 [OF conjunct2 [OF assms(1) [unfolded api_contract_def]]]]] assms(2-4) by blast

text \<open>The state after a patch of the namespace \<open>n\<close>.\<close>

definition patched :: "('k \<Rightarrow> string \<Rightarrow> ns_object option) \<Rightarrow> ('k \<Rightarrow> Deployment list) \<Rightarrow> ns_patch \<Rightarrow> string \<Rightarrow> 'k \<Rightarrow> 'k \<Rightarrow> bool" where
  "patched nss deps p n k k' \<longleftrightarrow> deps k' = deps k \<and> (\<forall>m. m \<noteq> n \<longrightarrow> nss k' m = nss k m) \<and>
     (\<exists>a b. nss k n = Some a \<and> nss k' n = Some b \<and>
        gmap_get (nso_Labels b) = apply_entries (patch_labels p) (gmap_get (nso_Labels a)) \<and>
        gmap_get (nso_Annotations b) = apply_entries (patch_annotations p) (gmap_get (nso_Annotations a)))"

lemma patch_law:
  assumes "api_contract api nss deps" and "patch_namespace api n (patch_text p) k = (r, k')"
    and "plain_entries (patch_labels p)" and "patch_annotations p = [] \<or> plain_entries (patch_annotations p)"
  shows "if r = None then patched nss deps p n k k' else deps k' = deps k \<and> nss k' = nss k"
proof -
  have law: "deps k' = deps k \<and> (\<forall>m. m \<noteq> n \<longrightarrow> nss k' m = nss k m) \<and>
        (if r = None then \<exists>a b. nss k n = Some a \<and> nss k' n = Some b \<and>
             gmap_get (nso_Labels b) = apply_entries (patch_labels p) (gmap_get (nso_Labels a)) \<and>
             gmap_get (nso_Annotations b) = apply_entries (patch_annotations p) (gmap_get (nso_Annotations a))
         else nss k' n = nss k n)"
    using conjunct2 [OF conjunct2 [OF conjunct2 [OF conjunct2 [OF assms(1) [unfolded api_contract_def]]]]] assms(2-4) by blast
  show ?thesis
  proof (cases "r = None")
    case False
    with law have "nss k' m = nss k m" for m by (cases "m = n") simp_all
    with False law show ?thesis by auto
  qed (use law in \<open>simp add: patched_def\<close>)
qed

lemma plain_patches [simp]:
  "plain name \<Longrightarrow> plain_entries (patch_labels (add_patch name dis))" "plain_entries (patch_annotations (add_patch name dis))"
  "plain_entries (patch_labels remove_patch)" "plain_entries (patch_annotations remove_patch)"
  "plain_entries (patch_labels ignore_patch)" "patch_annotations ignore_patch = []"
  by (simp_all add: plain_entries_def add_patch_def remove_patch_def ignore_patch_def)

lemma add_law:
  assumes "api_contract api nss deps" and "plain name" and "patch_namespace api n (patch_text (add_patch name dis)) k = (r, k')"
  shows "if r = None then patched nss deps (add_patch name dis) n k k' else deps k' = deps k \<and> nss k' = nss k"
  by (rule patch_law [OF assms(1,3)]) (simp_all add: assms(2))

lemma patched_member: "patched nss deps (add_patch name dis) n k k' \<Longrightarrow> member nss k' name n"
  by (auto simp: patched_def member_def add_patch_def apply_entries_def)

lemma member_if_labelled:
  assumes "api_contract api nss deps" and "get_namespace api n k = Inr ns" and "name \<noteq> []"
    and "name = label (nso_Labels ns) ECNETKubeResourceMonitorAnnotation"
  shows "member nss k name n"
  using get_law [OF assms(1,2)] assms(3,4) by (auto simp: member_def ns_same_def label_def split: option.splits)

lemma controlled_if_listed:
  assumes "api_contract api nss deps" and "fst (list_deployments api n (equals_selector AppLabel ECNETControllerName) k) \<noteq> []"
  shows "controlled deps k n \<or> n = []"
proof -
  obtain ds e where l: "list_deployments api n (equals_selector AppLabel ECNETControllerName) k = (ds, e)" by fastforce
  then have "e = None" using assms(2) failed_list_law [OF assms(1)] by (cases e) auto
  with l have "set ds = {d \<in> set (deps k). (n = [] \<or> dep_Namespace d = n) \<and> gmap_get (dep_Labels d) AppLabel = Some ECNETControllerName}"
    by (intro list_law [OF assms(1)]) simp_all
  moreover obtain d where "d \<in> set ds" using assms(2) l by (cases ds) auto
  ultimately show ?thesis unfolding controlled_def by blast
qed

text \<open>One step of adding: it ends the command and changes nothing, or goes on.\<close>

lemma add_cases:
  assumes "api_contract api nss deps" and "plain name" and "name \<noteq> []" and "n \<noteq> []"
  obtains (stops) msg e k1 where "namespaceAdd_run api name dis (n # rest) k = fails msg e k1" "deps k1 = deps k" "nss k1 = nss k"
  | (skips) msg where "namespaceAdd_run api name dis (n # rest) k = say msg (namespaceAdd_run api name dis rest k)" "controlled deps k n"
  | (joins) msg k1 where "namespaceAdd_run api name dis (n # rest) k = say msg (namespaceAdd_run api name dis rest k1)"
      "deps k1 = deps k" "\<forall>m. m \<noteq> n \<longrightarrow> nss k1 m = nss k m" "member nss k1 name n"
proof (cases "meshExists api name k")
  case (Inl err)
  then show ?thesis using stops [of _ _ k] by (cases err) simp
next
  case exists: (Inr b)
  show ?thesis
  proof (cases "b \<and> fst (list_deployments api n (equals_selector AppLabel ECNETControllerName) k) = []")
    case False
    then consider "\<not> b" | "b" "fst (list_deployments api n (equals_selector AppLabel ECNETControllerName) k) \<noteq> []" by blast
    then show ?thesis
    proof cases
      case 1
      then show ?thesis using exists stops [of _ _ k] by simp
    next
      case 2
      then show ?thesis using exists skips controlled_if_listed [OF assms(1) 2(2)] assms(4) by simp
    qed
  next
    case listed: True
    show ?thesis
    proof (cases "get_namespace api n k")
      case (Inl e)
      then show ?thesis using exists listed stops [of _ _ k] by simp
    next
      case (Inr ns)
      consider (already) "name = label (nso_Labels ns) ECNETKubeResourceMonitorAnnotation"
        | (ignored) "name \<noteq> label (nso_Labels ns) ECNETKubeResourceMonitorAnnotation" "gmap_get (nso_Labels ns) IgnoreLabel = Some trueValue"
        | (patches) "name \<noteq> label (nso_Labels ns) ECNETKubeResourceMonitorAnnotation" "gmap_get (nso_Labels ns) IgnoreLabel \<noteq> Some trueValue" by blast
      then show ?thesis
      proof cases
        case already
        then show ?thesis using exists listed Inr joins [of _ k] member_if_labelled [OF assms(1) Inr assms(3)] by simp
      next
        case ignored
        then show ?thesis using exists listed Inr stops [of _ _ k] by simp
      next
        case patches
        obtain r k1 where p: "patch_namespace api n (patch_text (add_patch name dis)) k = (r, k1)" by fastforce
        note law = add_law [OF assms(1,2) p]
        show ?thesis
        proof (cases r)
          case None
          with law have "patched nss deps (add_patch name dis) n k k1" by simp
          then have "deps k1 = deps k" "\<forall>m. m \<noteq> n \<longrightarrow> nss k1 m = nss k m" "member nss k1 name n"
            using patched_member [of nss deps name dis n k k1] by (simp_all add: patched_def)
          then show ?thesis using None exists listed Inr patches p joins [of _ k1] by simp
        next
          case (Some e)
          with law have "deps k1 = deps k" "nss k1 = nss k" by simp_all
          then show ?thesis using Some exists listed Inr patches p stops [of _ _ k1] by simp
        qed
      qed
    qed
  qed
qed

lemma member_frame: "\<forall>m. m \<noteq> n \<longrightarrow> nss k1 m = nss k m \<Longrightarrow> member nss k1 name n \<Longrightarrow> member nss k name m \<Longrightarrow> member nss k1 name m"
  by (cases "m = n") (simp_all add: member_def)

lemma add_keeps:
  assumes "api_contract api nss deps" and "plain name" and "name \<noteq> []" and "[] \<notin> set namespaces"
    and "namespaceAdd_run api name dis namespaces k = (err, out, k')"
  shows "deps k' = deps k \<and> (\<forall>m. m \<notin> set namespaces \<longrightarrow> nss k' m = nss k m) \<and> (\<forall>m. member nss k name m \<longrightarrow> member nss k' name m)"
  using assms(4,5)
proof (induction namespaces arbitrary: k out)
  case (Cons n rest)
  have "n \<noteq> []" using Cons.prems(1) by auto
  with assms(1-3) show ?case
  proof (cases rule: add_cases [where dis = dis and rest = rest and k = k])
    case (stops msg e k1)
    with Cons.prems(2) show ?thesis by (simp add: member_def)
  next
    case (skips msg)
    with Cons.prems have "namespaceAdd_run api name dis rest k = (err, fst (snd (namespaceAdd_run api name dis rest k)), k')"
      by (simp add: say_def prod_eq_iff)
    with Cons.IH Cons.prems(1) show ?thesis by auto
  next
    case (joins msg k1)
    with Cons.prems have "namespaceAdd_run api name dis rest k1 = (err, fst (snd (namespaceAdd_run api name dis rest k1)), k')"
      by (simp add: say_def prod_eq_iff)
    from Cons.IH [OF _ this] Cons.prems(1) joins(2,3) member_frame [OF joins(3,4)] show ?thesis by auto
  qed
qed simp

lemma add_joins_all:
  assumes "api_contract api nss deps" and "plain name" and "name \<noteq> []" and "[] \<notin> set namespaces"
    and "namespaceAdd_run api name dis namespaces k = (None, out, k')" and "n \<in> set namespaces"
  shows "controlled deps k n \<or> member nss k' name n"
  using assms(4-6)
proof (induction namespaces arbitrary: k out)
  case (Cons m rest)
  have m: "m \<noteq> []" and rest: "[] \<notin> set rest" using Cons.prems(1) by auto
  from assms(1-3) m show ?case
  proof (cases rule: add_cases [where dis = dis and rest = rest and k = k])
    case (stops msg e k1)
    with Cons.prems(2) show ?thesis by simp
  next
    case (skips msg)
    with Cons.prems have "namespaceAdd_run api name dis rest k = (None, fst (snd (namespaceAdd_run api name dis rest k)), k')"
      by (simp add: say_def prod_eq_iff)
    with Cons.IH [OF rest this] skips(2) Cons.prems(3) show ?thesis by auto
  next
    case (joins msg k1)
    with Cons.prems have run: "namespaceAdd_run api name dis rest k1 = (None, fst (snd (namespaceAdd_run api name dis rest k1)), k')"
      by (simp add: say_def prod_eq_iff)
    from Cons.IH [OF rest run] add_keeps [OF assms(1-3) rest run] joins(2,4) Cons.prems(3) show ?thesis by (auto simp: controlled_def)
  qed
qed simp

text \<open>Adding namespaces: when the command succeeds, every namespace that it was given is listed as a member of the mesh, except those
  with a control plane of their own. No other namespace and no deployment is changed.\<close>

theorem namespace_add_joins:
  assumes "api_contract api nss deps" and "plain ecnetName" and "ecnetName \<noteq> []" and "[] \<notin> set namespaces"
    and "namespaceAdd_run api ecnetName disableSidecarInjection namespaces k = (None, out, k')"
    and "selectNamespacesMonitoredByEcnet api ecnetName k' = Inr items"
  shows "(\<forall>n \<in> set namespaces. controlled deps k n \<or> n \<in> set (map nso_Name items)) \<and>
     (\<forall>m. m \<notin> set namespaces \<longrightarrow> nss k' m = nss k m) \<and> deps k' = deps k"
proof -
  have "list_namespaces api (equals_selector ECNETKubeResourceMonitorAnnotation ecnetName) k' = Inr items"
    using assms(3,6) by (simp add: selectNamespacesMonitoredByEcnet_def)
  then have "set (map nso_Name items) = {n. member nss k' ecnetName n}"
    unfolding member_def by (rule list_namespaces_law [OF assms(1)]) (simp_all add: assms(2))
  then show ?thesis using add_joins_all [OF assms(1-5)] add_keeps [OF assms(1-5)] by blast
qed

lemma remove_member:
  assumes "api_contract api nss deps" and "member nss k name n" and "namespaceRemove_run api name n k = (None, out, k')"
  shows "patch_namespace api n (patch_text remove_patch) k = (None, k')"
proof -
  obtain ns where ns: "get_namespace api n k = Inr ns" using assms(3) by (cases "get_namespace api n k") (simp_all add: namespaceRemove_run_def)
  with get_law [OF assms(1) ns] assms(2) have "gmap_get (nso_Labels ns) ECNETKubeResourceMonitorAnnotation = Some name"
    by (auto simp: member_def ns_same_def)
  with ns assms(3) show ?thesis by (auto simp: namespaceRemove_run_def say_def split: prod.splits option.splits)
qed

text \<open>Adding a namespace and removing it again leaves it as it was, without the mesh's labels and annotations: every other
  label and annotation keeps its value, and other namespaces are not changed. (A label that made the namespace be ignored and the annotation for metrics are
  removed too.)\<close>

theorem namespace_add_remove:
  assumes "api_contract api nss deps" and "plain ecnetName" and "ecnetName \<noteq> []" and "n \<noteq> []" and "\<not> controlled deps k n"
    and "namespaceAdd_run api ecnetName disableSidecarInjection [n] k = (None, out, k1)"
    and "namespaceRemove_run api ecnetName n k1 = (None, out', k2)"
  shows "\<exists>a b. nss k n = Some a \<and> nss k2 n = Some b \<and>
     gmap_get (nso_Labels b) = (gmap_get (nso_Labels a))(ECNETKubeResourceMonitorAnnotation := None, IgnoreLabel := None) \<and>
     gmap_get (nso_Annotations b) = (gmap_get (nso_Annotations a))(SidecarInjectionAnnotation := None, MetricsAnnotation := None) \<and>
     (\<forall>m. m \<noteq> n \<longrightarrow> nss k2 m = nss k m)"
proof -
  have "member nss k1 ecnetName n" using add_joins_all [OF assms(1-3) _ assms(6)] assms(4,5) by simp
  from remove_member [OF assms(1) this assms(7)] have p2: "patch_namespace api n (patch_text remove_patch) k1 = (None, k2)" .
  obtain b1 b where b: "nss k1 n = Some b1" "nss k2 n = Some b"
      "gmap_get (nso_Labels b) = apply_entries (patch_labels remove_patch) (gmap_get (nso_Labels b1))"
      "gmap_get (nso_Annotations b) = apply_entries (patch_annotations remove_patch) (gmap_get (nso_Annotations b1))"
      "\<forall>m. m \<noteq> n \<longrightarrow> nss k2 m = nss k1 m"
    using patch_law [OF assms(1) p2] by (auto simp: patched_def)
  have "k1 = k \<or> patch_namespace api n (patch_text (add_patch ecnetName disableSidecarInjection)) k = (None, k1)"
    using assms(6) by (auto simp: say_def split: sum.splits cli_error.splits if_splits prod.splits option.splits)
  then have "\<exists>a. nss k n = Some a \<and> (gmap_get (nso_Labels b1))(ECNETKubeResourceMonitorAnnotation := None) = (gmap_get (nso_Labels a))(ECNETKubeResourceMonitorAnnotation := None) \<and>
      (gmap_get (nso_Annotations b1))(SidecarInjectionAnnotation := None) = (gmap_get (nso_Annotations a))(SidecarInjectionAnnotation := None) \<and>
      (\<forall>m. m \<noteq> n \<longrightarrow> nss k1 m = nss k m)"
  proof
    assume p1: "patch_namespace api n (patch_text (add_patch ecnetName disableSidecarInjection)) k = (None, k1)"
    show ?thesis using add_law [OF assms(1,2) p1] b(1) by (auto simp: patched_def add_patch_def apply_entries_def)
  qed (use b(1) in simp)
  then obtain a where a: "nss k n = Some a" "(gmap_get (nso_Labels b1))(ECNETKubeResourceMonitorAnnotation := None) = (gmap_get (nso_Labels a))(ECNETKubeResourceMonitorAnnotation := None)"
      "(gmap_get (nso_Annotations b1))(SidecarInjectionAnnotation := None) = (gmap_get (nso_Annotations a))(SidecarInjectionAnnotation := None)"
      "\<forall>m. m \<noteq> n \<longrightarrow> nss k1 m = nss k m" by blast
  show ?thesis
    by (intro exI conjI) (use a b in \<open>simp_all add: remove_patch_def apply_entries_def\<close>)
qed

section \<open>A cluster with a mesh\<close>

definition sample_mesh :: memory_cluster where
  "sample_mesh =
     \<lparr>mem_namespaces = gmap_put (gmap_put (gmap_put gmap_empty ''shop'' \<lparr>nso_Name = ''shop'', nso_Labels = gmap_put gmap_empty ''team'' ''a'', nso_Annotations = gmap_empty\<rparr>)
         ''ecnet-system'' \<lparr>nso_Name = ''ecnet-system'', nso_Labels = gmap_empty, nso_Annotations = gmap_empty\<rparr>)
         ''old'' \<lparr>nso_Name = ''old'', nso_Labels = gmap_put gmap_empty ''flomesh.io/ignore'' ''true'', nso_Annotations = gmap_empty\<rparr>,
      mem_deployments = [\<lparr>dep_Namespace = ''ecnet-system'',
         dep_Labels = gmap_put (gmap_put (gmap_put gmap_empty ''app'' ''ecnet-ctrlplane'') ''ecnetName'' ''ecnet'') ''enforceSingleEcnet'' ''true''\<rparr>],
      mem_crds = [''ecnetconfigs.config.flomesh.io'']\<rparr>"

abbreviation memory_nss :: "memory_cluster \<Rightarrow> string \<Rightarrow> ns_object option" where
  "memory_nss m \<equiv> gmap_get (mem_namespaces m)"

lemma sample_mesh_facts:
  "plain ''ecnet''"
  "case namespaceAdd_run memory_api ''ecnet'' False [''shop'', ''ecnet-system''] sample_mesh of (err, _, k) \<Rightarrow> err = None \<and>
     (case selectNamespacesMonitoredByEcnet memory_api ''ecnet'' k of Inl _ \<Rightarrow> False | Inr items \<Rightarrow> map nso_Name items = [''shop''])"
  "case namespaceAdd_run memory_api ''ecnet'' False [''shop''] sample_mesh of (err, _, k) \<Rightarrow> err = None \<and>
     fst (namespaceRemove_run memory_api ''ecnet'' ''shop'' k) = None"
  "list_all (\<lambda>d. dep_Namespace d \<noteq> ''shop'') (mem_deployments sample_mesh)"
  by code_simp+

theorem namespace_add_joins_witness:
  "\<exists>out k' items. namespaceAdd_run memory_api ''ecnet'' False [''shop'', ''ecnet-system''] sample_mesh = (None, out, k') \<and>
     selectNamespacesMonitoredByEcnet memory_api ''ecnet'' k' = Inr items \<and> ''shop'' \<in> set (map nso_Name items) \<and>
     memory_nss k' ''old'' = memory_nss sample_mesh ''old''"
proof -
  obtain err out k' where run: "namespaceAdd_run memory_api ''ecnet'' False [''shop'', ''ecnet-system''] sample_mesh = (err, out, k')"
    by (rule prod_cases3)
  from sample_mesh_facts(2) [unfolded run prod.case] obtain items where err: "err = None"
    and items: "selectNamespacesMonitoredByEcnet memory_api ''ecnet'' k' = Inr items"
    by (auto split: sum.splits)
  have "\<not> controlled mem_deployments sample_mesh ''shop''" using sample_mesh_facts(4) by (auto simp: controlled_def list_all_iff)
  with namespace_add_joins [OF memory_api_contract sample_mesh_facts(1) _ _ run [unfolded err] items]
  have "''shop'' \<in> set (map nso_Name items)" "memory_nss k' ''old'' = memory_nss sample_mesh ''old''" by simp_all
  with run [unfolded err] items show ?thesis by blast
qed

theorem namespace_add_remove_witness:
  "\<exists>out k1 out' k2 b. namespaceAdd_run memory_api ''ecnet'' False [''shop''] sample_mesh = (None, out, k1) \<and>
     namespaceRemove_run memory_api ''ecnet'' ''shop'' k1 = (None, out', k2) \<and> memory_nss k2 ''shop'' = Some b \<and>
     gmap_get (nso_Labels b) ECNETKubeResourceMonitorAnnotation = None"
proof -
  obtain err out k1 where run: "namespaceAdd_run memory_api ''ecnet'' False [''shop''] sample_mesh = (err, out, k1)"
    by (rule prod_cases3)
  have err: "err = None" and removed: "fst (namespaceRemove_run memory_api ''ecnet'' ''shop'' k1) = None"
    using sample_mesh_facts(3) [unfolded run prod.case] by blast+
  obtain err' out' k2 where run': "namespaceRemove_run memory_api ''ecnet'' ''shop'' k1 = (err', out', k2)" by (rule prod_cases3)
  with removed have err': "err' = None" by simp
  have "\<not> controlled mem_deployments sample_mesh ''shop''" using sample_mesh_facts(4) by (auto simp: controlled_def list_all_iff)
  from namespace_add_remove [OF memory_api_contract sample_mesh_facts(1) _ _ this run [unfolded err] run' [unfolded err']]
  obtain b where "memory_nss k2 ''shop'' = Some b" "gmap_get (nso_Labels b) ECNETKubeResourceMonitorAnnotation = None" by auto
  with run [unfolded err] run' [unfolded err'] show ?thesis by blast
qed

end
