(* ===== verification/Preinstall.thy ===== *)
theory Preinstall
  imports Namespaces
begin

text \<open>
  \<open>cmd/ecnet/ecnet-preinstall\<close>: the checks before an installation, that no other mesh forbids or would be forbidden by the new
  one; and the deployment that the chart (\<open>charts/ecnet\<close>) installs.
\<close>

section \<open>The checks\<close>

definition control_planes :: "'k kube_api \<Rightarrow> string \<Rightarrow> 'k \<Rightarrow> api_error + Deployment list" where
  "control_planes api n k =
     (case list_deployments api n (equals_selector AppLabel ECNETControllerName) k of (_, Some e) \<Rightarrow> Inl e | (ds, None) \<Rightarrow> Inr ds)"

definition ecnet_text :: "Deployment \<Rightarrow> string" where
  "ecnet_text dep = ''namespace: '' @ dep_Namespace dep @ '', name: '' @ label (dep_Labels dep) ''ecnetName''"

definition enforces_single :: "Deployment \<Rightarrow> bool" where
  "enforces_single dep \<longleftrightarrow> label (dep_Labels dep) ''enforceSingleEcnet'' = ''true''"

definition singleEcnetOK :: "'k kube_api \<Rightarrow> bool \<Rightarrow> 'k \<Rightarrow> cli_error option" where
  "singleEcnetOK api enforceSingleEcnet k =
     (case control_planes api [] k of
        Inl e \<Rightarrow> Some (CliError ''listing ECNET deployments'' (Some e))
      | Inr items \<Rightarrow>
          let existingEcnets = map ecnet_text items;
              existingSingleEcnets = map ecnet_text (filter enforces_single items)
          in if length existingSingleEcnets > 0 then
               Some (CliError (''Ecnet(s) '' @ strings_Join '', '' existingSingleEcnets @
                 '' already enforce it is the only ecnet in the cluster, cannot install new ecnets'') None)
             else if enforceSingleEcnet \<and> length existingEcnets > 0 then
               Some (CliError (''Ecnet(s) '' @ strings_Join '', '' existingEcnets @
                 '' already exist so a new ecnet enforcing it is the only one cannot be installed'') None)
             else None)"

text \<open>\<open>%v\<close> of a slice of strings.\<close>

definition slice_text :: "string list \<Rightarrow> string" where
  "slice_text xs = ''['' @ strings_Join '' '' xs @ '']''"

definition namespaceHasNoEcnet :: "'k kube_api \<Rightarrow> string \<Rightarrow> 'k \<Rightarrow> cli_error option" where
  "namespaceHasNoEcnet api namespace k =
     (case control_planes api namespace k of
        Inl e \<Rightarrow> Some (CliError (''listing ecnet-ctrlplane deployments in namespace '' @ namespace) (Some e))
      | Inr items \<Rightarrow>
          let ecnetNames = map (\<lambda>dep. label (dep_Labels dep) ''ecnetName'') items in
          if length ecnetNames > 0 then Some (CliError (''Namespace '' @ namespace @ '' already contains ecnet '' @ slice_text ecnetNames) None)
          else None)"

text \<open>The loop of \<open>main\<close> over the checks: the program succeeds when no check gives an error.\<close>

definition preinstall_ok :: "'k kube_api \<Rightarrow> bool \<Rightarrow> string \<Rightarrow> 'k \<Rightarrow> bool" where
  "preinstall_ok api enforceSingleEcnet namespace k \<longleftrightarrow>
     fold (\<lambda>check ok. if check k \<noteq> None then False else ok) [singleEcnetOK api enforceSingleEcnet, namespaceHasNoEcnet api namespace] True"

section \<open>What the checks decide\<close>

definition is_control_plane :: "Deployment \<Rightarrow> bool" where
  "is_control_plane d \<longleftrightarrow> gmap_get (dep_Labels d) AppLabel = Some ECNETControllerName"

lemma control_planes_exact:
  assumes "api_contract api nss deps" and "control_planes api n k = Inr items"
  shows "set items = {d \<in> set (deps k). is_control_plane d \<and> (n = [] \<or> dep_Namespace d = n)}"
proof -
  have "list_deployments api n (equals_selector AppLabel ECNETControllerName) k = (items, None)"
    using assms(2) by (auto simp: control_planes_def split: prod.splits option.splits)
  from list_law [OF assms(1) this] show ?thesis by (auto simp: is_control_plane_def)
qed

lemma preinstall_ok_iff: "preinstall_ok api enforce n k \<longleftrightarrow> singleEcnetOK api enforce k = None \<and> namespaceHasNoEcnet api n k = None"
  by (simp add: preinstall_ok_def)

text \<open>C10. What the checks decide, exactly: they pass when both lists could be read and the cluster has no deployment with the label \<open>app=ecnet-ctrlplane\<close>
  that claims to be the only mesh, or is in the namespace of the new one (in any, if that is not given), or exists at all when the new mesh is to
  be the only one. An error of the API server is never taken for an empty list. (The checks know meshes by that label, which the chart does not set.)\<close>

theorem checks_decide:
  assumes "api_contract api nss deps"
  shows "preinstall_ok api enforceSingleEcnet namespace k \<longleftrightarrow>
     snd (list_deployments api [] (equals_selector ''app'' ''ecnet-ctrlplane'') k) = None \<and>
     snd (list_deployments api namespace (equals_selector ''app'' ''ecnet-ctrlplane'') k) = None \<and>
     (\<forall>d \<in> set (deps k). gmap_get (dep_Labels d) ''app'' = Some ''ecnet-ctrlplane'' \<longrightarrow>
        label (dep_Labels d) ''enforceSingleEcnet'' \<noteq> ''true'' \<and> \<not> enforceSingleEcnet \<and> namespace \<noteq> [] \<and> dep_Namespace d \<noteq> namespace)"
proof (cases "control_planes api [] k")
  case (Inl e)
  then show ?thesis
    by (auto simp: preinstall_ok_iff singleEcnetOK_def control_planes_def AppLabel_def ECNETControllerName_def split: prod.splits option.splits)
next
  case all: (Inr items)
  have all_listed: "snd (list_deployments api [] (equals_selector ''app'' ''ecnet-ctrlplane'') k) = None"
    using all by (auto simp: control_planes_def AppLabel_def ECNETControllerName_def split: prod.splits option.splits)
  show ?thesis
  proof (cases "control_planes api namespace k")
    case (Inl e)
    then show ?thesis
      by (auto simp: preinstall_ok_iff namespaceHasNoEcnet_def control_planes_def AppLabel_def ECNETControllerName_def split: prod.splits option.splits)
  next
    case (Inr here)
    then have "snd (list_deployments api namespace (equals_selector ''app'' ''ecnet-ctrlplane'') k) = None"
      by (auto simp: control_planes_def AppLabel_def ECNETControllerName_def split: prod.splits option.splits)
    moreover have "preinstall_ok api enforceSingleEcnet namespace k \<longleftrightarrow>
        (\<forall>d \<in> set items. \<not> enforces_single d) \<and> (enforceSingleEcnet \<longrightarrow> set items = {}) \<and> set here = {}"
      by (auto simp: preinstall_ok_iff singleEcnetOK_def namespaceHasNoEcnet_def all Inr Let_def filter_empty_conv)
    ultimately show ?thesis
      using all_listed by (auto simp: control_planes_exact [OF assms all] control_planes_exact [OF assms Inr] is_control_plane_def enforces_single_def
          AppLabel_def ECNETControllerName_def)
  qed
qed

section \<open>The chart\<close>

text \<open>The labels of the deployment in \<open>templates/ecnet-deployment.yaml\<close>, with those of the template \<open>ecnet.labels\<close>.\<close>

definition chart_deployment :: "string \<Rightarrow> string \<Rightarrow> bool \<Rightarrow> string \<Rightarrow> Deployment" where
  "chart_deployment n ecnetName enforceSingleEcnet appVersion =
     \<lparr>dep_Namespace = n, dep_Labels =
        (let m = fold (\<lambda>(key, v) m. gmap_put m key v) [(''app.kubernetes.io/name'', ''flomesh.io''), (''app.kubernetes.io/instance'', ecnetName),
           (''app.kubernetes.io/version'', appVersion), (''app'', ''ecnet-controller''), (''ecnetName'', ecnetName)] gmap_empty
         in if enforceSingleEcnet then gmap_put m ''enforceSingleEcnet'' ''true'' else m)\<rparr>"

lemma chart_not_control_plane: "\<not> is_control_plane (chart_deployment n name enforce v)"
  by (simp add: is_control_plane_def chart_deployment_def Let_def AppLabel_def ECNETControllerName_def)

text \<open>C32. The checks do not see what the chart installs: it labels its deployment with another application name, so in a cluster whose meshes
  were installed by the chart every check succeeds, also for a second mesh in the same namespace while the first wants to be the only one.\<close>

theorem checks_miss_chart:
  assumes "api_contract api nss deps" and "\<forall>d \<in> set (deps k). \<exists>n name enforce v. d = chart_deployment n name enforce v"
    and "control_planes api [] k = Inr items" and "control_planes api namespace k = Inr items'"
  shows "preinstall_ok api enforceSingleEcnet namespace k"
proof -
  have "\<not> is_control_plane d" if "d \<in> set (deps k)" for d using bspec [OF assms(2) that] by (auto simp: chart_not_control_plane)
  then have none: "{d \<in> set (deps k). is_control_plane d \<and> Q d} = {}" for Q by auto
  have "set items = {}" "set items' = {}" by (simp_all only: control_planes_exact [OF assms(1,3)] control_planes_exact [OF assms(1,4)] none)
  then show ?thesis using assms(3,4) by (simp add: preinstall_ok_iff singleEcnetOK_def namespaceHasNoEcnet_def)
qed

section \<open>A cluster\<close>

definition sample_install :: "string \<Rightarrow> Deployment" where
  "sample_install n = \<lparr>dep_Namespace = n, dep_Labels = gmap_put (gmap_put gmap_empty ''app'' ''ecnet-ctrlplane'') ''ecnetName'' ''ecnet''\<rparr>"

definition empty_cluster :: memory_cluster where
  "empty_cluster = \<lparr>mem_namespaces = gmap_empty, mem_deployments = [], mem_crds = []\<rparr>"

theorem checks_decide_witness:
  "preinstall_ok memory_api False ''b'' (empty_cluster\<lparr>mem_deployments := [sample_install ''a'']\<rparr>) \<and>
   \<not> preinstall_ok memory_api False ''a'' (empty_cluster\<lparr>mem_deployments := [sample_install ''a'']\<rparr>) \<and>
   \<not> preinstall_ok memory_api True ''b'' (empty_cluster\<lparr>mem_deployments := [sample_install ''a'']\<rparr>)"
proof -
  have "snd (list_deployments memory_api n (equals_selector ''app'' ''ecnet-ctrlplane'') k) = None" for n k by (simp add: memory_api_def)
  then show ?thesis
    unfolding checks_decide [OF memory_api_contract] by (simp add: sample_install_def label_def label_keys)
qed

theorem checks_miss_chart_witness:
  "preinstall_ok memory_api True ''ecnet-system''
     (empty_cluster\<lparr>mem_deployments := [chart_deployment ''ecnet-system'' ''ecnet'' True ''1.0.0'']\<rparr>)"
proof -
  let ?k = "empty_cluster\<lparr>mem_deployments := [chart_deployment ''ecnet-system'' ''ecnet'' True ''1.0.0'']\<rparr>"
  have "mem_deployments ?k = [chart_deployment ''ecnet-system'' ''ecnet'' True ''1.0.0'']" by simp
  then have "\<forall>d \<in> set (mem_deployments ?k). \<exists>n name enforce v. d = chart_deployment n name enforce v"
    by (auto simp del: memory_cluster.simps)
  moreover have "\<exists>items. control_planes memory_api n ?k = Inr items" for n by (simp add: control_planes_def memory_api_def)
  then obtain items items' where "control_planes memory_api [] ?k = Inr items" "control_planes memory_api ''ecnet-system'' ?k = Inr items'"
    by blast
  ultimately show ?thesis by (rule checks_miss_chart [OF memory_api_contract])
qed

end
