(* ===== verification/Uninstall.thy ===== *)
theory Uninstall
  imports Preinstall
begin

text \<open>
  \<open>cmd/ecnet/cli/uninstall_ecnet.go\<close>, \<open>ecnet_list.go\<close> and \<open>util.go\<close>: listing the meshes of a cluster and removing them. Helm and
  the API server are parameters; standard input is the list of what each read returns. A command returns its
  error, what it printed, and the state of the cluster. The command's own flags are \<open>uninstall_cmd\<close>.
\<close>

section \<open>Listing meshes\<close>

record ecnetInfo =
  info_name :: string
  info_namespace :: string
  info_version :: string
  info_monitoredNamespaces :: "string list"

definition getControllerDeployments :: "'k kube_api \<Rightarrow> 'k \<Rightarrow> Deployment list \<times> api_error option" where
  "getControllerDeployments api k = list_deployments api [] (equals_selector AppLabel ECNETControllerName) k"

definition ecnet_info :: "'k kube_api \<Rightarrow> 'k \<Rightarrow> Deployment \<Rightarrow> ecnetInfo" where
  "ecnet_info api k dep =
     (let ecnetName = label (dep_Labels dep) ''ecnetName'';
          ecnetVersion = label (dep_Labels dep) ECNETAppVersionLabelKey
      in \<lparr>info_name = ecnetName, info_namespace = dep_Namespace dep,
          info_version = (if ecnetVersion = [] then ''Unknown'' else ecnetVersion),
          info_monitoredNamespaces =
            (case selectNamespacesMonitoredByEcnet api ecnetName k of Inl _ \<Rightarrow> [] | Inr items \<Rightarrow> map nso_Name items)\<rparr>)"

definition getEcnetInfoList :: "'k kube_api \<Rightarrow> 'k \<Rightarrow> cli_error + ecnetInfo list" where
  "getEcnetInfoList api k =
     (case getControllerDeployments api k of
        (_, Some e) \<Rightarrow> Inl (CliError ''Could not list deployments'' (Some e))
      | (items, None) \<Rightarrow> Inr (map (ecnet_info api k) items))"

definition tab :: string where "tab = [CHR 0x09]"

definition newline :: string where "newline = [CHR 0x0A]"

text \<open>The tables, before their layout.\<close>

definition getPrettyPrintedEcnetInfoList :: "ecnetInfo list \<Rightarrow> string" where
  "getPrettyPrintedEcnetInfoList ecnetInfoList =
     newline @ strings_Join tab [''ECNET NAME'', ''ECNET NAMESPACE'', ''VERSION'', ''ADDED NAMESPACES''] @ newline @
     concat (map (\<lambda>i. strings_Join tab [info_name i, info_namespace i, info_version i, strings_Join '','' (info_monitoredNamespaces i)] @ newline)
       ecnetInfoList)"

definition getSupportedInfoForEcnetList :: "ecnetInfo list \<Rightarrow> (string \<times> string) list" where
  "getSupportedInfoForEcnetList ecnetInfoList = map (\<lambda>i. (info_name i, info_namespace i)) ecnetInfoList"

definition getPrettyPrintedCniInfoList :: "(string \<times> string) list \<Rightarrow> string" where
  "getPrettyPrintedCniInfoList ecnetServiceList =
     newline @ strings_Join tab [''ECNET NAME'', ''ECNET NAMESPACE''] @ newline @
     concat (map (\<lambda>(name, namespace). strings_Join tab [name, namespace] @ newline) ecnetServiceList)"

definition ecnetList_run :: "'k kube_api \<Rightarrow> 'k \<Rightarrow> cli_error option \<times> string list" where
  "ecnetList_run api k =
     (case getEcnetInfoList api k of
        Inl e \<Rightarrow> (Some e, [''Unable to list ecnets within the cluster.''])
      | Inr ecnetInfoList \<Rightarrow>
          if length ecnetInfoList = 0 then (None, [''No ecnet control planes found''])
          else (None, [getPrettyPrintedEcnetInfoList ecnetInfoList, getPrettyPrintedCniInfoList (getSupportedInfoForEcnetList ecnetInfoList),
            newline @ ''To list the ECNET ctrlplane pods, please run the following command passing in the ecnet''@ [CHR 0x27] @ ''s namespace'',
            tab @ ''kubectl get pods -n <ecnet-ecnet-namespace> -l app=ecnet-bridge'']))"

section \<open>Asking\<close>

text \<open>\<open>ReadString('\n')\<close> of a reader with a buffer: what was read through the next newline, the rest of the buffer, and the reads that remain;
  no result when the input ends first.\<close>

fun read_line :: "string \<Rightarrow> string list \<Rightarrow> (string \<times> string \<times> string list) option" where
  "read_line buf [] =
     (if CHR 0x0A \<in> set buf then Some (takeWhile (\<lambda>c. c \<noteq> CHR 0x0A) buf @ newline, tl (dropWhile (\<lambda>c. c \<noteq> CHR 0x0A) buf), []) else None)"
| "read_line buf (c # cs) =
     (if CHR 0x0A \<in> set buf then Some (takeWhile (\<lambda>c. c \<noteq> CHR 0x0A) buf @ newline, tl (dropWhile (\<lambda>c. c \<noteq> CHR 0x0A) buf), c # cs)
      else read_line (buf @ c) cs)"

text \<open>The answer (none when reading fails), what was printed, and the reads that remain: the reader of one call and what it holds in its
  buffer are lost at the end of the call.\<close>

fun confirm_loop :: "string \<Rightarrow> nat \<Rightarrow> string \<Rightarrow> string list \<Rightarrow> bool option \<times> string list \<times> string list" where
  "confirm_loop s 0 buf stdin = (Some False, [], stdin)"
| "confirm_loop s (Suc tries) buf stdin =
     (case read_line buf stdin of
        None \<Rightarrow> (None, [s @ '' [y/n]: ''], [])
      | Some (res, buf, stdin) \<Rightarrow>
          if length res < 2 then (case confirm_loop s tries buf stdin of (a, out, r) \<Rightarrow> (a, (s @ '' [y/n]: '') # out, r))
          else if to_lower (trim_space res) = ''y'' then (Some True, [s @ '' [y/n]: ''], stdin)
          else if to_lower (trim_space res) = ''n'' then (Some False, [s @ '' [y/n]: ''], stdin)
          else case confirm_loop s tries buf stdin of (a, out, r) \<Rightarrow> (a, (s @ '' [y/n]: '') # ''Invalid input.'' # out, r))"

definition confirm :: "string list \<Rightarrow> string \<Rightarrow> nat \<Rightarrow> bool option \<times> string list \<times> string list" where
  "confirm stdin s tries = confirm_loop s tries [] stdin"

section \<open>Removing\<close>

record uninstall_cmd =
  ecnetName :: string
  ecnetNamespace :: string
  force :: bool
  deleteNamespace :: bool
  deleteClusterWideResources :: bool

text \<open>Helm: \<open>Init\<close> for a namespace, and the removal of a release there. Errors carry their text.\<close>

datatype helm_error = ErrReleaseNotFound string | HelmFailure string

fun helm_text :: "helm_error \<Rightarrow> string" where
  "helm_text (ErrReleaseNotFound t) = t"
| "helm_text (HelmFailure t) = t"

record 'k uninstall_env =
  kube :: "'k kube_api"
  helm_Init :: "string \<Rightarrow> 'k \<Rightarrow> helm_error option"
  helm_Run :: "string \<Rightarrow> string \<Rightarrow> 'k \<Rightarrow> helm_error option \<times> 'k"
  api_text :: "api_error \<Rightarrow> string"
  IsManaged :: bool

datatype uninstall_error = Cli cli_error | Helm helm_error | Eof

type_synonym 'k uninstall_result = "uninstall_error option \<times> string list \<times> 'k"

definition ecnetSpecified :: "uninstall_cmd \<Rightarrow> bool" where
  "ecnetSpecified d \<longleftrightarrow> ecnetName d \<noteq> []"

definition findEcnet :: "uninstall_cmd \<Rightarrow> ecnetInfo list \<Rightarrow> bool" where
  "findEcnet d ecnetInfoList \<longleftrightarrow> list_ex (\<lambda>e. info_name e = ecnetName d) ecnetInfoList"

definition printEcnets :: "'k kube_api \<Rightarrow> 'k \<Rightarrow> cli_error option \<times> string list" where
  "printEcnets api k = (case ecnetList_run api k of (e, out) \<Rightarrow> (e, ''List of ecnets present in the cluster:'' # out))"

definition cli_text :: "(api_error \<Rightarrow> string) \<Rightarrow> cli_error \<Rightarrow> string" where
  "cli_text text err = (case err of CliError msg None \<Rightarrow> msg | CliError msg (Some e) \<Rightarrow> msg @ '' '' @ text e)"

definition findSpecifiedEcnet :: "'k uninstall_env \<Rightarrow> uninstall_cmd \<Rightarrow> ecnetInfo list \<Rightarrow> 'k \<Rightarrow> bool \<times> string list" where
  "findSpecifiedEcnet env d ecnetInfoList k =
     (if findEcnet d ecnetInfoList then (True, [])
      else (False, (''Did not find ecnet ['' @ ecnetName d @ ''] in namespace ['' @ ecnetNamespace d @ '']'') #
        (case printEcnets (kube env) k of
           (None, out) \<Rightarrow> out
         | (Some e, out) \<Rightarrow> out @ [''Unable to list ecnets in the cluster - ['' @ cli_text (api_text env) e @ '']''])))"

definition question :: "ecnetInfo \<Rightarrow> string" where
  "question e = newline @ ''Uninstall ECNET [ecnet name: '' @ info_name e @ ''] in namespace ['' @ info_namespace e @ ''] and/or ECNET resources?''"

fun promptEcnetUninstall ::
  "uninstall_cmd \<Rightarrow> ecnetInfo list \<Rightarrow> ecnetInfo list \<Rightarrow> string list \<Rightarrow> ecnetInfo list option \<times> string list \<times> string list" where
  "promptEcnetUninstall d [] ecnetsToUninstall stdin = (Some ecnetsToUninstall, [], stdin)"
| "promptEcnetUninstall d (e # ecnetInfoList) ecnetsToUninstall stdin =
     (if ecnetSpecified d \<and> info_name e \<noteq> ecnetName d then promptEcnetUninstall d ecnetInfoList ecnetsToUninstall stdin
      else case confirm stdin (question e) 3 of
        (None, out, rest) \<Rightarrow> (None, out, rest)
      | (Some yes, out, rest) \<Rightarrow>
          (case promptEcnetUninstall d ecnetInfoList (if yes then ecnetsToUninstall @ [e] else ecnetsToUninstall) rest of
             (r, out', rest') \<Rightarrow> (r, out @ out', rest')))"

definition deleteNs :: "'k uninstall_env \<Rightarrow> uninstall_cmd \<Rightarrow> string \<Rightarrow> 'k \<Rightarrow> 'k uninstall_result" where
  "deleteNs env d ns k =
     (if \<not> deleteNamespace d then (None, [], k)
      else case delete_namespace (kube env) ns k of
        (Some NotFound, k) \<Rightarrow> (None, [''ECNET namespace ['' @ ns @ ''] not found''], k)
      | (Some e, k) \<Rightarrow> (Some (Cli (CliError (''Could not delete ECNET namespace ['' @ ns @ '']'') (Some e))), [], k)
      | (None, k) \<Rightarrow> (None, [''ECNET namespace ['' @ ns @ ''] deleted successfully''], k))"

text \<open>The loop over custom resource definitions: what could not be deleted.\<close>

fun delete_crds :: "'k uninstall_env \<Rightarrow> string list \<Rightarrow> 'k \<Rightarrow> string list \<times> string list \<times> 'k" where
  "delete_crds env [] k = ([], [], k)"
| "delete_crds env (crd # crds) k =
     (case delete_crd (kube env) crd k of
        (None, k) \<Rightarrow> (case delete_crds env crds k of (failed, out, k) \<Rightarrow> (failed, (''Successfully deleted ECNET CRD: '' @ crd) # out, k))
      | (Some NotFound, k) \<Rightarrow> (case delete_crds env crds k of (failed, out, k) \<Rightarrow> (failed, (''Ignoring - did not find ECNET CRD: '' @ crd) # out, k))
      | (Some e, k) \<Rightarrow> (case delete_crds env crds k of
          (failed, out, k) \<Rightarrow> (crd # failed, (''Failed to delete ECNET CRD '' @ crd @ '': '' @ api_text env e) # out, k)))"

definition uninstallCustomResourceDefinitions :: "'k uninstall_env \<Rightarrow> 'k \<Rightarrow> bool \<times> string list \<times> 'k" where
  "uninstallCustomResourceDefinitions env k =
     (case delete_crds env [''ecnetconfigs.config.flomesh.io''] k of (failed, out, k) \<Rightarrow> (failed = [], out, k))"

text \<open>There are no secrets to delete: \<open>uninstallSecrets\<close> loops over an empty list.\<close>

definition uninstallClusterResources :: "'k uninstall_env \<Rightarrow> 'k \<Rightarrow> string list \<times> string list \<times> 'k" where
  "uninstallClusterResources env k =
     (case uninstallCustomResourceDefinitions env k of (ok, out, k) \<Rightarrow> (if ok then [] else [''CustomResourceDefinitions''], out, k))"

definition deleteClusterResources :: "'k uninstall_env \<Rightarrow> uninstall_cmd \<Rightarrow> 'k \<Rightarrow> 'k uninstall_result" where
  "deleteClusterResources env d k =
     (if \<not> deleteClusterWideResources d then (None, [], k)
      else case getEcnetInfoList (kube env) k of
        Inl (CliError _ e) \<Rightarrow> (Some (Cli (CliError ''unable to list ecnets within the cluster: Could not list deployments'' e)), [], k)
      | Inr ecnetInfoList \<Rightarrow>
          let warning = (if length ecnetInfoList \<noteq> 0 then ''Deleting cluster resources will affect current ecnet(s) in cluster:'' #
                map (\<lambda>m. ''['' @ info_name m @ ''] ecnet in namespace ['' @ info_namespace m @ '']'') ecnetInfoList else [])
          in (case uninstallClusterResources env k of
                (failed, out, k) \<Rightarrow>
                  (if length failed \<noteq> 0 then
                     Some (Cli (CliError (''Failed to completely delete the following ECNET resource types: '' @ slice_text failed) None))
                   else None, warning @ out, k)))"

definition place :: "ecnetInfo \<Rightarrow> string" where
  "place m = ''['' @ info_name m @ ''] in namespace ['' @ info_namespace m @ '']''"

text \<open>One mesh of the loop of \<open>run\<close>: helm is prepared for its namespace and removes the release; a failure ends the command, unless
  resources or the namespace are to be deleted as well.\<close>

definition uninstall_one :: "'k uninstall_env \<Rightarrow> uninstall_cmd \<Rightarrow> ecnetInfo \<Rightarrow> 'k \<Rightarrow> 'k uninstall_result" where
  "uninstall_one env d m k =
     (case helm_Init env (info_namespace m) k of
        Some e \<Rightarrow> (Some (Helm e), [], k)
      | None \<Rightarrow>
          (case helm_Run env (info_namespace m) (info_name m) k of
             (Some e, k) \<Rightarrow>
               let found = (case e of ErrReleaseNotFound _ \<Rightarrow>
                     [''No ECNET control plane with ecnet name ['' @ info_name m @ ''] found in namespace ['' @ info_namespace m @ '']''] | _ \<Rightarrow> [])
               in if \<not> deleteClusterWideResources d \<and> \<not> deleteNamespace d then (Some (Helm e), found, k)
                  else (case deleteNs env d (info_namespace m) k of
                     (r, out, k) \<Rightarrow> (r, found @ (''Could not uninstall ecnet name '' @ place m @ ''- '' @ helm_text e @
                       '' - continuing to deleteClusterWideResources and/or deleteNamespace'') # out, k))
           | (None, k) \<Rightarrow> (case deleteNs env d (info_namespace m) k of
               (r, out, k) \<Rightarrow> (r, (''ECNET [ecnet name: '' @ info_name m @ ''] in namespace ['' @ info_namespace m @ ''] uninstalled'') # out, k))))"

fun uninstall_all :: "'k uninstall_env \<Rightarrow> uninstall_cmd \<Rightarrow> ecnetInfo list \<Rightarrow> 'k \<Rightarrow> 'k uninstall_result" where
  "uninstall_all env d [] k = (None, [], k)"
| "uninstall_all env d (m # ms) k =
     (case uninstall_one env d m k of
        (Some e, out, k) \<Rightarrow> (Some e, out, k)
      | (None, out, k) \<Rightarrow> (case uninstall_all env d ms k of (e, out', k) \<Rightarrow> (e, out @ out', k)))"

text \<open>The mesh to remove without asking: the only one, or the one that the flags name.\<close>

definition forceEcnet :: "uninstall_cmd \<Rightarrow> ecnetInfo list \<Rightarrow> ecnetInfo" where
  "forceEcnet d ecnetInfoList =
     (let (name, namespace) = (case ecnetInfoList of [m] \<Rightarrow> (info_name m, info_namespace m) | _ \<Rightarrow> (ecnetName d, ecnetNamespace d))
      in \<lparr>info_name = name, info_namespace = namespace, info_version = [], info_monitoredNamespaces = []\<rparr>)"

definition with_output :: "string list \<Rightarrow> 'k uninstall_result \<Rightarrow> 'k uninstall_result" where
  "with_output out r = (fst r, out @ fst (snd r), snd (snd r))"

definition uninstall_then_resources :: "'k uninstall_env \<Rightarrow> uninstall_cmd \<Rightarrow> ecnetInfo list \<Rightarrow> 'k \<Rightarrow> 'k uninstall_result" where
  "uninstall_then_resources env d ms k =
     (case uninstall_all env d ms k of
        (Some e, out, k) \<Rightarrow> (Some e, out, k)
      | (None, out, k) \<Rightarrow> with_output out (deleteClusterResources env d k))"

definition uninstall_run :: "'k uninstall_env \<Rightarrow> uninstall_cmd \<Rightarrow> string list \<Rightarrow> 'k \<Rightarrow> 'k uninstall_result" where
  "uninstall_run env d stdin k =
     (if IsManaged env then
        with_output (''ECNET CANNOT be uninstalled in a managed environment'' #
          (if deleteNamespace d then [''ECNET namespace CANNOT be deleted in a managed environment''] else []))
          (deleteClusterResources env d k)
      else case getEcnetInfoList (kube env) k of
        Inl (CliError _ e) \<Rightarrow> (Some (Cli (CliError ''unable to list ecnets within the cluster: Could not list deployments'' e)), [], k)
      | Inr ecnetInfoList \<Rightarrow>
          if length ecnetInfoList = 0 then (None, [''No ECNET control planes found''], k)
          else (case (if ecnetSpecified d then findSpecifiedEcnet env d ecnetInfoList k else (True, [])) of
            (False, out) \<Rightarrow> (None, out, k)
          | (True, out) \<Rightarrow>
              if force d then uninstall_then_resources env d [forceEcnet d ecnetInfoList] k
              else (case printEcnets (kube env) k of
                (Some e, out) \<Rightarrow> (Some (Cli e), out, k)
              | (None, out) \<Rightarrow>
                  (case promptEcnetUninstall d ecnetInfoList [] stdin of
                     (None, out', _) \<Rightarrow> (Some Eof, out @ out', k)
                   | (Some ms, out', _) \<Rightarrow> with_output (out @ out') (uninstall_then_resources env d ms k)))))"

section \<open>Answers at a terminal\<close>

text \<open>A read from a terminal returns one line. The lines of one answer: up to three, of which only the last may be \<open>y\<close> or \<open>n\<close>; it is one, or
  three lines were used up.\<close>

definition is_line :: "string \<Rightarrow> bool" where
  "is_line l \<longleftrightarrow> l \<noteq> [] \<and> last l = CHR 0x0A \<and> CHR 0x0A \<notin> set (butlast l)"

definition says :: "string \<Rightarrow> string \<Rightarrow> bool" where
  "says a l \<longleftrightarrow> to_lower (trim_space l) = a"

definition decisive :: "string \<Rightarrow> bool" where
  "decisive l \<longleftrightarrow> says ''y'' l \<or> says ''n'' l"

definition is_reply :: "nat \<Rightarrow> string list \<Rightarrow> bool" where
  "is_reply tries ls \<longleftrightarrow> list_all is_line ls \<and> length ls \<le> tries \<and> list_all (\<lambda>l. \<not> decisive l) (butlast ls) \<and>
     (length ls < tries \<longrightarrow> ls \<noteq> [] \<and> decisive (last ls))"

definition says_yes :: "string list \<Rightarrow> bool" where
  "says_yes ls \<longleftrightarrow> ls \<noteq> [] \<and> says ''y'' (last ls)"

lemma line_split: "c \<notin> set s \<Longrightarrow> takeWhile (\<lambda>x. x \<noteq> c) (s @ [c]) = s \<and> dropWhile (\<lambda>x. x \<noteq> c) (s @ [c]) = [c]"
  by (induction s) auto

lemma read_line_terminal:
  assumes "is_line l"
  shows "read_line [] (l # cs) = Some (l, [], cs)"
proof -
  define s where "s = butlast l"
  with assms have l: "l = s @ newline" and s: "CHR 0x0A \<notin> set s"
    using append_butlast_last_id [of l] by (simp_all add: is_line_def newline_def)
  then have "takeWhile (\<lambda>c. c \<noteq> CHR 0x0A) l = s" "dropWhile (\<lambda>c. c \<noteq> CHR 0x0A) l = newline"
    using line_split [OF s] by (simp_all add: newline_def)
  moreover have "CHR 0x0A \<in> set l" by (simp add: l newline_def)
  ultimately show ?thesis by (cases cs) (simp_all add: l newline_def)
qed

lemma short_not_decisive:
  assumes "is_line l" and "length l < 2"
  shows "\<not> decisive l"
proof -
  have "l = [CHR 0x0A]" using assms by (cases l) (auto simp: is_line_def)
  then show ?thesis by (simp add: decisive_def says_def trim_space_def is_space_def byte_def to_lower_def lower_byte_def)
qed

lemma confirm_loop_line:
  assumes "is_line l"
  shows "confirm_loop s (Suc n) [] (l # cs) =
     (if says ''y'' l then (Some True, [s @ '' [y/n]: ''], cs)
      else if says ''n'' l then (Some False, [s @ '' [y/n]: ''], cs)
      else case confirm_loop s n [] cs of (a, out, r) \<Rightarrow> (a, (s @ '' [y/n]: '') # (if length l < 2 then out else ''Invalid input.'' # out), r))"
  using short_not_decisive [OF assms]
  by (auto simp: read_line_terminal [OF assms] decisive_def says_def simp del: read_line.simps split: prod.splits)

lemma confirm_loop_terminal:
  "is_reply n ls \<Longrightarrow> \<exists>out. confirm_loop s n [] (ls @ rest) = (Some (says_yes ls), out, rest)"
proof (induction n arbitrary: ls)
  case 0
  then show ?case by (simp add: is_reply_def says_yes_def)
next
  case (Suc n)
  then obtain l ls' where ls: "ls = l # ls'" by (cases ls) (auto simp: is_reply_def)
  with Suc.prems have line: "is_line l" by (simp add: is_reply_def)
  show ?case
  proof (cases "decisive l")
    case True
    with Suc.prems ls have "ls' = []" by (cases ls') (auto simp: is_reply_def)
    with True ls show ?thesis using confirm_loop_line [OF line, of s n rest] by (auto simp: says_yes_def decisive_def simp del: confirm_loop.simps)
  next
    case False
    have "is_reply n ls'" using Suc.prems ls False by (cases ls') (auto simp: is_reply_def)
    from Suc.IH [OF this] obtain out where "confirm_loop s n [] (ls' @ rest) = (Some (says_yes ls'), out, rest)" by blast
    moreover have "says_yes ls = says_yes ls'" using False ls by (cases ls') (auto simp: says_yes_def decisive_def)
    ultimately show ?thesis
      using False ls confirm_loop_line [OF line, of s n "ls' @ rest"] by (simp add: decisive_def del: confirm_loop.simps)
  qed
qed

text \<open>Input that ends in the middle of an answer.\<close>

lemma confirm_loop_ended:
  "is_reply n ls \<Longrightarrow> j < length ls \<Longrightarrow> \<exists>out. confirm_loop s n [] (take j ls) = (None, out, [])"
proof (induction n arbitrary: ls j)
  case 0
  then show ?case by (simp add: is_reply_def)
next
  case (Suc n)
  then obtain l ls' where ls: "ls = l # ls'" by (cases ls) (auto simp: is_reply_def)
  with Suc.prems have line: "is_line l" by (simp add: is_reply_def)
  show ?case
  proof (cases j)
    case (Suc j')
    then have j': "j' < length ls'" using Suc.prems(2) ls by simp
    then have l: "\<not> decisive l" using Suc.prems(1) ls by (cases ls') (auto simp: is_reply_def)
    have "is_reply n ls'" using Suc.prems(1) ls l by (cases ls') (auto simp: is_reply_def)
    from Suc.IH [OF this j'] obtain out where "confirm_loop s n [] (take j' ls') = (None, out, [])" by blast
    then show ?thesis
      using l ls Suc confirm_loop_line [OF line, of s n "take j' ls'"] by (simp add: decisive_def del: confirm_loop.simps)
  qed simp
qed

lemma confirm_typed:
  assumes "is_reply 3 ls"
  shows "\<exists>out. confirm (take n (ls @ rest)) s 3 =
     (if length ls \<le> n then (Some (says_yes ls), out, take (n - length ls) rest) else (None, out, []))"
  using confirm_loop_terminal [OF assms, of s "take (n - length ls) rest"] confirm_loop_ended [OF assms, of n s]
  by (cases "length ls \<le> n") (simp_all add: confirm_def)

text \<open>A conversation: the meshes that are asked about, which are those of the given name if there is one, each with the lines of one answer, in order.
  The input is what was typed, possibly more than the answers, up to the point where it ended.\<close>

definition conversation :: "uninstall_cmd \<Rightarrow> ecnetInfo list \<Rightarrow> (ecnetInfo \<times> string list) list \<Rightarrow> string list \<Rightarrow> bool" where
  "conversation d infos qs stdin \<longleftrightarrow> map fst qs = filter (\<lambda>m. ecnetName d = [] \<or> info_name m = ecnetName d) infos \<and>
     list_all (\<lambda>(m, ls). is_reply 3 ls) qs \<and> (\<exists>n rest. stdin = take n (concat (map snd qs) @ rest))"

text \<open>Prompting: the meshes to remove are exactly those that were asked about and whose answer was yes, in their order; three lines without an
  answer count as no. What was typed after the last answer is not read, and input that ends before it is an error.\<close>

lemma prompt_conversation:
  "map fst qs = filter (\<lambda>m. ecnetName d = [] \<or> info_name m = ecnetName d) infos \<Longrightarrow> list_all (\<lambda>(m, ls). is_reply 3 ls) qs \<Longrightarrow>
   \<exists>out. promptEcnetUninstall d infos acc (take n (concat (map snd qs) @ rest)) =
     (if length (concat (map snd qs)) \<le> n
      then (Some (acc @ map fst (filter (\<lambda>(m, ls). says_yes ls) qs)), out, take (n - length (concat (map snd qs))) rest) else (None, out, []))"
proof (induction infos arbitrary: acc qs n)
  case (Cons e infos)
  show ?case
  proof (cases "ecnetSpecified d \<and> info_name e \<noteq> ecnetName d")
    case True
    with Cons show ?thesis by (simp add: ecnetSpecified_def)
  next
    case False
    then have e: "ecnetName d = [] \<or> info_name e = ecnetName d" by (simp add: ecnetSpecified_def)
    then obtain ls qs' where qs: "qs = (e, ls) # qs'"
      and rec: "map fst qs' = filter (\<lambda>m. ecnetName d = [] \<or> info_name m = ecnetName d) infos" "list_all (\<lambda>(m, ls). is_reply 3 ls) qs'" "is_reply 3 ls"
      using Cons.prems by (cases qs) auto
    let ?acc = "if says_yes ls then acc @ [e] else acc"
    obtain o1 where one: "confirm (take n (ls @ concat (map snd qs') @ rest)) (question e) 3 =
        (if length ls \<le> n then (Some (says_yes ls), o1, take (n - length ls) (concat (map snd qs') @ rest)) else (None, o1, []))"
      using confirm_typed [OF rec(3)] by blast
    obtain o2 where two: "promptEcnetUninstall d infos ?acc (take (n - length ls) (concat (map snd qs') @ rest)) =
        (if length (concat (map snd qs')) \<le> n - length ls
         then (Some (?acc @ map fst (filter (\<lambda>(m, ls). says_yes ls) qs')), o2, take (n - length ls - length (concat (map snd qs'))) rest) else (None, o2, []))"
      using Cons.IH [OF rec(1,2)] by blast
    show ?thesis
    proof (cases "length ls \<le> n")
      case True
      with False one two show ?thesis
        by (cases "length (concat (map snd qs')) \<le> n - length ls") (auto simp: qs simp del: length_concat)
    next
      case short: False
      with False one show ?thesis by (auto simp: qs simp del: length_concat)
    qed
  qed
qed simp

section \<open>Only what was confirmed\<close>

text \<open>The release that the command may remove, by its namespace and name. When a name is given, a mesh with that name must exist. With
  \<open>--force\<close> it is the only mesh of the cluster, or, among several, the one that the flags name; without it, one
  that was asked about and whose answer was yes. In a managed environment there is none.\<close>

definition chosen :: "bool \<Rightarrow> uninstall_cmd \<Rightarrow> ecnetInfo list \<Rightarrow> (ecnetInfo \<times> string list) list \<Rightarrow> string \<Rightarrow> string \<Rightarrow> bool" where
  "chosen managed d infos qs namespace name \<longleftrightarrow> \<not> managed \<and> (ecnetName d \<noteq> [] \<longrightarrow> ecnetName d \<in> info_name ` set infos) \<and>
     (if force d then
        (\<exists>m. infos = [m] \<and> namespace = info_namespace m \<and> name = info_name m) \<or>
        (length infos \<ge> 2 \<and> namespace = ecnetNamespace d \<and> name = ecnetName d)
      else \<exists>m ls. (m, ls) \<in> set qs \<and> says_yes ls \<and> namespace = info_namespace m \<and> name = info_name m)"

lemma deleteNs_keeps:
  assumes "deleteNs env d ns k = (r, out, k')" and "P k" and "deleteNamespace d \<Longrightarrow> P (snd (delete_namespace (kube env) ns k))"
  shows "P k'"
proof (cases "deleteNamespace d")
  case True
  obtain e k1 where del: "delete_namespace (kube env) ns k = (e, k1)" by fastforce
  with True assms(1) have "k' = k1" by (auto simp: deleteNs_def split: option.splits api_error.splits)
  with del True assms(3) show ?thesis by simp
qed (use assms in \<open>simp add: deleteNs_def\<close>)

lemma uninstall_one_keeps:
  assumes "uninstall_one env d m k = (r, out, k')" and "P k" and "\<And>k. P k \<Longrightarrow> P (snd (helm_Run env (info_namespace m) (info_name m) k))"
    and "\<And>k. P k \<Longrightarrow> deleteNamespace d \<Longrightarrow> P (snd (delete_namespace (kube env) (info_namespace m) k))"
  shows "P k'"
proof (cases "helm_Init env (info_namespace m) k")
  case None
  obtain e k1 where run: "helm_Run env (info_namespace m) (info_name m) k = (e, k1)" by fastforce
  with assms(2) assms(3) [OF assms(2)] have P1: "P k1" by simp
  obtain r2 out2 k2 where ns: "deleteNs env d (info_namespace m) k1 = (r2, out2, k2)" by (rule prod_cases3)
  have "P k2" by (rule deleteNs_keeps [of env d "info_namespace m" k1 r2 out2 k2 P, OF ns P1]) (rule assms(4) [OF P1])
  moreover have "k' = k1 \<or> k' = k2"
    using assms(1) None run ns by (auto simp: uninstall_one_def Let_def split: option.splits if_splits)
  ultimately show ?thesis using P1 by auto
qed (use assms in \<open>simp add: uninstall_one_def\<close>)

lemma uninstall_all_keeps:
  assumes "uninstall_all env d ms k = (r, out, k')" and "P k"
    and "\<And>m k. m \<in> set ms \<Longrightarrow> P k \<Longrightarrow> P (snd (helm_Run env (info_namespace m) (info_name m) k))"
    and "\<And>m k. m \<in> set ms \<Longrightarrow> P k \<Longrightarrow> deleteNamespace d \<Longrightarrow> P (snd (delete_namespace (kube env) (info_namespace m) k))"
  shows "P k'"
  using assms
proof (induction ms arbitrary: k out)
  case (Cons m ms)
  obtain r1 o1 k1 where one: "uninstall_one env d m k = (r1, o1, k1)" by (rule prod_cases3)
  have P1: "P k1" by (rule uninstall_one_keeps [of env d m k r1 o1 k1 P, OF one Cons.prems(2)]) (simp_all add: Cons.prems(3,4))
  show ?case
  proof (cases r1)
    case None
    obtain r2 o2 k2 where all: "uninstall_all env d ms k1 = (r2, o2, k2)" by (rule prod_cases3)
    with None one Cons.prems(1) have "r2 = r" "k2 = k'" by simp_all
    with all have "uninstall_all env d ms k1 = (r, o2, k')" by simp
    from Cons.IH [OF this P1] Cons.prems(3,4) show ?thesis by simp
  qed (use one Cons.prems(1) P1 in simp)
qed simp

lemma deleteClusterResources_keeps:
  assumes "deleteClusterResources env d k = (r, out, k')" and "P k"
    and "\<And>k. P k \<Longrightarrow> deleteClusterWideResources d \<Longrightarrow> P (snd (delete_crd (kube env) ''ecnetconfigs.config.flomesh.io'' k))"
  shows "P k'"
proof -
  obtain e k1 where del: "delete_crd (kube env) ''ecnetconfigs.config.flomesh.io'' k = (e, k1)" by fastforce
  have "snd (snd (uninstallClusterResources env k)) = k1"
    using del by (auto simp: uninstallClusterResources_def uninstallCustomResourceDefinitions_def split: option.splits api_error.splits)
  then have "k' = k \<or> deleteClusterWideResources d \<and> k' = k1"
    using assms(1) by (auto simp: deleteClusterResources_def Let_def split: if_splits sum.splits cli_error.splits prod.splits)
  with assms(2) assms(3) [OF assms(2)] del show ?thesis by auto
qed

lemma then_resources_keeps:
  assumes "uninstall_then_resources env d ms k = (r, out, k')" and "P k"
    and "\<And>m k. m \<in> set ms \<Longrightarrow> P k \<Longrightarrow> P (snd (helm_Run env (info_namespace m) (info_name m) k))"
    and "\<And>m k. m \<in> set ms \<Longrightarrow> P k \<Longrightarrow> deleteNamespace d \<Longrightarrow> P (snd (delete_namespace (kube env) (info_namespace m) k))"
    and "\<And>k. P k \<Longrightarrow> deleteClusterWideResources d \<Longrightarrow> P (snd (delete_crd (kube env) ''ecnetconfigs.config.flomesh.io'' k))"
  shows "P k'"
proof -
  obtain r1 o1 k1 where all: "uninstall_all env d ms k = (r1, o1, k1)" by (rule prod_cases3)
  have P1: "P k1" by (rule uninstall_all_keeps [of env d ms k r1 o1 k1 P, OF all assms(2)]) (simp_all add: assms(3,4))
  show ?thesis
  proof (cases r1)
    case None
    obtain r2 o2 k2 where res: "deleteClusterResources env d k1 = (r2, o2, k2)" by (rule prod_cases3)
    have "P k2" by (rule deleteClusterResources_keeps [of env d k1 r2 o2 k2 P, OF res P1]) (rule assms(5))
    with None all res assms(1) show ?thesis by (simp add: uninstall_then_resources_def with_output_def)
  qed (use all assms(1) P1 in \<open>simp add: uninstall_then_resources_def\<close>)
qed

text \<open>What the command does to the cluster: nothing, only to delete the cluster's resources, or to remove chosen meshes.\<close>

lemma specified_found: "ecnetSpecified d \<longrightarrow> findEcnet d infos \<Longrightarrow> ecnetName d \<noteq> [] \<longrightarrow> ecnetName d \<in> info_name ` set infos"
  by (force simp: ecnetSpecified_def findEcnet_def list_ex_iff)

lemma chosen_forced:
  assumes "infos \<noteq> []" and "ecnetSpecified d \<longrightarrow> findEcnet d infos" and "force d"
  shows "chosen False d infos qs (info_namespace (forceEcnet d infos)) (info_name (forceEcnet d infos))"
proof -
  have "ecnetName d \<noteq> [] \<longrightarrow> ecnetName d \<in> info_name ` set infos" by (rule specified_found [OF assms(2)])
  moreover have "(\<exists>m. infos = [m]) \<or> length infos \<ge> 2" using assms(1) by (cases infos; cases "tl infos") auto
  ultimately show ?thesis using assms(3) by (auto simp: chosen_def forceEcnet_def split: list.splits)
qed

lemma chosen_confirmed:
  assumes "promptEcnetUninstall d infos [] stdin = (Some ms, out, rest)" and "conversation d infos qs stdin"
    and "ecnetSpecified d \<longrightarrow> findEcnet d infos" and "\<not> force d" and "m \<in> set ms"
  shows "chosen False d infos qs (info_namespace m) (info_name m)"
proof -
  have "ecnetName d \<noteq> [] \<longrightarrow> ecnetName d \<in> info_name ` set infos" by (rule specified_found [OF assms(3)])
  moreover obtain n more where typed: "stdin = take n (concat (map snd qs) @ more)" using assms(2) by (auto simp: conversation_def)
  have "ms = map fst (filter (\<lambda>(m, ls). says_yes ls) qs)"
    using prompt_conversation [of qs d infos "[]" n more] assms(1,2) unfolding conversation_def typed by (auto split: if_splits)
  with assms(5) obtain ls where "(m, ls) \<in> set qs" "says_yes ls" by auto
  ultimately show ?thesis using assms(4) by (auto simp: chosen_def intro!: exI [of _ m] exI [of _ ls])
qed

lemma uninstall_run_cases:
  assumes "uninstall_run env d stdin k = (r, out, k')" and infos: "getEcnetInfoList (kube env) k = Inr infos"
    and talk: "force d \<or> conversation d infos qs stdin"
  obtains (nothing) "k' = k"
  | (resources) out' where "IsManaged env" "deleteClusterResources env d k = (r, out', k')"
  | (meshes) ms out' where "\<forall>m \<in> set ms. chosen (IsManaged env) d infos qs (info_namespace m) (info_name m)"
      "uninstall_then_resources env d ms k = (r, out', k')"
proof (cases "IsManaged env")
  case True
  then show ?thesis
    using assms(1) resources [of "fst (snd (deleteClusterResources env d k))"] by (simp add: uninstall_run_def with_output_def prod_eq_iff)
next
  case managed: False
  show ?thesis
  proof (cases "infos = [] \<or> ecnetSpecified d \<and> \<not> findEcnet d infos")
    case True
    with infos managed assms(1) have "k' = k" by (cases "infos = []") (auto simp: uninstall_run_def findSpecifiedEcnet_def)
    then show ?thesis by (rule nothing)
  next
    case found: False
    show ?thesis
    proof (cases "force d")
      case True
      with found infos managed assms(1) have "uninstall_then_resources env d [forceEcnet d infos] k = (r, out, k')"
        by (auto simp: uninstall_run_def findSpecifiedEcnet_def split: if_splits)
      with True found managed show ?thesis using meshes [of "[forceEcnet d infos]" out] chosen_forced [of infos d qs] by auto
    next
      case False
      obtain e o1 where print: "printEcnets (kube env) k = (e, o1)" by fastforce
      obtain p o2 s2 where prompt: "promptEcnetUninstall d infos [] stdin = (p, o2, s2)" by (rule prod_cases3)
      show ?thesis
      proof (cases "e = None \<and> p \<noteq> None")
        case True
        then obtain ms where ms: "e = None" "p = Some ms" by auto
        with False found infos managed assms(1) print prompt
        have "with_output (o1 @ o2) (uninstall_then_resources env d ms k) = (r, out, k')"
          by (auto simp: uninstall_run_def findSpecifiedEcnet_def split: if_splits)
        then have "uninstall_then_resources env d ms k = (r, fst (snd (uninstall_then_resources env d ms k)), k')"
          by (auto simp: with_output_def prod_eq_iff)
        moreover have "\<forall>m \<in> set ms. chosen (IsManaged env) d infos qs (info_namespace m) (info_name m)"
          using chosen_confirmed [OF prompt [unfolded ms(2)]] talk False found managed by auto
        ultimately show ?thesis by (rule meshes [rotated])
      next
        case nothing': False
        with False found infos managed assms(1) print prompt have "k' = k"
          by (auto simp: uninstall_run_def findSpecifiedEcnet_def split: if_splits option.splits)
        then show ?thesis by (rule nothing)
      qed
    qed
  qed
qed

lemma listed_meshes:
  assumes "api_contract api nss deps" and "getEcnetInfoList api k = Inr infos"
  shows "(\<lambda>m. (info_namespace m, info_name m)) ` set infos =
     (\<lambda>dep. (dep_Namespace dep, label (dep_Labels dep) ''ecnetName'')) ` {dep \<in> set (deps k). gmap_get (dep_Labels dep) ''app'' = Some ''ecnet-ctrlplane''}"
proof -
  obtain items where "list_deployments api [] (equals_selector AppLabel ECNETControllerName) k = (items, None)"
    and infos: "infos = map (ecnet_info api k) items"
    using assms(2) by (auto simp: getEcnetInfoList_def getControllerDeployments_def split: prod.splits option.splits)
  from list_law [OF assms(1) this(1)] have "set items = {dep \<in> set (deps k). gmap_get (dep_Labels dep) AppLabel = Some ECNETControllerName}" by auto
  then have "set items = {dep \<in> set (deps k). gmap_get (dep_Labels dep) ''app'' = Some ''ecnet-ctrlplane''}"
    by (simp add: AppLabel_def ECNETControllerName_def)
  then show ?thesis by (simp add: infos image_image ecnet_info_def Let_def)
qed

text \<open>C23. Removing meshes touches only what was chosen: a property of the cluster holds after the command, whatever lines were typed and however it
  ended, if it is kept by the removal of the releases that were chosen, by the deletion of their namespaces if that was asked for, and by
  the deletion of the resource definition if that was asked for. Without \<open>--force\<close>, a release is chosen when the user, asked about
  its mesh, answered \<open>y\<close> within three lines; with it, when it is the only mesh or the one that the flags name; in a managed environment none is.
  The meshes are those of the deployments with the control plane's label.\<close>

theorem uninstall_touches_chosen:
  assumes "uninstall_run env d stdin k = (r, out, k')" and "getEcnetInfoList (kube env) k = Inr infos"
    and "force d \<or> conversation d infos qs stdin" and "api_contract (kube env) nss deps" and "P k"
    and "\<forall>ns name k'. chosen (IsManaged env) d infos qs ns name \<longrightarrow> P k' \<longrightarrow> P (snd (helm_Run env ns name k'))"
    and "\<forall>ns name k'. chosen (IsManaged env) d infos qs ns name \<longrightarrow> P k' \<longrightarrow> deleteNamespace d \<longrightarrow> P (snd (delete_namespace (kube env) ns k'))"
    and "\<forall>k'. P k' \<longrightarrow> deleteClusterWideResources d \<longrightarrow> P (snd (delete_crd (kube env) ''ecnetconfigs.config.flomesh.io'' k'))"
  shows "P k' \<and> (\<lambda>m. (info_namespace m, info_name m)) ` set infos =
     (\<lambda>dep. (dep_Namespace dep, label (dep_Labels dep) ''ecnetName'')) ` {dep \<in> set (deps k). gmap_get (dep_Labels dep) ''app'' = Some ''ecnet-ctrlplane''}"
proof (rule conjI [OF _ listed_meshes [OF assms(4,2)]])
  from assms(1-3) show "P k'"
  proof (cases rule: uninstall_run_cases)
    case nothing
    with assms(5) show ?thesis by simp
  next
    case (resources out')
    show ?thesis by (rule deleteClusterResources_keeps [of env d k r out' k' P, OF resources(2) assms(5)]) (use assms(8) in blast)
  next
    case (meshes ms out')
    show ?thesis
      by (rule then_resources_keeps [of env d ms k r out' k' P, OF meshes(2) assms(5)]) (use assms(6-8) meshes(1) in blast)+
  qed
qed

section \<open>A cluster with two meshes\<close>

definition memory_env :: "memory_cluster uninstall_env" where
  "memory_env =
     \<lparr>kube = memory_api, helm_Init = (\<lambda>_ _. None),
      helm_Run = (\<lambda>ns name m.
        let release = (\<lambda>d. dep_Namespace d = ns \<and> label (dep_Labels d) ''ecnetName'' = name) in
        if list_ex release (mem_deployments m) then (None, m\<lparr>mem_deployments := filter (\<lambda>d. \<not> release d) (mem_deployments m)\<rparr>)
        else (Some (ErrReleaseNotFound ''release: not found''), m)),
      api_text = (\<lambda>_. []), IsManaged = False\<rparr>"

definition two_meshes :: memory_cluster where
  "two_meshes = empty_cluster\<lparr>mem_deployments := [sample_install ''a'', sample_install ''b'']\<rparr>"

definition ask_each :: uninstall_cmd where
  "ask_each = \<lparr>ecnetName = [], ecnetNamespace = ''ecnet-system'', force = False, deleteNamespace = False, deleteClusterWideResources = False\<rparr>"

text \<open>The first mesh is kept, after an answer that is not understood; the second is removed.\<close>

definition typed :: "string list" where
  "typed = [''maybe'' @ newline, ''n'' @ newline, ''Y'' @ newline]"

definition mesh_in :: "string \<Rightarrow> ecnetInfo" where
  "mesh_in n = \<lparr>info_name = ''ecnet'', info_namespace = n, info_version = ''Unknown'', info_monitoredNamespaces = []\<rparr>"

definition typed_answers :: "(ecnetInfo \<times> string list) list" where
  "typed_answers = [(mesh_in ''a'', [''maybe'' @ newline, ''n'' @ newline]), (mesh_in ''b'', [''Y'' @ newline])]"

lemma two_meshes_facts:
  "getEcnetInfoList memory_api two_meshes = Inr [mesh_in ''a'', mesh_in ''b'']"
  "case uninstall_run memory_env ask_each typed two_meshes of
     (r, _, k') \<Rightarrow> r = None \<and> map dep_Namespace (mem_deployments k') = [''a'']"
  "list_all (\<lambda>(m, ls). is_reply 3 ls) typed_answers" "filter (\<lambda>(m, ls). says_yes ls) typed_answers = [(mesh_in ''b'', [''Y'' @ newline])]"
  "concat (map snd typed_answers) = typed"
  "map fst typed_answers = filter (\<lambda>m. ecnetName ask_each = [] \<or> info_name m = ecnetName ask_each) [mesh_in ''a'', mesh_in ''b'']"
  by code_simp+

text \<open>The same answers in one read, as from a pipe: the first question takes them all, and the command fails before it removes anything.\<close>

lemma piped_answers_are_lost:
  "case uninstall_run memory_env ask_each [concat typed] two_meshes of (r, _, k') \<Rightarrow> r = Some Eof \<and> length (mem_deployments k') = 2"
  by code_simp

lemma sample_conversation: "conversation ask_each [mesh_in ''a'', mesh_in ''b''] typed_answers typed"
  unfolding conversation_def
proof (intro conjI two_meshes_facts(3,6) exI)
  show "typed = take (length typed) (concat (map snd typed_answers) @ [])" by (simp add: two_meshes_facts(5))
qed

theorem uninstall_touches_chosen_witness:
  "\<exists>out k'. uninstall_run memory_env ask_each typed two_meshes = (None, out, k') \<and> sample_install ''a'' \<in> set (mem_deployments k')"
proof -
  obtain r out k' where run: "uninstall_run memory_env ask_each typed two_meshes = (r, out, k')" by (rule prod_cases3)
  with two_meshes_facts(2) have r: "r = None" by simp
  let ?P = "\<lambda>k. sample_install ''a'' \<in> set (mem_deployments k)" and ?infos = "[mesh_in ''a'', mesh_in ''b'']"
  have infos: "getEcnetInfoList (kube memory_env) two_meshes = Inr ?infos" using two_meshes_facts(1) by (simp add: memory_env_def)
  have talk: "force ask_each \<or> conversation ask_each ?infos typed_answers typed" using sample_conversation by simp
  have api: "api_contract (kube memory_env) (\<lambda>m. gmap_get (mem_namespaces m)) mem_deployments"
    using memory_api_contract by (simp add: memory_env_def)
  have "ns = ''b'' \<and> name = ''ecnet''" if "chosen (IsManaged memory_env) ask_each ?infos typed_answers ns name" for ns name
  proof -
    from that obtain m ls where "(m, ls) \<in> set (filter (\<lambda>(m, ls). says_yes ls) typed_answers)" "ns = info_namespace m" "name = info_name m"
      by (auto simp: chosen_def ask_each_def)
    then show ?thesis unfolding two_meshes_facts(4) by (auto simp: mesh_in_def)
  qed
  then have "?P k \<Longrightarrow> ?P (snd (helm_Run memory_env ns name k))" if "chosen (IsManaged memory_env) ask_each ?infos typed_answers ns name" for ns name k
    using that by (auto simp: memory_env_def sample_install_def Let_def)
  then have helm: "\<forall>ns name k. chosen (IsManaged memory_env) ask_each ?infos typed_answers ns name \<longrightarrow> ?P k \<longrightarrow> ?P (snd (helm_Run memory_env ns name k))"
    by blast
  have "?P two_meshes" by (simp add: two_meshes_def)
  from uninstall_touches_chosen [where P = ?P, OF run infos talk api this helm] have "?P k'" by (simp add: ask_each_def)
  with run r show ?thesis by blast
qed

end
