(* ===== verification/Health.thy ===== *)
theory Health
  imports Constants
begin

text \<open>
  \<open>pkg/ecnet/health\<close> and \<open>pkg/ecnet/version\<close>: the handlers for probes of readiness and of liveness, and the one that serves the version. A
  handler's response is its status and its body. The HTTP client of the probes is a parameter.
\<close>

section \<open>Probes\<close>

text \<open>The interface \<open>Probes\<close>, as it answers during one request.\<close>

record Probes =
  Liveness :: bool
  Readiness :: bool
  GetID :: string

record http_client =
  NewRequest :: "string \<Rightarrow> string option"
  client_Do :: "string \<Rightarrow> string + nat"

definition StatusOK :: nat where "StatusOK = 200"

definition StatusServiceUnavailable :: nat where "StatusServiceUnavailable = 503"

text \<open>The code of the response, and the text of the error if there is one.\<close>

definition Probe :: "http_client \<Rightarrow> string \<Rightarrow> nat \<times> string option" where
  "Probe client URL =
     (case NewRequest client URL of
        Some err \<Rightarrow> (StatusServiceUnavailable, Some err)
      | None \<Rightarrow> (case client_Do client URL of Inl err \<Rightarrow> (StatusServiceUnavailable, Some err) | Inr StatusCode \<Rightarrow> (StatusCode, None)))"

type_synonym response = "nat \<times> string"

text \<open>\<open>%s\<close> of an error, which may be nil.\<close>

definition error_verb :: "string option \<Rightarrow> string" where
  "error_verb err = (case err of None \<Rightarrow> ''%!s(<nil>)'' | Some e \<Rightarrow> e)"

section \<open>Handlers\<close>

fun url_probes :: "http_client \<Rightarrow> string \<Rightarrow> string list \<Rightarrow> response option" where
  "url_probes client kind [] = None"
| "url_probes client kind (URL # urlProbes) =
     (case Probe client URL of (responseCode, err) \<Rightarrow>
        if err \<noteq> None \<or> responseCode \<noteq> StatusOK then
          Some (responseCode, kind @ '' probe failed for URL '' @ URL @ '': '' @ error_verb err)
        else url_probes client kind urlProbes)"

definition ReadinessHandler :: "http_client \<Rightarrow> Probes list \<Rightarrow> string list \<Rightarrow> response" where
  "ReadinessHandler client probes urlProbes =
     (case find (\<lambda>p. \<not> Readiness p) probes of
        Some p \<Rightarrow> (StatusServiceUnavailable, ''Readiness probe for '' @ GetID p @ '' indicates it is not ready'')
      | None \<Rightarrow> (case url_probes client ''Readiness'' urlProbes of Some r \<Rightarrow> r | None \<Rightarrow> (StatusOK, ServiceReadyResponse)))"

definition LivenessHandler :: "http_client \<Rightarrow> Probes list \<Rightarrow> string list \<Rightarrow> response" where
  "LivenessHandler client probes urlProbes =
     (case find (\<lambda>p. \<not> Liveness p) probes of
        Some p \<Rightarrow> (StatusServiceUnavailable, ''Liveness probe for '' @ GetID p @ '' indicates it is not alive'')
      | None \<Rightarrow> (case url_probes client ''Liveness'' urlProbes of Some r \<Rightarrow> r | None \<Rightarrow> (StatusOK, ServiceAliveResponse)))"

definition SimpleHandler :: response where
  "SimpleHandler = (StatusOK, ''Health OK'')"

section \<open>The version\<close>

record Info =
  Version :: string
  GitCommit :: string
  BuildDate :: string

text \<open>\<open>json.Marshal\<close> of \<open>Info\<close>: fields in their order, without those that are empty. The texts are the linker's, which have no characters that
  JSON escapes.\<close>

definition json_field :: "string \<Rightarrow> string \<Rightarrow> string list" where
  "json_field name v = (if v = [] then [] else [[CHR 0x22] @ name @ [CHR 0x22] @ '':'' @ [CHR 0x22] @ v @ [CHR 0x22]])"

fun join_comma :: "string list \<Rightarrow> string" where
  "join_comma [] = []"
| "join_comma [s] = s"
| "join_comma (s # t # ts) = s @ '','' @ join_comma (t # ts)"

definition GetVersionHandler :: "Info \<Rightarrow> response" where
  "GetVersionHandler i =
     (StatusOK, ''{'' @ join_comma (json_field ''version'' (Version i) @ json_field ''git_commit'' (GitCommit i) @ json_field ''build_date'' (BuildDate i)) @ ''}'')"

section \<open>What the status says\<close>

definition url_ok :: "http_client \<Rightarrow> string \<Rightarrow> bool" where
  "url_ok client URL \<longleftrightarrow> NewRequest client URL = None \<and> client_Do client URL = Inr StatusOK"

lemma Probe_ok: "fst (Probe client URL) = StatusOK \<longleftrightarrow> url_ok client URL"
  by (auto simp: Probe_def url_ok_def StatusOK_def StatusServiceUnavailable_def split: option.splits sum.splits)

lemma Probe_err: "snd (Probe client URL) \<noteq> None \<Longrightarrow> fst (Probe client URL) = StatusServiceUnavailable"
  by (auto simp: Probe_def split: option.splits sum.splits)

lemma url_probes_None: "url_probes client kind urls = None \<longleftrightarrow> (\<forall>u \<in> set urls. url_ok client u)"
proof (induction urls)
  case (Cons u urls)
  then show ?case
    using Probe_ok [of client u] Probe_err [of client u]
    by (cases "Probe client u") (auto simp: StatusOK_def StatusServiceUnavailable_def)
qed simp

lemma url_probes_Some: "url_probes client kind urls = Some (c, msg) \<Longrightarrow> c \<noteq> StatusOK"
proof (induction urls)
  case (Cons u urls)
  then show ?case
    using Probe_err [of client u]
    by (cases "Probe client u") (auto simp: StatusOK_def StatusServiceUnavailable_def split: if_splits)
qed simp

lemma handler_status:
  assumes "r = (case find (\<lambda>p. \<not> Q p) probes of Some p \<Rightarrow> (StatusServiceUnavailable, f p)
     | None \<Rightarrow> (case url_probes client kind urls of Some r \<Rightarrow> r | None \<Rightarrow> (StatusOK, body)))"
  shows "fst r = StatusOK \<longleftrightarrow> (\<forall>p \<in> set probes. Q p) \<and> (\<forall>u \<in> set urls. url_ok client u)"
proof (cases "find (\<lambda>p. \<not> Q p) probes")
  case None
  then have all: "\<forall>p \<in> set probes. Q p" by (auto simp: find_None_iff)
  show ?thesis
  proof (cases "url_probes client kind urls")
    case Nothing: None
    with None assms all url_probes_None [of client kind urls] show ?thesis by simp
  next
    case (Some r')
    then obtain c msg where r': "r' = (c, msg)" "c \<noteq> StatusOK" using url_probes_Some by (cases r') blast
    with Some None assms url_probes_None [of client kind urls] show ?thesis by auto
  qed
next
  case (Some p)
  then have "\<exists>p \<in> set probes. \<not> Q p" by (auto simp: find_Some_iff)
  with Some assms show ?thesis by (auto simp: StatusOK_def StatusServiceUnavailable_def)
qed

text \<open>The probes' handlers answer with the status 200 exactly when every component is ready (or alive) and every URL answers with 200.\<close>

theorem health_status:
  "(fst (ReadinessHandler client probes urlProbes) = StatusOK \<longleftrightarrow> (\<forall>p \<in> set probes. Readiness p) \<and> (\<forall>u \<in> set urlProbes. url_ok client u)) \<and>
   (fst (LivenessHandler client probes urlProbes) = StatusOK \<longleftrightarrow> (\<forall>p \<in> set probes. Liveness p) \<and> (\<forall>u \<in> set urlProbes. url_ok client u))"
  using handler_status [OF ReadinessHandler_def] handler_status [OF LivenessHandler_def] by blast

text \<open>A URL that answers with another success, such as 204, fails the probe; but the handler passes the status on, and the orchestrator, for
  which every status from 200 to 399 is a success, takes it as one.\<close>

lemma other_success_is_passed_on:
  "NewRequest client u = None \<Longrightarrow> client_Do client u = Inr 204 \<Longrightarrow>
   ReadinessHandler client [] [u] = (204, ''Readiness probe failed for URL '' @ u @ '': %!s(<nil>)'')"
  by (simp add: ReadinessHandler_def Probe_def StatusOK_def error_verb_def)

definition sample_client :: http_client where
  "sample_client = \<lparr>NewRequest = (\<lambda>_. None), client_Do = (\<lambda>u. if u = ''a'' then Inr 200 else Inr 204)\<rparr>"

definition sample_probe :: Probes where
  "sample_probe = \<lparr>Liveness = True, Readiness = True, GetID = ''x''\<rparr>"

theorem health_status_witness:
  "fst (ReadinessHandler sample_client [sample_probe] [''a'', ''b'']) \<noteq> StatusOK \<and> fst (LivenessHandler sample_client [sample_probe] [''a'']) = StatusOK"
  using health_status [of sample_client "[sample_probe]" "[''a'', ''b'']"] health_status [of sample_client "[sample_probe]" "[''a'']"]
  by (simp add: url_ok_def sample_client_def sample_probe_def StatusOK_def)

end
