(* ===== verification/VersionCmd.thy ===== *)
theory VersionCmd
  imports Uninstall Health
begin

text \<open>
  \<open>cmd/ecnet/cli/version.go\<close>: the command that asks every mesh of the cluster for the version of its control plane, through the API server, which
  is a parameter, as is \<open>json.Unmarshal\<close> of the answer. The question for the latest release, to a service outside, is the
  parameter \<open>latest\<close>.
\<close>

section \<open>The command\<close>

record pod =
  pod_Name :: string
  pod_Labels :: "(string, string) gomap"

record 'k version_env =
  version_kube :: "'k kube_api"
  list_pods :: "string \<Rightarrow> string \<Rightarrow> 'k \<Rightarrow> api_error + pod list"
  ProxyGet :: "string \<Rightarrow> string \<Rightarrow> nat \<Rightarrow> string \<Rightarrow> 'k \<Rightarrow> api_error + string"
  Unmarshal_Info :: "string \<Rightarrow> Info option"
  latest :: "'k \<Rightarrow> cli_error option"
  version_IsManaged :: bool

record remoteVersionInfo =
  rv_ecnetName :: string
  rv_namespace :: string
  rv_version :: "Info option"

definition getControllerPods :: "'k version_env \<Rightarrow> string \<Rightarrow> 'k \<Rightarrow> api_error + pod list" where
  "getControllerPods env namespace k = list_pods env namespace (equals_selector AppLabel ECNETControllerName) k"

definition pod_text :: "string \<Rightarrow> string \<Rightarrow> string" where
  "pod_text pod namespace = ''['' @ pod @ ''] in namespace ['' @ namespace @ '']''"

definition proxyGetEcnetVersion :: "'k version_env \<Rightarrow> string \<Rightarrow> string \<Rightarrow> 'k \<Rightarrow> cli_error + Info" where
  "proxyGetEcnetVersion env pod namespace k =
     (case ProxyGet env namespace pod ECNETHTTPServerPort VersionPath k of
        Inl e \<Rightarrow> Inl (CliError (''Error retrieving mesh version from pod '' @ pod_text pod namespace) (Some e))
      | Inr resp \<Rightarrow>
          if length resp = 0 then Inl (CliError (''Empty response received from pod '' @ pod_text pod namespace @ '': %!w(<nil>)'') None)
          else case Unmarshal_Info env resp of
            None \<Rightarrow> Inl (CliError (''Error unmarshalling retrieved mesh version from pod '' @ pod_text pod namespace) None)
          | Some versionInfo \<Rightarrow> Inr versionInfo)"

definition getEcnetVersion :: "'k version_env \<Rightarrow> string \<Rightarrow> 'k \<Rightarrow> cli_error + remoteVersionInfo" where
  "getEcnetVersion env namespace k =
     (case getControllerPods env namespace k of
        Inl e \<Rightarrow> Inl (CliError [] (Some e))
      | Inr [] \<Rightarrow> Inr \<lparr>rv_ecnetName = [], rv_namespace = [], rv_version = None\<rparr>
      | Inr (controllerPod # _) \<Rightarrow>
          (case proxyGetEcnetVersion env (pod_Name controllerPod) namespace k of
             Inl e \<Rightarrow> Inl e
           | Inr version \<Rightarrow> Inr \<lparr>rv_ecnetName = label (pod_Labels controllerPod) ECNETAppInstanceLabelKey, rv_namespace = namespace,
               rv_version = Some version\<rparr>))"

text \<open>A row of the table; reading the version of an entry without one panics.\<close>

definition version_row :: "remoteVersionInfo \<Rightarrow> string outcome" where
  "version_row r =
     (case rv_version r of
        None \<Rightarrow> Panics
      | Some i \<Rightarrow> Returns (strings_Join tab [rv_ecnetName r, rv_namespace r, Version i, GitCommit i, BuildDate i] @ newline))"

fun version_rows :: "remoteVersionInfo option list \<Rightarrow> string outcome" where
  "version_rows [] = Returns []"
| "version_rows (r # rs) =
     (case r of
        Some i \<Rightarrow> if rv_ecnetName i \<noteq> [] then outcome_bind (version_row i) (\<lambda>row. outcome_bind (version_rows rs) (\<lambda>rows. Returns (row @ rows)))
          else version_rows rs
      | None \<Rightarrow> version_rows rs)"

definition outputPrettyVersionInfo :: "remoteVersionInfo option list \<Rightarrow> string outcome" where
  "outputPrettyVersionInfo remoteVerList =
     (if length remoteVerList = 0 then Returns (''Unable to find ECNET control plane in the cluster'' @ newline)
      else outcome_bind (version_rows remoteVerList)
        (\<lambda>rows. Returns (newline @ strings_Join tab [''ECNET NAME'', ''ECNET NAMESPACE'', ''VERSION'', ''GIT COMMIT'', ''BUILD DATE''] @ newline @ rows)))"

definition version_error :: "ecnetInfo \<Rightarrow> cli_error \<Rightarrow> cli_error" where
  "version_error m e = (case e of CliError msg w \<Rightarrow>
     CliError (''Failed to get mesh version for mesh '' @ info_name m @ '' in namespace '' @ info_namespace m @ '': '' @ msg) w)"

text \<open>The loop over the meshes: the entries of the table, nil where there was an error, and the errors.\<close>

definition remote_versions :: "'k version_env \<Rightarrow> ecnetInfo list \<Rightarrow> 'k \<Rightarrow> remoteVersionInfo option list \<times> cli_error list" where
  "remote_versions env ms k =
     fold (\<lambda>m (infos, errs). case getEcnetVersion env (info_namespace m) k of
         Inl e \<Rightarrow> (infos @ [None], errs @ [version_error m e])
       | Inr v \<Rightarrow> (infos @ [Some v], errs)) ms ([], [])"

text \<open>The errors that are returned together (none: success), and the table.\<close>

definition version_run :: "'k version_env \<Rightarrow> bool \<Rightarrow> bool \<Rightarrow> 'k \<Rightarrow> (cli_error list \<times> string) outcome" where
  "version_run env clientOnly versionOnly k =
     (if clientOnly then Returns ([], [])
      else case getEcnetInfoList (version_kube env) k of
        Inl (CliError msg e) \<Rightarrow> Returns ([CliError (''unable to list meshes within the cluster: '' @ msg) e], [])
      | Inr ecnetInfoList \<Rightarrow>
          (case remote_versions env ecnetInfoList k of (infos, errs) \<Rightarrow>
             outcome_bind (outputPrettyVersionInfo infos) (\<lambda>table.
               Returns (errs @ (if \<not> version_IsManaged env \<and> \<not> versionOnly then (case latest env k of None \<Rightarrow> [] | Some e \<Rightarrow> [e]) else []), table))))"

section \<open>Every mesh is accounted for\<close>

lemma remote_versions_eq:
  "remote_versions env ms k = (map (\<lambda>m. case getEcnetVersion env (info_namespace m) k of Inl _ \<Rightarrow> None | Inr v \<Rightarrow> Some v) ms,
     concat (map (\<lambda>m. case getEcnetVersion env (info_namespace m) k of Inl e \<Rightarrow> [version_error m e] | Inr _ \<Rightarrow> []) ms))"
proof -
  have "fold (\<lambda>m (infos, errs). case getEcnetVersion env (info_namespace m) k of
      Inl e \<Rightarrow> (infos @ [None], errs @ [version_error m e]) | Inr v \<Rightarrow> (infos @ [Some v], errs)) ms (i0, e0) =
    (i0 @ map (\<lambda>m. case getEcnetVersion env (info_namespace m) k of Inl _ \<Rightarrow> None | Inr v \<Rightarrow> Some v) ms,
     e0 @ concat (map (\<lambda>m. case getEcnetVersion env (info_namespace m) k of Inl e \<Rightarrow> [version_error m e] | Inr _ \<Rightarrow> []) ms))" for i0 e0
    by (induction ms arbitrary: i0 e0) (auto split: sum.splits)
  then show ?thesis by (simp add: remote_versions_def)
qed

lemma getEcnetVersion_named: "getEcnetVersion env ns k = Inr v \<Longrightarrow> rv_ecnetName v \<noteq> [] \<Longrightarrow> rv_version v \<noteq> None"
  by (auto simp: getEcnetVersion_def split: sum.splits list.splits)

lemma version_rows_returns:
  "\<forall>v. Some v \<in> set rs \<longrightarrow> rv_ecnetName v \<noteq> [] \<longrightarrow> rv_version v \<noteq> None \<Longrightarrow> \<exists>rows. version_rows rs = Returns rows"
proof (induction rs)
  case (Cons r rs)
  then obtain rows where rows: "version_rows rs = Returns rows" by auto
  show ?case
  proof (cases r)
    case (Some v)
    then show ?thesis using Cons.prems rows by (cases "rv_version v") (auto simp: version_row_def)
  qed (use rows in simp)
qed simp

text \<open>The command never panics on an entry without a version, and a mesh that could not be asked is an error of its result.\<close>

lemma version_run_accounts:
  assumes "getEcnetInfoList (version_kube env) k = Inr ms"
  shows "\<exists>errs table. version_run env False True k = Returns (errs, table) \<and>
    length errs = length (filter (\<lambda>m. \<exists>e. getEcnetVersion env (info_namespace m) k = Inl e) ms)"
proof -
  let ?infos = "map (\<lambda>m. case getEcnetVersion env (info_namespace m) k of Inl _ \<Rightarrow> None | Inr v \<Rightarrow> Some v) ms"
  have "\<exists>rows. version_rows ?infos = Returns rows"
    by (rule version_rows_returns) (auto split: sum.splits dest: getEcnetVersion_named)
  then have "\<exists>table. outputPrettyVersionInfo ?infos = Returns table" by (auto simp: outputPrettyVersionInfo_def)
  then obtain table where "outputPrettyVersionInfo ?infos = Returns table" by blast
  moreover have "length (concat (map (\<lambda>m. case getEcnetVersion env (info_namespace m) k of Inl e \<Rightarrow> [version_error m e] | Inr _ \<Rightarrow> []) ms)) =
      length (filter (\<lambda>m. \<exists>e. getEcnetVersion env (info_namespace m) k = Inl e) ms)"
    by (induction ms) (auto split: sum.splits)
  ultimately show ?thesis using assms by (simp add: version_run_def remote_versions_eq)
qed

end
