(* ===== verification/Install.thy ===== *)
theory Install
  imports VersionCmd
begin

text \<open>
  \<open>cmd/ecnet/cli/install.go\<close>, \<open>ecnet_upgrade.go\<close> and \<open>pkg/ecnet/cli/environment.go\<close>: the values with which Helm installs and upgrades a mesh, and the
  settings of the command line. Helm, its loader and its parser of values are parameters. The spinner, which only shows
  progress while Helm runs, is left out.
\<close>

section \<open>Settings\<close>

record EnvConfigInstall =
  env_Kind :: string
  env_Distribution :: string
  env_Namespace :: string

definition installKindManaged :: string where "installKindManaged = ''managed''"

definition installKindSelfHosted :: string where "installKindSelfHosted = ''self-hosted''"

definition defaultECNETNamespace :: string where "defaultECNETNamespace = ''ecnet-system''"

text \<open>The operating system: a variable, the home directory, whether a file is missing, and the decoding of a file.\<close>

record operating_system =
  LookupEnv :: "string \<Rightarrow> string option"
  UserHomeDir :: "string + string"
  missing :: "string \<Rightarrow> bool"
  decode_file :: "string \<Rightarrow> string + EnvConfigInstall"

text \<open>\<open>path.Join\<close>, for a home directory without a slash at its end.\<close>

definition config_path :: "string \<Rightarrow> string" where
  "config_path homeDir = homeDir @ ''/.ecnet/config.yaml''"

definition envFromConfig :: "operating_system \<Rightarrow> string + EnvConfigInstall" where
  "envFromConfig os =
     (case (case LookupEnv os ''ECNET_CONFIG'' of
              Some configFile \<Rightarrow> Inr configFile
            | None \<Rightarrow> (case UserHomeDir os of Inl err \<Rightarrow> Inl err | Inr homeDir \<Rightarrow> Inr (config_path homeDir))) of
        Inl err \<Rightarrow> Inl err
      | Inr configFile \<Rightarrow>
          if missing os configFile then
            Inr \<lparr>env_Kind = installKindSelfHosted, env_Distribution = [], env_Namespace = defaultECNETNamespace\<rparr>
          else decode_file os configFile)"

definition settings_IsManaged :: "EnvConfigInstall \<Rightarrow> bool" where
  "settings_IsManaged e \<longleftrightarrow> env_Kind e = installKindManaged"

section \<open>Values\<close>

text \<open>\<open>strvals.ParseInto\<close>: the text of an error, or the values after one assignment.\<close>

type_synonym 'v parser = "string \<Rightarrow> 'v \<Rightarrow> string + 'v"

fun parseVal :: "'v parser \<Rightarrow> string list \<Rightarrow> 'v \<Rightarrow> string + 'v" where
  "parseVal ParseInto [] parsedVals = Inr parsedVals"
| "parseVal ParseInto (v # vals) parsedVals =
     (case ParseInto v parsedVals of Inl err \<Rightarrow> Inl err | Inr parsedVals \<Rightarrow> parseVal ParseInto vals parsedVals)"

record installCmd =
  chartPath :: string
  inst_ecnetName :: string
  setOptions :: "string list"
  atomic :: bool
  enforceSingleEcnet :: bool
  disableSpinner :: bool

definition bool_text :: "bool \<Rightarrow> string" where
  "bool_text b = (if b then ''true'' else ''false'')"

definition resolveValues :: "'v parser \<Rightarrow> 'v \<Rightarrow> installCmd \<Rightarrow> string + 'v" where
  "resolveValues ParseInto none i =
     (case parseVal ParseInto (setOptions i) none of
        Inl err \<Rightarrow> Inl (''invalid format for --set: '' @ err)
      | Inr finalValues \<Rightarrow>
          parseVal ParseInto [''ecnet.ecnetName='' @ inst_ecnetName i, ''ecnet.enforceSingleEcnet='' @ bool_text (enforceSingleEcnet i)] finalValues)"

definition upgrade_resolveValues :: "'v parser \<Rightarrow> 'v \<Rightarrow> string list \<Rightarrow> string + 'v" where
  "upgrade_resolveValues ParseInto none options =
     (case parseVal ParseInto options none of Inl err \<Rightarrow> Inl (''invalid format for --set: '' @ err) | Inr vals \<Rightarrow> Inr vals)"

section \<open>The commands\<close>

text \<open>Helm's installation of a release (its name, namespace, chart and values; the namespace is created, and Helm waits), and its upgrade, for
  which \<open>reset\<close> drops the values of the release. An error is its text.\<close>

record ('k, 'v, 'c) helm_client =
  load_path :: "string \<Rightarrow> string + 'c"
  load_embedded :: "string + 'c"
  ParseInto :: "'v parser"
  no_values :: 'v
  run_install :: "string \<Rightarrow> string \<Rightarrow> bool \<Rightarrow> 'c \<Rightarrow> 'v \<Rightarrow> 'k \<Rightarrow> string option \<times> 'k"
  run_upgrade :: "string \<Rightarrow> bool \<Rightarrow> 'c \<Rightarrow> 'v \<Rightarrow> 'k \<Rightarrow> string option \<times> 'k"

definition loadECNETChart :: "('k, 'v, 'c) helm_client \<Rightarrow> string \<Rightarrow> string + 'c" where
  "loadECNETChart h path =
     (case (if path \<noteq> [] then load_path h path else load_embedded h) of
        Inl err \<Rightarrow> Inl (''error loading chart for installation: '' @ err)
      | Inr chart \<Rightarrow> Inr chart)"

text \<open>The error, what is printed at the end, and the state of the cluster. With \<open>verbose\<close>, a failure also prints the status of the pods, which
  is left out.\<close>

definition install_run :: "('k, 'v, 'c) helm_client \<Rightarrow> string \<Rightarrow> installCmd \<Rightarrow> 'k \<Rightarrow> string option \<times> string list \<times> 'k" where
  "install_run h namespace i k =
     (case loadECNETChart h (chartPath i) of
        Inl err \<Rightarrow> (Some err, [], k)
      | Inr chart \<Rightarrow>
          (case resolveValues (ParseInto h) (no_values h) i of
             Inl err \<Rightarrow> (Some err, [], k)
           | Inr values \<Rightarrow>
               (case run_install h (inst_ecnetName i) namespace (atomic i) chart values k of
                  (Some err, k) \<Rightarrow> (Some err, [], k)
                | (None, k) \<Rightarrow>
                    (None, [''ECNET installed successfully in namespace ['' @ namespace @ ''] with ecnet name ['' @ inst_ecnetName i @ '']''], k))))"

definition upgrade_run :: "('k, 'v, 'c) helm_client \<Rightarrow> string \<Rightarrow> string \<Rightarrow> string \<Rightarrow> string list \<Rightarrow> 'k \<Rightarrow> string option \<times> string list \<times> 'k" where
  "upgrade_run h namespace path name options k =
     (case (if path \<noteq> [] then load_path h path else load_embedded h) of
        Inl err \<Rightarrow> (Some err, [], k)
      | Inr chart \<Rightarrow>
          (case upgrade_resolveValues (ParseInto h) (no_values h) options of
             Inl err \<Rightarrow> (Some err, [], k)
           | Inr values \<Rightarrow>
               (case run_upgrade h name True chart values k of
                  (Some err, k) \<Rightarrow> (Some err, [], k)
                | (None, k) \<Rightarrow> (None, [''ECNET successfully upgraded ecnet ['' @ name @ ''] in namespace ['' @ namespace @ '']''], k))))"

section \<open>The flags decide\<close>

text \<open>What is documented of the parser: an assignment that it accepts sets its key, and no other key that is neither above nor below it.
  \<open>look\<close> reads the value of a key.\<close>

definition parser_contract :: "'v parser \<Rightarrow> ('v \<Rightarrow> string \<Rightarrow> string option) \<Rightarrow> bool" where
  "parser_contract parse look \<longleftrightarrow>
     (\<forall>key v m m'. plain key \<longrightarrow> plain v \<longrightarrow> parse (key @ ''='' @ v) m = Inr m' \<longrightarrow>
        look m' key = Some v \<and> (\<forall>key'. \<not> has_prefix key key' \<longrightarrow> \<not> has_prefix key' key \<longrightarrow> look m' key' = look m key'))"

lemma plain_bool_text: "plain (bool_text b)"
proof -
  have "plain (bool_text True)" "plain (bool_text False)" by code_simp+
  then show ?thesis by (cases b) simp_all
qed

lemma value_keys:
  "plain ''ecnet.ecnetName''" "plain ''ecnet.enforceSingleEcnet''"
  "\<not> has_prefix ''ecnet.enforceSingleEcnet'' ''ecnet.ecnetName''" "\<not> has_prefix ''ecnet.ecnetName'' ''ecnet.enforceSingleEcnet''"
  by code_simp+

text \<open>Whatever \<open>--set\<close> says, the values that Helm gets have the name and the choice of the flags; so the labels of the chart's deployment
  are those of the release.\<close>

lemma install_flags_win:
  assumes "parser_contract parse look" and "plain (inst_ecnetName i)" and "resolveValues parse none i = Inr values"
  shows "look values ''ecnet.ecnetName'' = Some (inst_ecnetName i) \<and> look values ''ecnet.enforceSingleEcnet'' = Some (bool_text (enforceSingleEcnet i))"
proof -
  obtain m0 m1 where m: "parse (''ecnet.ecnetName'' @ ''='' @ inst_ecnetName i) m0 = Inr m1"
      "parse (''ecnet.enforceSingleEcnet'' @ ''='' @ bool_text (enforceSingleEcnet i)) m1 = Inr values"
    using assms(3) by (auto simp: resolveValues_def split: sum.splits)
  have step: "look m' key = Some v \<and> (\<forall>key'. \<not> has_prefix key key' \<longrightarrow> \<not> has_prefix key' key \<longrightarrow> look m' key' = look m key')"
    if "parse (key @ ''='' @ v) m = Inr m'" "plain key" "plain v" for key v m m'
    using assms(1) that unfolding parser_contract_def by blast
  from step [OF m(1) value_keys(1) assms(2)] step [OF m(2) value_keys(2) plain_bool_text] value_keys(3,4) show ?thesis by auto
qed

text \<open>A failed installation reports Helm's error, and only a successful one says so.\<close>

lemma install_reports: "install_run h namespace i k = (err, out, k') \<Longrightarrow> (err = None \<longleftrightarrow> out \<noteq> [])"
  by (auto simp: install_run_def split: sum.splits prod.splits option.splits)

text \<open>An upgrade without \<open>--set\<close> gives Helm no values and tells it to drop those of the release.\<close>

lemma upgrade_forgets_values:
  assumes "(if path \<noteq> [] then load_path h path else load_embedded h) = Inr chart"
  shows "snd (snd (upgrade_run h namespace path name [] k)) = snd (run_upgrade h name True chart (no_values h) k)"
  by (simp add: upgrade_run_def upgrade_resolveValues_def assms split: prod.split option.split)

end
