(* ===== verification/Bootstrap.thy ===== *)
theory Bootstrap
  imports K8sTypes KubeApi
begin

text \<open>
  \<open>cmd/ecnet/ecnet-bootstrap\<close> and \<open>k8s/events/events.go\<close>: the program that installs the custom resource definitions and the first configuration
  object, and the recorder through which a program reports a fatal error. The files, the decoders, the API server and
  kubectl's annotation are parameters; \<open>boot_contract\<close> states what is documented of them.
\<close>

section \<open>Objects and operations\<close>

datatype conversion = NoneConverter | WebhookConverter

text \<open>A definition: the specification apart from the conversion is kept as the text that it was decoded from.\<close>

record crd =
  crd_Name :: string
  crd_Labels :: "(string, string) gomap option"
  crd_Annotations :: "(string, string) gomap"
  crd_Spec :: string
  crd_Conversion :: "conversion option"

record config_object = EcnetConfig +
  ec_Kind :: string
  ec_APIVersion :: string
  ec_Annotations :: "(string, string) gomap"

definition LastAppliedConfigAnnotation :: string where
  "LastAppliedConfigAnnotation = ''kubectl.kubernetes.io/last-applied-configuration''"

text \<open>\<open>Glob\<close> is that of the directory \<open>/ecnet-crds\<close>; \<open>annotate_crd\<close> and \<open>annotate_config\<close> are \<open>CreateApplyAnnotation\<close>, \<open>Unmarshal\<close> is \<open>json.Unmarshal\<close> of the
  specification of the configuration.\<close>

record 'k boot_env =
  Glob :: "string list option"
  ReadFile :: "string \<Rightarrow> string option"
  decode :: "string \<Rightarrow> crd option"
  annotate_crd :: "crd \<Rightarrow> crd option"
  get_crd :: "string \<Rightarrow> 'k \<Rightarrow> api_error + crd"
  create_crd :: "crd \<Rightarrow> 'k \<Rightarrow> api_error option \<times> 'k"
  update_crd :: "crd \<Rightarrow> 'k \<Rightarrow> api_error option \<times> 'k"
  get_configmap :: "string \<Rightarrow> string \<Rightarrow> 'k \<Rightarrow> api_error + (string, string) gomap"
  get_config :: "string \<Rightarrow> string \<Rightarrow> 'k \<Rightarrow> api_error + config_object"
  create_config :: "string \<Rightarrow> config_object \<Rightarrow> 'k \<Rightarrow> api_error option \<times> 'k"
  update_config :: "string \<Rightarrow> config_object \<Rightarrow> 'k \<Rightarrow> api_error option \<times> 'k"
  Unmarshal :: "string \<Rightarrow> EcnetConfigSpec option"
  annotate_config :: "config_object \<Rightarrow> config_object option"

text \<open>An error of the API server, a failed annotation, or a message with which the program exits (\<open>log.Fatal\<close>).\<close>

datatype boot_error = ApiError api_error | AnnotationError | Fatal string

section \<open>Custom resource definitions\<close>

definition apply_crd :: "'k boot_env \<Rightarrow> crd \<Rightarrow> 'k \<Rightarrow> boot_error option \<times> 'k" where
  "apply_crd env c k =
     (let c = (if crd_Labels c = None then c\<lparr>crd_Labels := Some gmap_empty\<rparr> else c) in
      case get_crd env (crd_Name c) k of
        Inl NotFound \<Rightarrow>
          (case annotate_crd env c of
             None \<Rightarrow> (Some (Fatal (''Error applying annotation to CRD '' @ crd_Name c)), k)
           | Some c \<Rightarrow>
               (case create_crd env c k of
                  (Some _, k) \<Rightarrow> (Some (Fatal (''Error creating crd : '' @ crd_Name c)), k)
                | (None, k) \<Rightarrow> (None, k)))
      | Inl _ \<Rightarrow> (Some (Fatal (''error getting CRD '' @ crd_Name c)), k)
      | Inr crdExisting \<Rightarrow>
          (case update_crd env (crdExisting\<lparr>crd_Spec := crd_Spec c, crd_Conversion := Some NoneConverter\<rparr>) k of
             (Some _, k) \<Rightarrow> (Some (Fatal (''Error updating conversion webhook configuration for crd : '' @ crd_Name c)), k)
           | (None, k) \<Rightarrow> (None, k)))"

fun apply_files :: "'k boot_env \<Rightarrow> string list \<Rightarrow> 'k \<Rightarrow> boot_error option \<times> 'k" where
  "apply_files env [] k = (None, k)"
| "apply_files env (file # crdFiles) k =
     (case ReadFile env file of
        None \<Rightarrow> (Some (Fatal (''Error reading CRD file '' @ file)), k)
      | Some yaml \<Rightarrow>
          (case decode env yaml of
             None \<Rightarrow> (Some (Fatal (''Error decoding CRD file '' @ file)), k)
           | Some c \<Rightarrow>
               (case apply_crd env c k of
                  (Some e, k) \<Rightarrow> (Some e, k)
                | (None, k) \<Rightarrow> apply_files env crdFiles k)))"

definition applyOrUpdateCRDs :: "'k boot_env \<Rightarrow> 'k \<Rightarrow> boot_error option \<times> 'k" where
  "applyOrUpdateCRDs env k =
     (case Glob env of None \<Rightarrow> (Some (Fatal ''error reading files from /ecnet-crds''), k) | Some crdFiles \<Rightarrow> apply_files env crdFiles k)"

section \<open>The configuration\<close>

definition configName :: string where "configName = ''ecnet-config''"

definition presetEcnetConfigName :: string where "presetEcnetConfigName = ''preset-ecnet-config''"

definition presetEcnetConfigJSONKey :: string where "presetEcnetConfigJSONKey = ''preset-ecnet-config.json''"

definition buildDefaultEcnetConfig :: "'k boot_env \<Rightarrow> (string, string) gomap \<Rightarrow> boot_error + config_object" where
  "buildDefaultEcnetConfig env presetEcnetConfigMap =
     (case Unmarshal env (label presetEcnetConfigMap presetEcnetConfigJSONKey) of
        None \<Rightarrow> Inl (Fatal ''Error converting preset-ecnet-config json string to ecnetConfig object'')
      | Some spec \<Rightarrow>
          (case annotate_config env \<lparr>ec_Namespace = [], ec_Name = configName, ec_Spec = spec, ec_Kind = ''EcnetConfig'',
               ec_APIVersion = ''config.flomesh.io/configv1alpha1'', ec_Annotations = gmap_empty\<rparr> of
             None \<Rightarrow> Inl AnnotationError
           | Some config \<Rightarrow> Inr config))"

definition createDefaultEcnetConfig :: "'k boot_env \<Rightarrow> string \<Rightarrow> 'k \<Rightarrow> boot_error option \<times> 'k" where
  "createDefaultEcnetConfig env namespace k =
     (case get_configmap env namespace presetEcnetConfigName k of
        Inl e \<Rightarrow> (Some (ApiError e), k)
      | Inr presetsConfigMap \<Rightarrow>
          (case buildDefaultEcnetConfig env presetsConfigMap of
             Inl e \<Rightarrow> (Some e, k)
           | Inr defaultEcnetConfig \<Rightarrow>
               (case create_config env namespace defaultEcnetConfig k of
                  (None, k) \<Rightarrow> (None, k)
                | (Some AlreadyExists, k) \<Rightarrow> (None, k)
                | (Some e, k) \<Rightarrow> (Some (ApiError e), k))))"

definition ensureEcnetConfig :: "'k boot_env \<Rightarrow> string \<Rightarrow> 'k \<Rightarrow> boot_error option \<times> 'k" where
  "ensureEcnetConfig env namespace k =
     (case get_config env namespace configName k of
        Inl NotFound \<Rightarrow> createDefaultEcnetConfig env namespace k
      | Inl e \<Rightarrow> (Some (ApiError e), k)
      | Inr config \<Rightarrow>
          if gmap_get (ec_Annotations config) LastAppliedConfigAnnotation = None then
            (case annotate_config env config of
               None \<Rightarrow> (Some AnnotationError, k)
             | Some config \<Rightarrow>
                 (case update_config env namespace config k of
                    (Some e, k) \<Rightarrow> (Some (ApiError e), k)
                  | (None, k) \<Rightarrow> (None, k)))
          else (None, k))"

section \<open>The recorder of events\<close>

record EventRecorder =
  recorder_set :: bool
  object_set :: bool
  watcher_set :: bool

definition new_recorder :: EventRecorder where
  "new_recorder = \<lparr>recorder_set = False, object_set = False, watcher_set = False\<rparr>"

text \<open>\<open>Initialize\<close>; \<open>watches\<close> says that the API server opened the watch.\<close>

definition Initialize :: "bool \<Rightarrow> EventRecorder \<Rightarrow> EventRecorder \<times> bool" where
  "Initialize watches e = (e\<lparr>object_set := True, recorder_set := True, watcher_set := watches\<rparr>, watches)"

text \<open>Whether an event is posted.\<close>

definition recordEvent :: "EventRecorder \<Rightarrow> bool" where
  "recordEvent e \<longleftrightarrow> recorder_set e \<and> object_set e"

text \<open>What the watch delivers before its channel is closed or ten seconds have passed: events, or other objects, such as the status with which
  the server reports an error of the watch.\<close>

datatype watched = Event string | Status

fun wait_loop :: "watched list \<Rightarrow> unit outcome" where
  "wait_loop [] = Returns ()"
| "wait_loop (Status # ws) = Panics"
| "wait_loop (Event reason # ws) = (if has_prefix reason ''Fatal'' then Returns () else wait_loop ws)"

definition waitForFatalEvent :: "EventRecorder \<Rightarrow> watched list \<Rightarrow> unit outcome" where
  "waitForFatalEvent e ws = (if watcher_set e then wait_loop ws else Panics)"

text \<open>The reason with which the program exits.\<close>

definition FatalEvent :: "EventRecorder \<Rightarrow> string \<Rightarrow> watched list \<Rightarrow> string outcome" where
  "FatalEvent e reason ws = outcome_bind (waitForFatalEvent e ws) (\<lambda>_. Returns reason)"

section \<open>The program\<close>

definition validateCLIParams :: "string \<Rightarrow> string option" where
  "validateCLIParams ecnetNamespace =
     (if ecnetNamespace = [] then Some ''Please specify the ECNET namespace using --ecnet-namespace'' else None)"

text \<open>Up to the recorder: the error with which the program exits, and the state of the cluster.\<close>

definition bootstrap_main :: "'k boot_env \<Rightarrow> string \<Rightarrow> watched list \<Rightarrow> 'k \<Rightarrow> (boot_error option \<times> 'k) outcome" where
  "bootstrap_main env ecnetNamespace ws k =
     (case validateCLIParams ecnetNamespace of
        Some err \<Rightarrow> outcome_bind (FatalEvent new_recorder ''FatalInvalidCLIParameters'' ws) (\<lambda>reason. Returns (Some (Fatal reason), k))
      | None \<Rightarrow>
          (case applyOrUpdateCRDs env k of
             (Some e, k) \<Rightarrow> Returns (Some e, k)
           | (None, k) \<Rightarrow> Returns (ensureEcnetConfig env ecnetNamespace k)))"

section \<open>The contract\<close>

definition default_conversion :: "crd \<Rightarrow> conversion" where
  "default_conversion c = (case crd_Conversion c of None \<Rightarrow> NoneConverter | Some s \<Rightarrow> s)"

text \<open>What the server keeps of a definition: its specification, with the conversion that is the default where there is none.\<close>

definition crd_same :: "crd \<Rightarrow> crd \<Rightarrow> bool" where
  "crd_same c c' \<longleftrightarrow> crd_Name c = crd_Name c' \<and> crd_Spec c = crd_Spec c' \<and> default_conversion c = default_conversion c'"

definition config_same :: "config_object \<Rightarrow> config_object \<Rightarrow> bool" where
  "config_same c c' \<longleftrightarrow> ec_Name c = ec_Name c' \<and> ec_Spec c = ec_Spec c' \<and> ec_Annotations c = ec_Annotations c'"

text \<open>Reading gives what the store has, or may fail; a write stores the object under its key and changes nothing else, or fails and changes nothing.\<close>

definition reads :: "('n \<Rightarrow> 'k \<Rightarrow> api_error + 'o) \<Rightarrow> ('o \<Rightarrow> 'n) \<Rightarrow> ('k \<Rightarrow> 'n \<Rightarrow> 'o option) \<Rightarrow> bool" where
  "reads get key store \<longleftrightarrow>
     (\<forall>n k. case get n k of Inr c \<Rightarrow> store k n = Some c \<and> key c = n | Inl NotFound \<Rightarrow> store k n = None | Inl _ \<Rightarrow> True)"

definition writes :: "('o \<Rightarrow> 'k \<Rightarrow> api_error option \<times> 'k) \<Rightarrow> ('o \<Rightarrow> 'n) \<Rightarrow> ('o \<Rightarrow> 'o \<Rightarrow> bool) \<Rightarrow> ('k \<Rightarrow> 'n \<Rightarrow> 'o option) \<Rightarrow> bool" where
  "writes put key same store \<longleftrightarrow>
     (\<forall>c k e k'. put c k = (e, k') \<longrightarrow> (if e = None then \<exists>c'. same c c' \<and> store k' = (store k)(key c \<mapsto> c') else store k' = store k))"

definition keeps :: "('o \<Rightarrow> 'k \<Rightarrow> api_error option \<times> 'k) \<Rightarrow> ('k \<Rightarrow> 's) \<Rightarrow> bool" where
  "keeps put store \<longleftrightarrow> (\<forall>c k e k'. put c k = (e, k') \<longrightarrow> store k' = store k)"

text \<open>\<open>crds\<close>, \<open>configs\<close> and \<open>maps\<close> read the definitions, the configurations and the config maps from the state.\<close>

definition boot_contract :: "'k boot_env \<Rightarrow> ('k \<Rightarrow> string \<Rightarrow> crd option) \<Rightarrow> ('k \<Rightarrow> string \<times> string \<Rightarrow> config_object option) \<Rightarrow>
    ('k \<Rightarrow> string \<times> string \<Rightarrow> (string, string) gomap option) \<Rightarrow> bool" where
  "boot_contract env crds configs maps \<longleftrightarrow>
     reads (get_crd env) crd_Name crds \<and>
     writes (create_crd env) crd_Name crd_same crds \<and> writes (update_crd env) crd_Name crd_same crds \<and>
     keeps (create_crd env) (\<lambda>k. (configs k, maps k)) \<and> keeps (update_crd env) (\<lambda>k. (configs k, maps k)) \<and>
     (\<forall>c c'. annotate_crd env c = Some c' \<longrightarrow> crd_same c c') \<and>
     (\<forall>ns. reads (get_config env ns) ec_Name (\<lambda>k n. configs k (ns, n)) \<and>
        writes (create_config env ns) (\<lambda>c. (ns, ec_Name c)) config_same configs \<and> writes (update_config env ns) (\<lambda>c. (ns, ec_Name c)) config_same configs \<and>
        keeps (create_config env ns) crds \<and> keeps (update_config env ns) crds) \<and>
     (\<forall>ns c k. fst (create_config env ns c k) = Some AlreadyExists \<longrightarrow> configs k (ns, ec_Name c) \<noteq> None) \<and>
     (\<forall>c c'. annotate_config env c = Some c' \<longrightarrow> ec_Name c' = ec_Name c \<and> ec_Spec c' = ec_Spec c \<and>
        gmap_get (ec_Annotations c') LastAppliedConfigAnnotation \<noteq> None) \<and>
     (\<forall>ns n k m. get_configmap env ns n k = Inr m \<longrightarrow> maps k (ns, n) = Some m)"

lemma reads_Inr: "reads get key store \<Longrightarrow> get n k = Inr c \<Longrightarrow> store k n = Some c \<and> key c = n"
  unfolding reads_def by (drule spec [of _ n], drule spec [of _ k]) simp

lemma reads_NotFound: "reads get key store \<Longrightarrow> get n k = Inl NotFound \<Longrightarrow> store k n = None"
  unfolding reads_def by (drule spec [of _ n], drule spec [of _ k]) simp

lemma writes_ok: "writes put key same store \<Longrightarrow> put c k = (None, k') \<Longrightarrow> \<exists>c'. same c c' \<and> store k' = (store k)(key c \<mapsto> c')"
  unfolding writes_def by metis

lemma keeps_ok: "keeps put store \<Longrightarrow> put c k = (e, k') \<Longrightarrow> store k' = store k"
  unfolding keeps_def by blast

lemma contract_parts:
  assumes "boot_contract env crds configs maps"
  shows "reads (get_crd env) crd_Name crds" "writes (create_crd env) crd_Name crd_same crds" "writes (update_crd env) crd_Name crd_same crds"
    "keeps (create_crd env) (\<lambda>k. (configs k, maps k))" "keeps (update_crd env) (\<lambda>k. (configs k, maps k))"
    "reads (get_config env ns) ec_Name (\<lambda>k n. configs k (ns, n))"
    "writes (create_config env ns) (\<lambda>c. (ns, ec_Name c)) config_same configs" "writes (update_config env ns) (\<lambda>c. (ns, ec_Name c)) config_same configs"
    "keeps (create_config env ns) crds" "keeps (update_config env ns) crds"
    "annotate_crd env c = Some c' \<Longrightarrow> crd_same c c'"
    "annotate_config env o1 = Some o2 \<Longrightarrow> ec_Name o2 = ec_Name o1 \<and> ec_Spec o2 = ec_Spec o1 \<and> gmap_get (ec_Annotations o2) LastAppliedConfigAnnotation \<noteq> None"
    "fst (create_config env ns o1 k) = Some AlreadyExists \<Longrightarrow> configs k (ns, ec_Name o1) \<noteq> None"
    "get_configmap env ns n k = Inr m \<Longrightarrow> maps k (ns, n) = Some m"
  using assms by (simp_all add: boot_contract_def)

section \<open>What is installed\<close>

text \<open>A definition that was there gets the new specification and no conversion; a new one is created as the file has it.\<close>

definition installed :: "crd \<Rightarrow> crd option \<Rightarrow> crd option \<Rightarrow> bool" where
  "installed c before after \<longleftrightarrow> (\<exists>c'. after = Some c' \<and> crd_Spec c' = crd_Spec c \<and>
     default_conversion c' = (if before = None then default_conversion c else NoneConverter))"

lemma apply_crd_ok:
  assumes "boot_contract env crds configs maps" and "apply_crd env c k = (None, k')"
  shows "installed c (crds k (crd_Name c)) (crds k' (crd_Name c)) \<and> (\<forall>n. n \<noteq> crd_Name c \<longrightarrow> crds k' n = crds k n) \<and>
    configs k' = configs k \<and> maps k' = maps k"
proof -
  note parts = contract_parts [OF assms(1)]
  define c1 where "c1 = (if crd_Labels c = None then c\<lparr>crd_Labels := Some gmap_empty\<rparr> else c)"
  have c1: "crd_Name c1 = crd_Name c" "crd_Spec c1 = crd_Spec c" "default_conversion c1 = default_conversion c"
    by (simp_all add: c1_def default_conversion_def)
  show ?thesis
  proof (cases "get_crd env (crd_Name c) k")
    case (Inr existing)
    let ?c2 = "existing\<lparr>crd_Spec := crd_Spec c, crd_Conversion := Some NoneConverter\<rparr>"
    from Inr assms(2) c1 have upd: "update_crd env ?c2 k = (None, k')"
      by (auto simp: apply_crd_def c1_def [symmetric] Let_def split: prod.splits option.splits)
    from reads_Inr [OF parts(1) Inr] writes_ok [OF parts(3) upd] keeps_ok [OF parts(5) upd] show ?thesis
      by (auto simp: crd_same_def installed_def default_conversion_def)
  next
    case (Inl e)
    with assms(2) c1 obtain c2 where c2: "e = NotFound" "annotate_crd env c1 = Some c2" "create_crd env c2 k = (None, k')"
      by (auto simp: apply_crd_def c1_def [symmetric] Let_def split: api_error.splits option.splits prod.splits)
    from reads_NotFound [OF parts(1) Inl [unfolded c2(1)]] writes_ok [OF parts(2) c2(3)] keeps_ok [OF parts(4) c2(3)] parts(11) [OF c2(2)] c1
    show ?thesis by (auto simp: crd_same_def installed_def)
  qed
qed

definition crd_of :: "'k boot_env \<Rightarrow> string \<Rightarrow> crd option" where
  "crd_of env file = Option.bind (ReadFile env file) (decode env)"

lemma apply_files_ok:
  assumes "boot_contract env crds configs maps"
  shows "apply_files env files k = (None, k') \<Longrightarrow> distinct (map (\<lambda>f. map_option crd_Name (crd_of env f)) files) \<Longrightarrow>
    (\<forall>f \<in> set files. \<exists>c. crd_of env f = Some c \<and> installed c (crds k (crd_Name c)) (crds k' (crd_Name c))) \<and>
    (\<forall>n. Some n \<notin> (\<lambda>f. map_option crd_Name (crd_of env f)) ` set files \<longrightarrow> crds k' n = crds k n) \<and> configs k' = configs k \<and> maps k' = maps k"
proof (induction files arbitrary: k)
  case (Cons f0 files)
  from Cons.prems(1) obtain c k1 where c: "crd_of env f0 = Some c" "apply_crd env c k = (None, k1)" "apply_files env files k1 = (None, k')"
    by (auto simp: crd_of_def split: option.splits prod.splits)
  note one = apply_crd_ok [OF assms c(2)] and rest = Cons.IH [OF c(3)]
  have new: "Some (crd_Name c) \<notin> (\<lambda>f. map_option crd_Name (crd_of env f)) ` set files" using Cons.prems(2) c(1) by simp
  have "\<exists>c. crd_of env f = Some c \<and> installed c (crds k (crd_Name c)) (crds k' (crd_Name c))" if f: "f \<in> set files" for f
  proof -
    from rest Cons.prems(2) f obtain c' where c': "crd_of env f = Some c'" "installed c' (crds k1 (crd_Name c')) (crds k' (crd_Name c'))" by auto
    with new f have "crd_Name c' \<noteq> crd_Name c" by force
    with c' one show ?thesis by auto
  qed
  then show ?case using c(1) one rest new Cons.prems(2) by auto
qed simp

lemma ensureEcnetConfig_ok:
  assumes "boot_contract env crds configs maps" and "ensureEcnetConfig env ns k = (None, k')"
  shows "crds k' = crds k \<and> (\<forall>x. x \<noteq> (ns, configName) \<longrightarrow> configs k' x = configs k x) \<and>
    (\<exists>c. configs k' (ns, configName) = Some c \<and> gmap_get (ec_Annotations c) LastAppliedConfigAnnotation \<noteq> None \<and>
       (case configs k (ns, configName) of
          None \<Rightarrow> \<exists>m. maps k (ns, presetEcnetConfigName) = Some m \<and> Unmarshal env (label m presetEcnetConfigJSONKey) = Some (ec_Spec c)
        | Some c0 \<Rightarrow> ec_Spec c = ec_Spec c0))"
proof -
  note parts = contract_parts [OF assms(1)]
  show ?thesis
  proof (cases "get_config env ns configName k")
    case (Inr c0)
    note c0 = reads_Inr [OF parts(6) Inr]
    show ?thesis
    proof (cases "gmap_get (ec_Annotations c0) LastAppliedConfigAnnotation = None")
      case True
      with Inr assms(2) obtain c where c: "annotate_config env c0 = Some c" "update_config env ns c k = (None, k')"
        by (auto simp: ensureEcnetConfig_def split: option.splits prod.splits)
      from parts(12) [OF c(1)] writes_ok [OF parts(8) c(2)] keeps_ok [OF parts(10) c(2)] c0 show ?thesis by (auto simp: config_same_def)
    qed (use Inr assms(2) c0 in \<open>auto simp: ensureEcnetConfig_def\<close>)
  next
    case (Inl e)
    with assms(2) have e: "e = NotFound" "createDefaultEcnetConfig env ns k = (None, k')"
      by (auto simp: ensureEcnetConfig_def split: api_error.splits)
    note absent = reads_NotFound [OF parts(6) Inl [unfolded e(1)]]
    from e(2) obtain m c r where m: "get_configmap env ns presetEcnetConfigName k = Inr m" "buildDefaultEcnetConfig env m = Inr c"
        "create_config env ns c k = (r, k')" "r = None \<or> r = Some AlreadyExists"
      by (auto simp: createDefaultEcnetConfig_def split: sum.splits option.splits prod.splits api_error.splits)
    have c: "ec_Name c = configName" "Unmarshal env (label m presetEcnetConfigJSONKey) = Some (ec_Spec c)"
        "gmap_get (ec_Annotations c) LastAppliedConfigAnnotation \<noteq> None"
      using m(2) by (auto simp: buildDefaultEcnetConfig_def split: option.splits dest: parts(12))
    with m(3,4) absent parts(13) [of ns c k] have "create_config env ns c k = (None, k')" by auto
    from writes_ok [OF parts(7) this] keeps_ok [OF parts(9) this] parts(14) [OF m(1)] c absent show ?thesis
      by (auto simp: config_same_def)
  qed
qed

lemma ensureEcnetConfig_again:
  assumes "boot_contract env crds configs maps" and "configs k (ns, configName) = Some c"
    and "gmap_get (ec_Annotations c) LastAppliedConfigAnnotation \<noteq> None" and "ensureEcnetConfig env ns k = (None, k')"
  shows "configs k' = configs k"
proof (cases "get_config env ns configName k")
  case (Inr c0)
  with reads_Inr [OF contract_parts(6) [OF assms(1)] Inr] assms(2-4) show ?thesis by (auto simp: ensureEcnetConfig_def)
next
  case (Inl e)
  with reads_NotFound [OF contract_parts(6) [OF assms(1)], of ns configName k] assms(2,4) show ?thesis
    by (auto simp: ensureEcnetConfig_def split: api_error.splits)
qed

lemma bootstrap_main_cases:
  assumes "bootstrap_main env ns ws k = Returns (None, k')" and "Glob env = Some files"
  obtains k1 where "apply_files env files k = (None, k1)" "ensureEcnetConfig env ns k1 = (None, k')"
  using assms
  by (auto simp: bootstrap_main_def validateCLIParams_def FatalEvent_def waitForFatalEvent_def new_recorder_def applyOrUpdateCRDs_def
      split: if_splits option.splits prod.splits)

text \<open>C31. When the program succeeds, every definition among the files is installed, with the file's specification and without a conversion if the definition
  was there before; a configuration that was there keeps its specification, and else the preset one is created; nothing else is changed.
  Starting the program again does not change the configuration.\<close>

theorem bootstrap_installs:
  assumes "boot_contract env crds configs maps" and "Glob env = Some files" and "distinct (map (\<lambda>f. map_option crd_Name (crd_of env f)) files)"
    and "bootstrap_main env ns ws k = Returns (None, k')"
  shows "(\<forall>f \<in> set files. \<exists>c. crd_of env f = Some c \<and> installed c (crds k (crd_Name c)) (crds k' (crd_Name c))) \<and>
    (\<exists>c. configs k' (ns, configName) = Some c \<and>
       (case configs k (ns, configName) of
          None \<Rightarrow> \<exists>m. maps k (ns, presetEcnetConfigName) = Some m \<and> Unmarshal env (label m presetEcnetConfigJSONKey) = Some (ec_Spec c)
        | Some c0 \<Rightarrow> ec_Spec c = ec_Spec c0)) \<and>
    (\<forall>n. Some n \<notin> (\<lambda>f. map_option crd_Name (crd_of env f)) ` set files \<longrightarrow> crds k' n = crds k n) \<and>
    (\<forall>x. x \<noteq> (ns, configName) \<longrightarrow> configs k' x = configs k x) \<and>
    (\<forall>k''. bootstrap_main env ns ws k' = Returns (None, k'') \<longrightarrow> configs k'' = configs k')"
proof -
  obtain k1 where k1: "apply_files env files k = (None, k1)" "ensureEcnetConfig env ns k1 = (None, k')"
    using bootstrap_main_cases [OF assms(4,2)] by blast
  note files = apply_files_ok [OF assms(1) k1(1) assms(3)] and config = ensureEcnetConfig_ok [OF assms(1) k1(2)]
  from config obtain c where c: "configs k' (ns, configName) = Some c" "gmap_get (ec_Annotations c) LastAppliedConfigAnnotation \<noteq> None" by blast
  have again: "configs k'' = configs k'" if again: "bootstrap_main env ns ws k' = Returns (None, k'')" for k''
  proof -
    obtain k2 where k2: "apply_files env files k' = (None, k2)" "ensureEcnetConfig env ns k2 = (None, k'')"
      using bootstrap_main_cases [OF again assms(2)] by blast
    with apply_files_ok [OF assms(1) k2(1) assms(3)] ensureEcnetConfig_again [OF assms(1) _ c(2) k2(2)] c(1) show ?thesis by simp
  qed
  have same: "configs k1 = configs k" "maps k1 = maps k" "crds k' = crds k1" using files config by blast+
  show ?thesis
    unfolding same(3) by (intro conjI) (use files config again in \<open>(simp only: same; blast)+\<close>)
qed

text \<open>Without the namespace's flag the program does not report an error, it panics: its recorder has no watch yet. A watch that reports an
  error also makes a fatal event panic.\<close>

lemma missing_namespace_panics: "bootstrap_main env [] ws k = Panics"
  by (simp add: bootstrap_main_def validateCLIParams_def FatalEvent_def waitForFatalEvent_def new_recorder_def)

lemma watch_error_panics: "watcher_set e \<Longrightarrow> FatalEvent e reason (Status # ws) = Panics"
  by (simp add: FatalEvent_def waitForFatalEvent_def)

section \<open>A cluster in memory\<close>

record boot_cluster =
  bc_crds :: "(string, crd) gomap"
  bc_configs :: "(string \<times> string, config_object) gomap"
  bc_maps :: "(string \<times> string, (string, string) gomap) gomap"

definition apply_note :: "(string, string) gomap \<Rightarrow> (string, string) gomap" where
  "apply_note m = gmap_put m LastAppliedConfigAnnotation ''{}''"

text \<open>A file holds the name of its definition, and the preset text \<open>{}\<close> decodes to the zero value.\<close>

definition boot_memory :: "boot_cluster boot_env" where
  "boot_memory =
     \<lparr>Glob = Some [''ecnetconfigs.config.flomesh.io''], ReadFile = Some,
      decode = (\<lambda>text. Some \<lparr>crd_Name = text, crd_Labels = None, crd_Annotations = gmap_empty, crd_Spec = ''v2'', crd_Conversion = None\<rparr>),
      annotate_crd = (\<lambda>c. Some (c\<lparr>crd_Annotations := apply_note (crd_Annotations c)\<rparr>)),
      get_crd = (\<lambda>n k. case gmap_get (bc_crds k) n of None \<Rightarrow> Inl NotFound | Some c \<Rightarrow> Inr (c\<lparr>crd_Name := n\<rparr>)),
      create_crd = (\<lambda>c k. if gmap_get (bc_crds k) (crd_Name c) = None then (None, k\<lparr>bc_crds := gmap_put (bc_crds k) (crd_Name c) c\<rparr>) else (Some AlreadyExists, k)),
      update_crd = (\<lambda>c k. (None, k\<lparr>bc_crds := gmap_put (bc_crds k) (crd_Name c) c\<rparr>)),
      get_configmap = (\<lambda>ns n k. case gmap_get (bc_maps k) (ns, n) of None \<Rightarrow> Inl NotFound | Some m \<Rightarrow> Inr m),
      get_config = (\<lambda>ns n k. case gmap_get (bc_configs k) (ns, n) of None \<Rightarrow> Inl NotFound | Some c \<Rightarrow> Inr (c\<lparr>ec_Name := n\<rparr>)),
      create_config = (\<lambda>ns c k. if gmap_get (bc_configs k) (ns, ec_Name c) = None then (None, k\<lparr>bc_configs := gmap_put (bc_configs k) (ns, ec_Name c) c\<rparr>)
        else (Some AlreadyExists, k)),
      update_config = (\<lambda>ns c k. (None, k\<lparr>bc_configs := gmap_put (bc_configs k) (ns, ec_Name c) c\<rparr>)),
      Unmarshal = (\<lambda>text. if text = ''{}'' then Some (ec_Spec EcnetConfig_zero) else None),
      annotate_config = (\<lambda>c. Some (c\<lparr>ec_Annotations := apply_note (ec_Annotations c)\<rparr>))\<rparr>"

definition mem_crds_of :: "boot_cluster \<Rightarrow> string \<Rightarrow> crd option" where
  "mem_crds_of k n = map_option (\<lambda>c. c\<lparr>crd_Name := n\<rparr>) (gmap_get (bc_crds k) n)"

definition mem_configs_of :: "boot_cluster \<Rightarrow> string \<times> string \<Rightarrow> config_object option" where
  "mem_configs_of k x = map_option (\<lambda>c. c\<lparr>ec_Name := snd x\<rparr>) (gmap_get (bc_configs k) x)"

definition mem_maps_of :: "boot_cluster \<Rightarrow> string \<times> string \<Rightarrow> (string, string) gomap option" where
  "mem_maps_of k = gmap_get (bc_maps k)"

lemma boot_memory_contract: "boot_contract boot_memory mem_crds_of mem_configs_of mem_maps_of"
proof -
  note ops = boot_memory_def mem_crds_of_def mem_configs_of_def mem_maps_of_def
  have "reads (get_crd boot_memory) crd_Name mem_crds_of" "reads (get_config boot_memory ns) ec_Name (\<lambda>k n. mem_configs_of k (ns, n))" for ns
    by (auto simp: reads_def ops split: option.splits)
  moreover have "writes (create_crd boot_memory) crd_Name crd_same mem_crds_of" "writes (update_crd boot_memory) crd_Name crd_same mem_crds_of"
    by (auto simp: writes_def ops crd_same_def fun_eq_iff intro!: exI split: if_splits)
  moreover have "writes (create_config boot_memory ns) (\<lambda>c. (ns, ec_Name c)) config_same mem_configs_of"
      "writes (update_config boot_memory ns) (\<lambda>c. (ns, ec_Name c)) config_same mem_configs_of" for ns
    by (auto simp: writes_def ops config_same_def fun_eq_iff intro!: exI split: if_splits)
  moreover have "keeps (create_crd boot_memory) (\<lambda>k. (mem_configs_of k, mem_maps_of k))" "keeps (update_crd boot_memory) (\<lambda>k. (mem_configs_of k, mem_maps_of k))"
      "keeps (create_config boot_memory ns) mem_crds_of" "keeps (update_config boot_memory ns) mem_crds_of" for ns
    by (auto simp: keeps_def ops fun_eq_iff split: if_splits)
  ultimately show ?thesis
    unfolding boot_contract_def
    by (auto simp: boot_memory_def crd_same_def default_conversion_def apply_note_def mem_configs_of_def mem_maps_of_def split: option.splits if_splits)
qed

definition fresh_cluster :: boot_cluster where
  "fresh_cluster = \<lparr>bc_crds = gmap_empty, bc_configs = gmap_empty,
     bc_maps = gmap_put gmap_empty (''ecnet-system'', ''preset-ecnet-config'') (gmap_put gmap_empty ''preset-ecnet-config.json'' ''{}'')\<rparr>"

lemma fresh_cluster_boots:
  "case bootstrap_main boot_memory ''ecnet-system'' [] fresh_cluster of Returns (r, k) \<Rightarrow> r = None | Panics \<Rightarrow> False"
  by code_simp

theorem bootstrap_installs_witness:
  "\<exists>k c. bootstrap_main boot_memory ''ecnet-system'' [] fresh_cluster = Returns (None, k) \<and> mem_configs_of k (''ecnet-system'', configName) = Some c"
proof -
  obtain k where run: "bootstrap_main boot_memory ''ecnet-system'' [] fresh_cluster = Returns (None, k)"
    using fresh_cluster_boots by (cases "bootstrap_main boot_memory ''ecnet-system'' [] fresh_cluster") auto
  have glob: "Glob boot_memory = Some [''ecnetconfigs.config.flomesh.io'']" by (simp add: boot_memory_def)
  from bootstrap_installs [OF boot_memory_contract glob _ run] obtain c where "mem_configs_of k (''ecnet-system'', configName) = Some c" by auto
  with run show ?thesis by blast
qed

end
