(* ===== verification/Spec2Isabelle.thy ===== *)
theory Spec2Isabelle
  imports Listener MessageBroker BpfSock Ticker WorkerPool Install Bootstrap SampleCluster
begin

text \<open>
  A verification of ErieCanal's ecnet (\<open>src/pkg/ecnet\<close>): a control plane that watches Kubernetes
  services, service imports from other clusters and global traffic policies, and turns them into
  the outbound configuration of a pipy proxy.

  \<^bold>\<open>The parts and how they interact.\<close> Informers keep caches of Kubernetes objects. The Kubernetes
  client and the multicluster client answer lookups from the caches; two providers turn their
  answers into mesh services and endpoints; the mesh catalog merges the providers into one
  outbound mesh traffic policy; the configuration job of the control plane translates that policy
  into routes, then fills in the endpoints of the clusters that the routes name, balances the
  weights and publishes the result. Changes of objects reach the job through a work queue, the message
  broker and its dispatcher, which batches them. On every node a bridge gives the names of the mesh
  to a DNS responder in the kernel; other programs in the kernel send connections for the bridge's address
  to the proxy and tell it their original destination.

  \<^bold>\<open>Theories.\<close>
  \<^item> \<open>Prelude\<close>, \<open>GoStrings\<close>, \<open>GoNet\<close>, \<open>GoTime\<close>: what the code uses of Go and its standard library: maps (a map is
    \<open>nil\<close> or an association list without duplicate keys; the locale \<open>go_map\<close>), panics as values,
    string functions, number printing and parsing, \<open>net.ParseIP\<close> and \<open>IP.String\<close>, timers and
    \<open>time.ParseDuration\<close>; the locale \<open>step_invariant\<close> for the step relations below.
  \<^item> \<open>Constants\<close>, \<open>Service\<close>, \<open>Policy\<close>, \<open>K8sTypes\<close>: \<open>constants\<close>, \<open>announcements\<close>, \<open>service\<close>,
    \<open>service/policy\<close>, \<open>service/endpoint\<close>, \<open>apis/multicluster\<close>, \<open>k8s/informers\<close>.
  \<^item> \<open>KubeClient\<close>, \<open>Multicluster\<close>, \<open>Provider\<close>, \<open>Catalog\<close>: \<open>k8s/client.go\<close> and \<open>k8s/util.go\<close>,
    \<open>service/multicluster\<close>, \<open>service/providers\<close>, \<open>catalog\<close>. A provider is the record of its methods; the
    locale \<open>endpoints_provider\<close> is the contract of a provider, interpreted for both; the locale
    \<open>mesh_catalog\<close> is interpreted for the catalog over both.
  \<^item> \<open>PipyConf\<close>, \<open>TrafficRoutes\<close>, \<open>Jobs\<close>: \<open>bridge/ctrlplane/server\<close>: \<open>types.go\<close> and \<open>policy.go\<close>,
    \<open>util.go\<close>, \<open>jobs.go\<close>. Traffic matches are shared by two maps and live in a store.
  \<^item> \<open>RouteCorrectness\<close>, \<open>BalanceCorrectness\<close>, \<open>HostRouting\<close>: what the translation publishes, by a locale
    for loops that only extend their state, interpreted for each of the nested loops.
  \<^item> \<open>GoSort\<close>, \<open>Configurator\<close>, \<open>Chains\<close>: Go's \<open>sort.Sort\<close> (insertion sort on short slices, a parameter on
    long ones; the locale \<open>weak_order\<close> is interpreted for the priorities of plugins),
    \<open>configurator\<close> with the \<open>EcnetConfig\<close> resource, \<open>server/plugin.go\<close> and the order of route rules.
  \<^item> \<open>PipyHash\<close>, \<open>RepoClient\<close>, \<open>ProxyJob\<close>: \<open>pipy/util\<close>, \<open>pipy/repo/client\<close>, and the server of
    \<open>bridge/ctrlplane\<close>: \<open>proxy.go\<close>, \<open>registry\<close>, \<open>server/server.go\<close> and the whole of \<open>server/jobs.go\<close>. The HTTP
    exchange is a function on the state of the server; what the client relies on is the predicate
    \<open>repo_contract\<close>, which a repo in memory satisfies.
  \<^item> \<open>Messaging\<close>, \<open>Dispatcher\<close>, \<open>MessageBroker\<close>: \<open>k8s/event_handlers.go\<close> and \<open>messaging\<close>: from a change of an object to its
    publication. The dispatcher is a step relation over its timers, with the history of what it
    received and published; the last theory joins it with the processor of the work queue, over the counters and the channel they share.
  \<^item> \<open>Listener\<close>, \<open>Ticker\<close>, \<open>WorkerPool\<close>: the routines of \<open>bridge/ctrlplane/server/broadcast.go\<close>,
    \<open>bridge/dataplane/server/broadcast.go\<close>, \<open>ticker\<close> and \<open>workerpool\<close> as step relations: when updates start jobs, when
    periodic updates are sent, and how jobs are run.
  \<^item> \<open>DataPlane\<close>: \<open>bridge/dataplane\<close>: the job of the bridge over kernel maps, which are parameters with the
    contract \<open>kernel_contract\<close>, and the address of the bridge.
  \<^item> \<open>BpfDns\<close>, \<open>BpfSock\<close>: the eBPF programs in C (\<open>src/bpf\<close>) and \<open>dataplane/helpers/prog.go\<close>. A frame is a list of bytes, and
    \<open>dns_frame\<close> its abstraction by fields; the helper functions of the kernel are parameters with the contracts
    \<open>tail_contract\<close>, \<open>csum_contract\<close> and \<open>sock_contract\<close>. The loops are bounded as in the source (256 bytes of a name, 740 words of a sum).
  \<^item> \<open>KubeApi\<close>, \<open>Namespaces\<close>, \<open>Preinstall\<close>, \<open>Uninstall\<close>, \<open>VersionCmd\<close>, \<open>Install\<close>: the command line (\<open>src/cmd/ecnet/cli\<close>, \<open>pkg/ecnet/cli\<close>) and \<open>ecnet-preinstall\<close>: the commands that
    add, remove, ignore and list namespaces, list meshes, uninstall them, show their versions, install and upgrade them, and the checks before an installation, with the labels of the
    chart's deployment. The API server is a parameter with the contract \<open>api_contract\<close>, which a cluster in memory that parses the
    commands' JSON patches satisfies; Helm and its parser of values are parameters; standard input is the list of what its reads return.
  \<^item> \<open>Bootstrap\<close>, \<open>Health\<close>: \<open>ecnet-bootstrap\<close> with \<open>k8s/events/events.go\<close>, over an API server with the contract
    \<open>boot_contract\<close>; the handlers of \<open>health\<close> and \<open>version\<close>.
  \<^item> \<open>SampleCluster\<close>: a small deployment on which the theorems are instantiated.

  \<^bold>\<open>What is shown.\<close> Of the whole run (this theory): it returns, publishes every HTTP service under its
  names, names no cluster without reporting it, and is only ready when every named cluster has
  endpoints. Of the parts: the endpoints of imported services, the load balancing modes, that
  local mode stays local, the policy of the catalog field by field, the shared traffic matches,
  rebalancing, and the round trips and errors of the name formats; the plugin chains; that a batch
  commits after its uploads, what the job publishes of routes, DNS names and endpoints and when it is tried again, that it cleans up after
  a failure, and sends nothing for a configuration it has published; that no change is lost between the work queue
  and the proxies, that batches are published in time and the dispatcher cannot block, that an
  update is followed by jobs and every job is run, when the ticker ticks; what
  the bridge writes into the kernel, and never removes from it; that names of the mesh are answered with the
  bridge's address, from the cluster's resources to the frames, with which checksums; that the
  proxy learns the original destination of a connection. Of the tools: what the checks before an installation decide, and that they do not see what
  the chart installs; which namespaces join a mesh, and that removing one undoes it; that uninstalling touches only what was chosen, which at a terminal is what
  was answered with yes; what the bootstrap program installs and leaves alone; and what the status of the probes says.

  \<^bold>\<open>Conventions.\<close> Kubernetes client stores are parameters. Iteration over a Go map or a
  \<open>mapset.Set\<close> is in the order of the list that represents it; the theorems hold for every such
  order, since they quantify over the representation; where a theorem is about two runs, the runs need not agree on it. No recursion needs fuel: every loop is over a
  finite list. Logging is left out.

  \<^bold>\<open>Not modelled.\<close> Generated client sets, listers, informers and deep copies, and building and running informers: generated code and calls
  of the client library. The delivery of messages by the pub-sub library. The main functions of the controller and the bridge, the HTTP server, signal handlers, the logger, and
  the wiring of flags: they create objects of libraries and connect the parts above. The layout of tables, the display of progress and the
  question for the latest release. The proxy's scripts in JavaScript, embedded as files, which the proxy's own runtime interprets.
\<close>

section \<open>The outbound configuration of the proxy\<close>

text \<open>C1. A configuration that the control plane declares ready sends no traffic into a void: every
  cluster that any published HTTP or TCP route names has a cluster config, and that config lists
  at least one endpoint.\<close>

theorem ready_clusters_have_endpoints:
  assumes "outbound trustDomain mc has_retry PipyConf_zero = Returns r"
    and "pc_Outbound (or_conf r) = Some otp" and "or_ready r" and "c \<in> outbound_clusters otp"
  shows "\<exists>cc. gmap_get (po_ClustersConfigs otp) c = Some cc \<and> entries (cc_Endpoints cc) \<noteq> []"
  by (rule outbound_ready_endpoints [OF assms])

lemma sample_outbound:
  "case outbound ''cluster.local'' (NewMeshCatalog (sample_ic ActiveActiveLbType)) True PipyConf_zero of
     Returns r \<Rightarrow> or_ready r \<and> (case pc_Outbound (or_conf r) of
       None \<Rightarrow> False
     | Some otp \<Rightarrow> list_ex (names_cluster ''web.shop.svc.cluster.local'' ''shop/web|8080'') (po_store otp))
   | Panics \<Rightarrow> False"
  by code_simp

lemma ready_run_cases:
  assumes "case x of Returns r \<Rightarrow> or_ready r \<and> (case pc_Outbound (or_conf r) of None \<Rightarrow> False
      | Some otp \<Rightarrow> list_ex (names_cluster n c) (po_store otp)) | Panics \<Rightarrow> False"
  shows "\<exists>r otp. x = Returns r \<and> pc_Outbound (or_conf r) = Some otp \<and> or_ready r \<and> c \<in> outbound_clusters otp"
  using assms names_cluster_outbound by (auto split: outcome.splits option.splits)

theorem ready_clusters_have_endpoints_witness:
  "\<exists>r otp. outbound ''cluster.local'' (NewMeshCatalog (sample_ic ActiveActiveLbType)) True PipyConf_zero = Returns r \<and>
     pc_Outbound (or_conf r) = Some otp \<and> ''shop/web|8080'' \<in> outbound_clusters otp \<and>
     (\<exists>cc. gmap_get (po_ClustersConfigs otp) ''shop/web|8080'' = Some cc \<and> entries (cc_Endpoints cc) \<noteq> [])"
  using ready_run_cases [OF sample_outbound] ready_clusters_have_endpoints by blast

text \<open>C2. The control plane never panics while it builds the outbound configuration: on the services of
  any cluster whose names are Kubernetes names and whose protocols are set, the run returns.\<close>

theorem outbound_never_panics:
  assumes "\<forall>svc \<in> set (ListOutboundServices mc). names_ok svc \<and> protocol_ok svc"
  shows "\<exists>r. outbound trustDomain mc has_retry conf = Returns r"
  using assms by (rule outbound_returns)

lemma sample_services_ok:
  "list_all (\<lambda>svc. names_ok svc \<and> protocol_ok svc)
     (ListOutboundServices (NewMeshCatalog (sample_ic FailOverLbType)))"
  by code_simp

theorem outbound_never_panics_witness:
  "\<exists>r. outbound ''cluster.local'' (NewMeshCatalog (sample_ic FailOverLbType)) True PipyConf_zero = Returns r"
  using outbound_never_panics sample_services_ok unfolding list_all_iff by blast

text \<open>C3. Every HTTP or gRPC service of the mesh is reachable by its names: after a run, one traffic match
  under the service's port knows all hostnames of the service, and under the service's FQDN it
  has a rule for all paths and methods that leads to the service's cluster.\<close>

theorem http_services_are_routed:
  assumes "svc \<in> set (ListOutboundServices mc)" and "names_ok svc"
    and "is_http_protocol (to_lower (ms_Protocol svc))"
    and "outbound trustDomain mc has_retry PipyConf_zero = Returns r"
  shows "\<exists>otp l mr. pc_Outbound (or_conf r) = Some otp \<and> l \<in> set (listed otp (ms_Port svc)) \<and> l < length (po_store otp) \<and>
     set (GetHostnamesForService trustDomain svc False) \<subseteq> hosts_of (po_store otp ! l) \<and>
     HTTPMatchRule_deep_equal (http_match WildCardRouteMatch) mr \<and>
     (FQDN svc, mr, ClusterName svc) \<in> routes_of (po_store otp ! l)"
  using outbound_published [OF assms]
  by (fastforce simp: published_def config_published_def wildcard_policy_def cluster_names_of_def)

lemma sample_service_in:
  "sample_imported_service \<in> set (ListOutboundServices (NewMeshCatalog (sample_ic FailOverLbType)))"
proof -
  have "list_ex (\<lambda>s. s = sample_imported_service) (ListOutboundServices (NewMeshCatalog (sample_ic FailOverLbType)))"
    by code_simp
  then show ?thesis by (auto simp: list_ex_iff)
qed

theorem http_services_are_routed_witness:
  "\<exists>r otp l mr. outbound ''cluster.local'' (NewMeshCatalog (sample_ic FailOverLbType)) True PipyConf_zero = Returns r \<and>
     pc_Outbound (or_conf r) = Some otp \<and>
     (FQDN sample_imported_service, mr, ClusterName sample_imported_service) \<in> routes_of (po_store otp ! l)"
proof -
  obtain r where run: "outbound ''cluster.local'' (NewMeshCatalog (sample_ic FailOverLbType)) True PipyConf_zero = Returns r"
    using outbound_returns sample_services_ok unfolding list_all_iff by blast
  have "names_ok sample_imported_service" "is_http_protocol (to_lower (ms_Protocol sample_imported_service))"
    by code_simp+
  from http_services_are_routed [OF sample_service_in this run] run show ?thesis by blast
qed

text \<open>C4. What the route translation hands to the endpoint translation is complete and minimal: the
  dependent clusters are exactly the clusters that the published routes name, and the traffic
  matches are well formed.\<close>

theorem published_clusters_are_dependent:
  assumes "generatePipyOutboundTrafficRoutePolicy PipyConf_zero policy = Returns (conf, dependClusters)"
  shows "case pc_Outbound conf of
     None \<Rightarrow> dependClusters = None \<and> omtp_TrafficMatches policy = []
   | Some otp \<Rightarrow> outbound_ok otp \<and> outbound_clusters otp = dep_keys dependClusters"
  using routes_of_new_conf [OF assms] route_loop
  by (auto simp: PipyConf_zero_def split: option.split)

theorem published_clusters_are_dependent_witness:
  "\<exists>conf d. generatePipyOutboundTrafficRoutePolicy PipyConf_zero
       (GetOutboundMeshTrafficPolicy ''cluster.local'' (NewMeshCatalog (sample_ic FailOverLbType))) = Returns (conf, d) \<and>
     (case pc_Outbound conf of None \<Rightarrow> False | Some otp \<Rightarrow> outbound_clusters otp = dep_keys d)"
proof -
  let ?policy = "GetOutboundMeshTrafficPolicy ''cluster.local'' (NewMeshCatalog (sample_ic FailOverLbType))"
  have "case generatePipyOutboundTrafficRoutePolicy PipyConf_zero ?policy of
      Panics \<Rightarrow> False | Returns s \<Rightarrow> pc_Outbound (fst s) \<noteq> None" by code_simp
  then obtain conf d otp where run: "generatePipyOutboundTrafficRoutePolicy PipyConf_zero ?policy = Returns (conf, d)"
    and otp: "pc_Outbound conf = Some otp" by (auto split: outcome.splits)
  with published_clusters_are_dependent [OF run] show ?thesis by auto
qed

text \<open>C25. No hostname of the configuration is a dead end: after a run, every hostname a traffic match knows
  leads to a name with exactly one rule, which takes all paths and methods and has a target cluster.\<close>

theorem hostnames_lead_to_clusters:
  assumes "outbound trustDomain mc has_retry PipyConf_zero = Returns r" and "pc_Outbound (or_conf r) = Some otp"
    and "l < length (po_store otp)" and "gmap_get (otm_HTTPHostPort2Service (po_store otp ! l)) host = Some n"
  shows "\<exists>rule. gmap_get (otm_HTTPServiceRouteRules (po_store otp ! l)) n = Some [rule] \<and>
     HTTPMatchRule_deep_equal (http_match WildCardRouteMatch) (hrr_HTTPMatchRule rule) \<and>
     entries (hrr_TargetClusters rule) \<noteq> []"
proof -
  have "match_inv (po_store otp ! l)"
    using outbound_store_inv [OF assms(1,2)] assms(3) by (simp add: store_inv_def)
  from match_inv_host [OF this assms(4)] show ?thesis by (auto simp: catch_all_def)
qed

definition knows_host :: "string \<Rightarrow> PipyOutbound \<Rightarrow> bool" where
  "knows_host h otp \<longleftrightarrow> list_ex (\<lambda>m. gmap_get (otm_HTTPHostPort2Service m) h \<noteq> None) (po_store otp)"

lemma sample_host:
  "case outbound ''cluster.local'' (NewMeshCatalog (sample_ic FailOverLbType)) True PipyConf_zero of
     Returns r \<Rightarrow> (case pc_Outbound (or_conf r) of None \<Rightarrow> False | Some otp \<Rightarrow> knows_host ''web.shop:80'' otp)
   | Panics \<Rightarrow> False"
  by code_simp

theorem hostnames_lead_to_clusters_witness:
  "\<exists>r otp l n rule. outbound ''cluster.local'' (NewMeshCatalog (sample_ic FailOverLbType)) True PipyConf_zero = Returns r \<and>
     pc_Outbound (or_conf r) = Some otp \<and> l < length (po_store otp) \<and>
     gmap_get (otm_HTTPHostPort2Service (po_store otp ! l)) ''web.shop:80'' = Some n \<and>
     gmap_get (otm_HTTPServiceRouteRules (po_store otp ! l)) n = Some [rule] \<and> entries (hrr_TargetClusters rule) \<noteq> []"
proof -
  obtain r otp where run: "outbound ''cluster.local'' (NewMeshCatalog (sample_ic FailOverLbType)) True PipyConf_zero = Returns r"
      "pc_Outbound (or_conf r) = Some otp" and "knows_host ''web.shop:80'' otp"
    using sample_host by (auto split: outcome.splits option.splits)
  then obtain l n where "l < length (po_store otp)" "gmap_get (otm_HTTPHostPort2Service (po_store otp ! l)) ''web.shop:80'' = Some n"
    by (auto simp: knows_host_def list_ex_iff in_set_conv_nth)
  with run hostnames_lead_to_clusters [OF run this] show ?thesis by blast
qed

text \<open>C27. Sorting the route rules changes nothing in a configuration the control plane builds: every name has
  a single rule, so the published rules stand in the order they were added, whatever the sort does.\<close>

theorem reorder_keeps_configuration:
  assumes "outbound trustDomain mc has_retry PipyConf_zero = Returns r"
  shows "reorder pdq (balance (or_conf r)) = balance (or_conf r)"
  by (rule reorder_balanced [OF assms refl])

theorem reorder_keeps_configuration_witness:
  "\<exists>r. outbound ''cluster.local'' (NewMeshCatalog (sample_ic FailOverLbType)) True PipyConf_zero = Returns r \<and>
     reorder (\<lambda>lt xs. rev xs) (balance (or_conf r)) = balance (or_conf r)"
proof -
  obtain r where "outbound ''cluster.local'' (NewMeshCatalog (sample_ic FailOverLbType)) True PipyConf_zero = Returns r"
    using sample_host by (auto split: outcome.splits)
  with reorder_keeps_configuration [OF this] show ?thesis by blast
qed

text \<open>C28. Every endpoint the catalog has for a cluster of the configuration is listed in the cluster, under its
  address and a port that is the service's target port for an endpoint of another cluster, and the
  service's own port for a local endpoint, whatever port the endpoint itself has.\<close>

theorem endpoints_are_listed:
  assumes "outbound trustDomain mc has_retry PipyConf_zero = Returns r" and "pc_Outbound (or_conf r) = Some otp"
    and "c \<in> outbound_clusters otp" and "e \<in> set (getUpstreamEndpoints mc c)"
    and "getMeshClusterConfigs (omtp_ClustersConfigs (GetOutboundMeshTrafficPolicy trustDomain mc)) c = Some config"
  shows "\<exists>cc w. gmap_get (po_ClustersConfigs otp) c = Some cc \<and>
     gmap_get (cc_Endpoints cc) (endpoint_host_port (ip_string (ept_IP e))
       (if ept_ClusterKey e \<noteq> [] \<and> 0 < ms_TargetPort (mcc_Service config)
        then ms_TargetPort (mcc_Service config) else ms_Port (mcc_Service config))) = Some w"
  using outbound_lists_endpoint [OF assms] by (simp add: endpoint_key_def endpoint_port_def)

definition sample_pod_endpoint :: Endpoint where
  "sample_pod_endpoint = \<lparr>ept_IP = [0, 0, 0, 0, 0, 0, 0, 0, 0, 0, 255, 255, 10, 0, 0, 1], ept_Port = 8080,
     ept_Weight = 0, ept_ClusterKey = [], ept_LBType = [], ept_Path = []\<rparr>"

lemma sample_pod_listed:
  "list_ex (\<lambda>e. e = sample_pod_endpoint) (getUpstreamEndpoints (NewMeshCatalog (sample_ic ActiveActiveLbType)) ''shop/web|8080'')"
  "case getMeshClusterConfigs (omtp_ClustersConfigs (GetOutboundMeshTrafficPolicy ''cluster.local''
       (NewMeshCatalog (sample_ic ActiveActiveLbType)))) ''shop/web|8080'' of
     None \<Rightarrow> False | Some config \<Rightarrow> ms_Port (mcc_Service config) = 80"
  "endpoint_host_port (ip_string (ept_IP sample_pod_endpoint)) 80 = ''10.0.0.1:80''"
  "ept_ClusterKey sample_pod_endpoint = []"
  by code_simp+

theorem endpoints_are_listed_witness:
  "\<exists>r otp cc w. outbound ''cluster.local'' (NewMeshCatalog (sample_ic ActiveActiveLbType)) True PipyConf_zero = Returns r \<and>
     pc_Outbound (or_conf r) = Some otp \<and> gmap_get (po_ClustersConfigs otp) ''shop/web|8080'' = Some cc \<and>
     gmap_get (cc_Endpoints cc) ''10.0.0.1:80'' = Some w"
proof -
  obtain r otp where run: "outbound ''cluster.local'' (NewMeshCatalog (sample_ic ActiveActiveLbType)) True PipyConf_zero = Returns r"
      "pc_Outbound (or_conf r) = Some otp" "''shop/web|8080'' \<in> outbound_clusters otp"
    using ready_run_cases [OF sample_outbound] by blast
  obtain config where config: "getMeshClusterConfigs (omtp_ClustersConfigs (GetOutboundMeshTrafficPolicy ''cluster.local''
       (NewMeshCatalog (sample_ic ActiveActiveLbType)))) ''shop/web|8080'' = Some config" "ms_Port (mcc_Service config) = 80"
    using sample_pod_listed(2) by (auto split: option.splits)
  have "sample_pod_endpoint \<in> set (getUpstreamEndpoints (NewMeshCatalog (sample_ic ActiveActiveLbType)) ''shop/web|8080'')"
    using sample_pod_listed(1) unfolding list_ex_iff by blast
  from endpoints_are_listed [OF run this config(1)] have "\<exists>cc w. gmap_get (po_ClustersConfigs otp) ''shop/web|8080'' = Some cc \<and>
      gmap_get (cc_Endpoints cc) ''10.0.0.1:80'' = Some w"
    by (simp only: sample_pod_listed config(2) simp_thms if_False)
  with run(1,2) show ?thesis by blast
qed

end
